(* ===== verification/Prelude.thy ===== *)
theory Prelude
  imports Main "HOL-Library.Sublist" "HOL-Library.Char_ord" "HOL-Library.List_Lexorder"
begin

section \<open>Shared vocabulary: tables, guarded updates, maps as association lists\<close>

text \<open>
  A table of the database is the list of its rows in insertion order. The queries of the
  program are list functions: a find-first is the first row that satisfies the filter, a
  count is the number of rows that do, an update-many rewrites every row that does and
  reports how many there were. An update-many whose filter is falsified by its own write is
  how the program takes locks and consumes tokens: the locale \<open>guarded_update\<close> states
  that contract once, and every lock of the model interprets it.
\<close>

named_theorems table_simps \<open>equations of the table operations\<close>
named_theorems js_simps \<open>evaluation of the JavaScript value layer\<close>

subsection \<open>Table operations\<close>

definition find_first :: "('r \<Rightarrow> bool) \<Rightarrow> 'r list \<Rightarrow> 'r option" where
  "find_first p rows = List.find p rows"

definition count_where :: "('r \<Rightarrow> bool) \<Rightarrow> 'r list \<Rightarrow> nat" where
  "count_where p rows = length (filter p rows)"

definition update_where :: "('r \<Rightarrow> bool) \<Rightarrow> ('r \<Rightarrow> 'r) \<Rightarrow> 'r list \<Rightarrow> 'r list" where
  "update_where p f rows = map (\<lambda>r. if p r then f r else r) rows"

lemma find_first_simps [table_simps, simp]:
  "find_first p [] = None"
  "find_first p (r # rs) = (if p r then Some r else find_first p rs)"
  by (simp_all add: find_first_def)

lemma count_where_simps [table_simps, simp]:
  "count_where p [] = 0"
  "count_where p (r # rs) = (if p r then Suc (count_where p rs) else count_where p rs)"
  by (simp_all add: count_where_def)

lemma update_where_simps [table_simps, simp]:
  "update_where p f [] = []"
  "update_where p f (r # rs) = (if p r then f r else r) # update_where p f rs"
  by (simp_all add: update_where_def)

lemma find_first_None: "find_first p rows = None \<longleftrightarrow> (\<forall>r \<in> set rows. \<not> p r)"
  by (induction rows) auto

lemma find_first_Some: "find_first p rows = Some r \<Longrightarrow> r \<in> set rows \<and> p r"
  by (induction rows) (auto split: if_splits)

lemma find_first_in [dest]: "find_first p rows = Some r \<Longrightarrow> r \<in> set rows"
  by (simp add: find_first_Some)

lemma find_first_sat [dest]: "find_first p rows = Some r \<Longrightarrow> p r"
  by (simp add: find_first_Some)

lemma find_first_append:
  "find_first p (xs @ ys) = (case find_first p xs of None \<Rightarrow> find_first p ys | Some r \<Rightarrow> Some r)"
  by (induction xs) auto

lemma count_where_append [simp]: "count_where p (xs @ ys) = count_where p xs + count_where p ys"
  by (simp add: count_where_def)

lemma count_where_0: "count_where p rows = 0 \<longleftrightarrow> (\<forall>r \<in> set rows. \<not> p r)"
  by (auto simp: count_where_def filter_empty_conv)

lemma count_where_pos: "0 < count_where p rows \<longleftrightarrow> (\<exists>r \<in> set rows. p r)"
  using count_where_0 [of p rows] by (cases "count_where p rows = 0") auto

lemma update_where_append [simp]: "update_where p f (xs @ ys) = update_where p f xs @ update_where p f ys"
  by (simp add: update_where_def)

lemma length_update_where [simp]: "length (update_where p f rows) = length rows"
  by (simp add: update_where_def)

lemma set_update_where: "set (update_where p f rows) = (\<lambda>r. if p r then f r else r) ` set rows"
  by (simp add: update_where_def)

lemma update_where_none: "count_where p rows = 0 \<Longrightarrow> update_where p f rows = rows"
  by (induction rows) (auto split: if_splits)

lemma map_update_where:
  assumes "\<And>r. p r \<Longrightarrow> g (f r) = g r"
  shows "map g (update_where p f rows) = map g rows"
  using assms by (induction rows) auto

lemma count_update_other:
  assumes "\<And>r. p r \<Longrightarrow> q (f r) = q r"
  shows "count_where q (update_where p f rows) = count_where q rows"
  using assms by (induction rows) auto

lemma find_update_other:
  assumes "\<And>r. q r \<Longrightarrow> \<not> p r" and "\<And>r. p r \<Longrightarrow> \<not> q (f r)"
  shows "find_first q (update_where p f rows) = find_first q rows"
  using assms by (induction rows) auto

text \<open>With a key that is unique in the table, a filter on the key matches one row at most.\<close>

lemma count_key_le_1:
  assumes "distinct (map k rows)"
  shows "count_where (\<lambda>r. k r = x \<and> q r) rows \<le> 1"
  using assms
proof (induction rows)
  case Nil
  then show ?case by simp
next
  case (Cons r rows)
  show ?case
  proof (cases "k r = x \<and> q r")
    case True
    then have "k r = x" by simp
    with Cons.prems have "\<forall>r' \<in> set rows. k r' \<noteq> x"
      by (metis distinct.simps(2) image_eqI list.map(2) set_map)
    then have "count_where (\<lambda>r. k r = x \<and> q r) rows = 0" by (auto simp: count_where_0)
    with True show ?thesis by simp
  next
    case False
    with Cons show ?thesis by auto
  qed
qed

lemma find_first_key:
  assumes "distinct (map k rows)" and "r \<in> set rows" and "k r = x"
  shows "find_first (\<lambda>r. k r = x) rows = Some r"
  using assms by (induction rows) auto

lemma find_first_update_key:
  assumes "\<And>r. k (f r) = k r"
  shows "find_first (\<lambda>r. k r = x) (update_where (\<lambda>r. k r = x) f rows)
       = map_option f (find_first (\<lambda>r. k r = x) rows)"
  using assms by (induction rows) auto

subsection \<open>Guarded updates: the compare-and-set contract\<close>

text \<open>
  \<open>guard\<close> is the filter of an update-many and \<open>upd\<close> its write, restricted to one key.
  The write falsifies the filter and keeps the key, so of two such updates the second one
  reports zero rows: the caller that sees a positive count owns the row.
\<close>

locale guarded_update =
  fixes key :: "'r \<Rightarrow> 'k"
    and guard :: "'r \<Rightarrow> bool"
    and upd :: "'r \<Rightarrow> 'r"
  assumes upd_key: "key (upd r) = key r"
    and upd_closes: "guard r \<Longrightarrow> \<not> guard (upd r)"
begin

lemma keys_kept: "map key (update_where (\<lambda>r. key r = x \<and> guard r) upd rows) = map key rows"
  by (rule map_update_where) (simp add: upd_key)

lemma claimed_once:
  "count_where (\<lambda>r. key r = x \<and> guard r) (update_where (\<lambda>r. key r = x \<and> guard r) upd rows) = 0"
  using upd_closes by (induction rows) (auto simp: upd_key)

lemma claim_shuts_row:
  assumes "r \<in> set (update_where (\<lambda>r. key r = x \<and> guard r) upd rows)" and "key r = x"
  shows "\<not> guard r"
  using assms claimed_once [of x rows] by (auto simp: count_where_0)

lemma other_keys_kept:
  assumes "y \<noteq> x"
  shows "count_where (\<lambda>r. key r = y \<and> q r) (update_where (\<lambda>r. key r = x \<and> guard r) upd rows)
       = count_where (\<lambda>r. key r = y \<and> q r) rows"
  using assms by (intro count_update_other) (auto simp: upd_key)

lemma claim_unique:
  assumes "distinct (map key rows)"
  shows "count_where (\<lambda>r. key r = x \<and> guard r) rows \<le> 1"
  using assms by (rule count_key_le_1)

text \<open>Row by row: a row after the update is an untouched row or the write of a guarded one.\<close>

lemma row_after:
  assumes "r' \<in> set (update_where (\<lambda>r. key r = x \<and> guard r) upd rows)"
  shows "r' \<in> set rows \<or> (\<exists>r \<in> set rows. key r = x \<and> guard r \<and> r' = upd r)"
  using assms by (auto simp: set_update_where)

end

subsection \<open>Objects as association lists\<close>

text \<open>
  A JavaScript object is the list of its properties in enumeration order. Writing an
  existing property keeps its place; a new one goes to the end; the spread
  \<open>{ ...a, ...b }\<close> writes the properties of b into a copy of a.
\<close>

fun obj_set :: "string \<Rightarrow> 'v \<Rightarrow> (string \<times> 'v) list \<Rightarrow> (string \<times> 'v) list" where
  "obj_set k v [] = [(k, v)]"
| "obj_set k v ((k', v') # kvs) = (if k = k' then (k', v) # kvs else (k', v') # obj_set k v kvs)"

fun obj_spread :: "(string \<times> 'v) list \<Rightarrow> (string \<times> 'v) list \<Rightarrow> (string \<times> 'v) list" where
  "obj_spread a [] = a"
| "obj_spread a ((k, v) # b) = obj_spread (obj_set k v a) b"

lemma map_of_obj_set [simp]: "map_of (obj_set k v kvs) = (map_of kvs)(k \<mapsto> v)"
  by (induction kvs) (auto simp: fun_eq_iff)

lemma map_of_obj_spread:
  "distinct (map fst b) \<Longrightarrow> map_of (obj_spread a b) = map_of a ++ map_of b"
proof (induction b arbitrary: a)
  case Nil
  then show ?case by simp
next
  case (Cons kv b)
  obtain k v where kv: "kv = (k, v)" by (cases kv)
  have "k \<notin> dom (map_of b)" using Cons.prems kv by (auto simp: dom_map_of_conv_image_fst)
  then have "map_of b k = None" by (auto simp: domIff)
  then show ?case using Cons kv by (auto simp: fun_eq_iff map_add_def split: option.splits)
qed

lemma keys_obj_set: "fst ` set (obj_set k v kvs) = insert k (fst ` set kvs)"
  by (induction k v kvs rule: obj_set.induct) (simp_all add: insert_commute)

lemma distinct_obj_set: "distinct (map fst kvs) \<Longrightarrow> distinct (map fst (obj_set k v kvs))"
  by (induction k v kvs rule: obj_set.induct) (simp_all add: keys_obj_set)

lemma obj_set_nonempty [simp]: "obj_set k v kvs \<noteq> []"
  by (induction kvs) (auto split: if_splits prod.splits)

subsection \<open>Results of fallible steps\<close>

lemma sum_case_Inr: "(case x of Inl e \<Rightarrow> Inl e | Inr a \<Rightarrow> f a) = Inr b \<longleftrightarrow> (\<exists>a. x = Inr a \<and> f a = Inr b)"
  by (cases x) auto

lemma pair_split_fst: "x = (a, b) \<Longrightarrow> fst x = a \<and> snd x = b"
  by simp

end
