(* ===== verification/JsValue.thy ===== *)
theory JsValue
  imports Prelude
begin

section \<open>JavaScript values: numbers, strings, JSON, coercions and comparisons\<close>

text \<open>
  What the program uses of the language on values it reads from JSON columns and request
  bodies (TypeScript type \<open>any\<close>): property access, \<open>typeof\<close>, truthiness, \<open>??\<close>,
  \<open>String(..)\<close>, \<open>===\<close>, the relational operators, \<open>includes\<close>, \<open>startsWith\<close>,
  \<open>split\<close>, \<open>join\<close>, \<open>trim\<close>, \<open>toUpperCase\<close> and \<open>JSON.stringify\<close>.

  Numbers: a finite binary64 value is represented by the decimal its shortest printed form
  denotes, \<open>Fin m e\<close> for m * 10^e. Taking a double to that decimal is strictly
  monotone, so comparisons are exact, and printing needs no rounding. No arithmetic of the
  program is done on such values beyond comparison.

  Strings: a \<open>char\<close> is a UTF-16 code unit below 256. Strings with other code units are
  outside the model; case mapping is exact but for U+00B5 and U+00FF, whose upper case lies
  outside the alphabet and which are left as they are.

  Objects list their own properties in enumeration order; \<open>undefined\<close> is \<open>None\<close> of
  \<open>json option\<close>. Inherited properties (such as constructor) are not modelled.
\<close>

datatype num = Fin int int | PosInf | NegInf | NaN

datatype json =
    JNull
  | JBool bool
  | JNum num
  | JStr string
  | JArr "json list"
  | JObj "(string \<times> json) list"

abbreviation jnat :: "int \<Rightarrow> json" where "jnat n \<equiv> JNum (Fin n 0)"

subsection \<open>Numbers\<close>

definition scaled :: "int \<Rightarrow> int \<Rightarrow> int \<Rightarrow> int" where
  "scaled k m e = m * 10 ^ nat (e - k)"

fun num_lt :: "num \<Rightarrow> num \<Rightarrow> bool" where
  "num_lt NaN y = False"
| "num_lt x NaN = False"
| "num_lt (Fin m e) (Fin m' e') = (scaled (min e e') m e < scaled (min e e') m' e')"
| "num_lt NegInf y = (y \<noteq> NegInf)"
| "num_lt x NegInf = False"
| "num_lt PosInf y = False"
| "num_lt x PosInf = True"

fun num_eq :: "num \<Rightarrow> num \<Rightarrow> bool" where
  "num_eq (Fin m e) (Fin m' e') = (scaled (min e e') m e = scaled (min e e') m' e')"
| "num_eq PosInf PosInf = True"
| "num_eq NegInf NegInf = True"
| "num_eq _ _ = False"

definition num_le :: "num \<Rightarrow> num \<Rightarrow> bool" where
  "num_le x y \<longleftrightarrow> num_lt x y \<or> num_eq x y"

lemma num_lt_int [simp]: "num_lt (Fin m 0) (Fin n 0) \<longleftrightarrow> m < n"
  by (simp add: scaled_def)

lemma num_eq_int [simp]: "num_eq (Fin m 0) (Fin n 0) \<longleftrightarrow> m = n"
  by (simp add: scaled_def)

lemma num_le_int [simp]: "num_le (Fin m 0) (Fin n 0) \<longleftrightarrow> m \<le> n"
  by (auto simp: num_le_def scaled_def)

lemma num_lt_irrefl [simp]: "\<not> num_lt x x"
  by (cases x) auto

lemma scaled_shift:
  assumes "k \<le> k'" and "k' \<le> e"
  shows "scaled k m e = scaled k' m e * 10 ^ nat (k' - k)"
proof -
  have "nat (e - k) = nat (e - k') + nat (k' - k)" using assms by simp
  then show ?thesis by (simp add: scaled_def power_add)
qed

lemma scaled_less_iff:
  assumes "k \<le> e" and "k \<le> e'"
  shows "scaled k m e < scaled k m' e' \<longleftrightarrow> scaled (min e e') m e < scaled (min e e') m' e'"
proof -
  have "scaled k m e = scaled (min e e') m e * 10 ^ nat (min e e' - k)"
    and "scaled k m' e' = scaled (min e e') m' e' * 10 ^ nat (min e e' - k)"
    using assms by (auto intro!: scaled_shift)
  then show ?thesis by simp
qed

lemma num_lt_trans: "num_lt x y \<Longrightarrow> num_lt y z \<Longrightarrow> num_lt x z"
proof (cases x; cases y; cases z)
  fix m e m' e' m'' e''
  assume xyz: "x = Fin m e" "y = Fin m' e'" "z = Fin m'' e''"
    and lt: "num_lt x y" "num_lt y z"
  let ?k = "min e (min e' e'')"
  have k: "?k \<le> e" "?k \<le> e'" "?k \<le> e''" by auto
  have "scaled ?k m e < scaled ?k m' e'"
    using lt(1) xyz scaled_less_iff [OF k(1,2)] by simp
  moreover have "scaled ?k m' e' < scaled ?k m'' e''"
    using lt(2) xyz scaled_less_iff [OF k(2,3)] by simp
  ultimately have "scaled ?k m e < scaled ?k m'' e''" by (rule less_trans)
  then show "num_lt x z"
    unfolding xyz num_lt.simps scaled_less_iff [OF k(1,3)] .
qed auto

subsection \<open>Printing a number\<close>

definition digit :: "nat \<Rightarrow> char" where
  "digit n = ''0123456789'' ! n"

fun nat_digits :: "nat \<Rightarrow> string" where
  "nat_digits n = (if n < 10 then [digit n] else nat_digits (n div 10) @ [digit (n mod 10)])"

declare nat_digits.simps [simp del]

text \<open>The mantissa without its trailing zeros, as the shortest printed form has it.\<close>

function strip0 :: "nat \<Rightarrow> int \<Rightarrow> nat \<times> int" where
  "strip0 m e = (if m \<noteq> 0 \<and> m mod 10 = 0 then strip0 (m div 10) (e + 1) else (m, e))"
  by pat_completeness auto
termination
  by (relation "measure (\<lambda>(m, e). m)") auto

declare strip0.simps [simp del]

definition pos_str :: "nat \<Rightarrow> int \<Rightarrow> string" where
  "pos_str s e =
     (let ds = nat_digits s; k = int (length ds); n = k + e
      in if k \<le> n \<and> n \<le> 21 then ds @ replicate (nat (n - k)) (CHR ''0'')
         else if 0 < n \<and> n \<le> 21 then take (nat n) ds @ ''.'' @ drop (nat n) ds
         else if -6 < n \<and> n \<le> 0 then ''0.'' @ replicate (nat (- n)) (CHR ''0'') @ ds
         else (if k = 1 then ds else take 1 ds @ ''.'' @ drop 1 ds) @ ''e''
              @ (if n - 1 < 0 then ''-'' else ''+'') @ nat_digits (nat \<bar>n - 1\<bar>))"

fun num_str :: "num \<Rightarrow> string" where
  "num_str (Fin m e) =
     (if m = 0 then ''0''
      else (if m < 0 then ''-'' else []) @ (case strip0 (nat \<bar>m\<bar>) e of (s, e') \<Rightarrow> pos_str s e'))"
| "num_str PosInf = ''Infinity''"
| "num_str NegInf = ''-Infinity''"
| "num_str NaN = ''NaN''"

subsection \<open>Strings\<close>

definition code :: "char \<Rightarrow> nat" where
  "code c = of_char c"

definition is_digit :: "char \<Rightarrow> bool" where
  "is_digit c \<longleftrightarrow> 48 \<le> code c \<and> code c \<le> 57"

text \<open>White space and line terminators among the modelled code units.\<close>

definition is_space :: "char \<Rightarrow> bool" where
  "is_space c \<longleftrightarrow> (9 \<le> code c \<and> code c \<le> 13) \<or> code c = 32 \<or> code c = 160"

definition js_trim :: "string \<Rightarrow> string" where
  "js_trim s = rev (dropWhile is_space (rev (dropWhile is_space s)))"

lemma trim_core:
  assumes "\<forall>c \<in> set a. is_space c" and "\<forall>c \<in> set b. is_space c" and "s \<noteq> []" "\<not> is_space (hd s)" "\<not> is_space (last s)"
  shows "js_trim (a @ s @ b) = s"
proof -
  have drop: "dropWhile is_space (xs @ ys) = ys" if "\<forall>c \<in> set xs. is_space c" "ys \<noteq> [] \<Longrightarrow> \<not> is_space (hd ys)" for xs ys
    using that by (induction xs) (cases ys; simp)+
  have "dropWhile is_space (a @ s @ b) = s @ b" using assms by (intro drop) simp_all
  moreover have "dropWhile is_space (rev b @ rev s) = rev s" using assms by (intro drop) (simp_all add: hd_rev)
  ultimately show ?thesis by (simp add: js_trim_def)
qed

definition upper_char :: "char \<Rightarrow> string" where
  "upper_char c =
     (if code c = 223 then ''SS''
      else if (97 \<le> code c \<and> code c \<le> 122) \<or> (224 \<le> code c \<and> code c \<le> 254 \<and> code c \<noteq> 247)
        then [char_of (code c - 32)]
      else [c])"

definition js_upper :: "string \<Rightarrow> string" where
  "js_upper s = concat (map upper_char s)"

definition lower_char :: "char \<Rightarrow> char" where
  "lower_char c =
     (if (65 \<le> code c \<and> code c \<le> 90) \<or> (192 \<le> code c \<and> code c \<le> 222 \<and> code c \<noteq> 215)
      then char_of (code c + 32) else c)"

definition js_lower :: "string \<Rightarrow> string" where
  "js_lower s = map lower_char s"

definition js_includes :: "string \<Rightarrow> string \<Rightarrow> bool" where
  "js_includes s t \<longleftrightarrow> sublist t s"

definition starts_with :: "string \<Rightarrow> string \<Rightarrow> bool" where
  "starts_with s t \<longleftrightarrow> prefix t s"

definition ends_with :: "string \<Rightarrow> string \<Rightarrow> bool" where
  "ends_with s t \<longleftrightarrow> suffix t s"

fun js_join :: "string \<Rightarrow> string list \<Rightarrow> string" where
  "js_join sep [] = []"
| "js_join sep [x] = x"
| "js_join sep (x # y # ys) = x @ sep @ js_join sep (y # ys)"

text \<open>Splitting at a one-character separator; the result is never empty.\<close>

fun js_split :: "char \<Rightarrow> string \<Rightarrow> string list" where
  "js_split c [] = [[]]"
| "js_split c (x # xs) =
     (if x = c then [] # js_split c xs
      else case js_split c xs of [] \<Rightarrow> [[x]] | w # ws \<Rightarrow> (x # w) # ws)"

lemma js_split_nonempty [simp]: "js_split c s \<noteq> []"
  by (cases s) (auto split: list.splits)

lemma join_split: "js_join [c] (js_split c s) = s"
proof (induction s)
  case Nil
  then show ?case by simp
next
  case (Cons x xs)
  obtain w ws where w: "js_split c xs = w # ws" using js_split_nonempty by (cases "js_split c xs") auto
  with Cons show ?case by (cases ws) auto
qed

lemma split_no_sep: "c \<notin> set w \<Longrightarrow> js_split c w = [w]"
  by (induction w) auto

lemma split_at_sep: "c \<notin> set w \<Longrightarrow> js_split c (w @ c # s) = w # js_split c s"
  by (induction w) auto

lemma split_join:
  assumes "ws \<noteq> []" and "\<forall>w \<in> set ws. c \<notin> set w"
  shows "js_split c (js_join [c] ws) = ws"
  using assms
proof (induction "[c]" ws rule: js_join.induct)
  case (3 x y ys)
  then show ?case by (simp add: split_at_sep)
qed (auto simp: split_no_sep)

lemma join_snoc: "ws \<noteq> [] \<Longrightarrow> js_join sep (ws @ [w]) = js_join sep ws @ sep @ w"
proof (induction sep ws rule: js_join.induct)
  case (3 sep x y ys)
  then show ?case by simp
qed auto

lemma split_words_no_sep: "w \<in> set (js_split c s) \<Longrightarrow> c \<notin> set w"
  by (induction s arbitrary: w) (auto split: if_splits list.splits)

subsection \<open>Reading a number out of a string\<close>

text \<open>
  \<open>Number(s)\<close> for a string: white space around is dropped, the empty string is 0, then a
  decimal literal with optional sign, fraction and exponent, or Infinity, or an unsigned
  hexadecimal, octal or binary literal; anything else is NaN. The decimal is kept exactly.
\<close>

definition nat_of_digits :: "string \<Rightarrow> nat" where
  "nat_of_digits ds = foldl (\<lambda>n c. 10 * n + (code c - 48)) 0 ds"

definition radix_digit :: "char \<Rightarrow> nat" where
  "radix_digit c =
     (if is_digit c then code c - 48
      else if 97 \<le> code c \<and> code c \<le> 102 then code c - 87
      else if 65 \<le> code c \<and> code c \<le> 70 then code c - 55
      else 99)"

definition parse_radix :: "nat \<Rightarrow> string \<Rightarrow> num" where
  "parse_radix b ds =
     (if ds \<noteq> [] \<and> list_all (\<lambda>c. radix_digit c < b) ds
      then Fin (int (foldl (\<lambda>n c. b * n + radix_digit c) 0 ds)) 0 else NaN)"

definition parse_exponent :: "string \<Rightarrow> int option" where
  "parse_exponent s =
     (case s of
        [] \<Rightarrow> Some 0
      | c # r \<Rightarrow>
          if c \<noteq> CHR ''e'' \<and> c \<noteq> CHR ''E'' then None
          else (let neg = (r \<noteq> [] \<and> hd r = CHR ''-'');
                    ds = (if r \<noteq> [] \<and> (hd r = CHR ''-'' \<or> hd r = CHR ''+'') then tl r else r)
                in if ds \<noteq> [] \<and> list_all is_digit ds
                   then Some (if neg then - int (nat_of_digits ds) else int (nat_of_digits ds))
                   else None))"

definition parse_unsigned :: "string \<Rightarrow> num" where
  "parse_unsigned s =
     (let ip = takeWhile is_digit s; r = dropWhile is_digit s;
          fp = (if r \<noteq> [] \<and> hd r = CHR ''.'' then takeWhile is_digit (tl r) else []);
          r' = (if r \<noteq> [] \<and> hd r = CHR ''.'' then dropWhile is_digit (tl r) else r)
      in if s = ''Infinity'' then PosInf
         else if ip = [] \<and> fp = [] then NaN
         else (case parse_exponent r' of
                 None \<Rightarrow> NaN
               | Some x \<Rightarrow> Fin (int (nat_of_digits (ip @ fp))) (x - int (length fp))))"

fun num_neg :: "num \<Rightarrow> num" where
  "num_neg (Fin m e) = Fin (- m) e"
| "num_neg PosInf = NegInf"
| "num_neg NegInf = PosInf"
| "num_neg NaN = NaN"

definition parse_num :: "string \<Rightarrow> num" where
  "parse_num s0 =
     (let s = js_trim s0 in
      case s of
        [] \<Rightarrow> Fin 0 0
      | c # r \<Rightarrow>
          if c = CHR ''-'' then num_neg (parse_unsigned r)
          else if c = CHR ''+'' then parse_unsigned r
          else if c = CHR ''0'' \<and> r \<noteq> [] \<and> hd r \<in> {CHR ''x'', CHR ''X''} then parse_radix 16 (tl r)
          else if c = CHR ''0'' \<and> r \<noteq> [] \<and> hd r \<in> {CHR ''o'', CHR ''O''} then parse_radix 8 (tl r)
          else if c = CHR ''0'' \<and> r \<noteq> [] \<and> hd r \<in> {CHR ''b'', CHR ''B''} then parse_radix 2 (tl r)
          else parse_unsigned s)"

subsection \<open>Coercions and comparisons of JSON values\<close>

fun js_string :: "json \<Rightarrow> string" where
  "js_string JNull = ''null''"
| "js_string (JBool b) = (if b then ''true'' else ''false'')"
| "js_string (JNum n) = num_str n"
| "js_string (JStr s) = s"
| "js_string (JArr xs) =
     js_join '','' (map (\<lambda>x. if x = JNull then [] else js_string x) xs)"
| "js_string (JObj kvs) = ''[object Object]''"

definition opt_string :: "json option \<Rightarrow> string" where
  "opt_string v = (case v of None \<Rightarrow> ''undefined'' | Some x \<Rightarrow> js_string x)"

fun js_number :: "json \<Rightarrow> num" where
  "js_number JNull = Fin 0 0"
| "js_number (JBool b) = (if b then Fin 1 0 else Fin 0 0)"
| "js_number (JNum n) = n"
| "js_number (JStr s) = parse_num s"
| "js_number v = parse_num (js_string v)"

fun truthy :: "json \<Rightarrow> bool" where
  "truthy JNull = False"
| "truthy (JBool b) = b"
| "truthy (JNum n) = (n \<noteq> NaN \<and> \<not> num_eq n (Fin 0 0))"
| "truthy (JStr s) = (s \<noteq> [])"
| "truthy (JArr xs) = True"
| "truthy (JObj kvs) = True"

definition truthy_opt :: "json option \<Rightarrow> bool" where
  "truthy_opt v = (case v of None \<Rightarrow> False | Some x \<Rightarrow> truthy x)"

text \<open>\<open>a || b\<close>.\<close>

definition or_else :: "json option \<Rightarrow> json \<Rightarrow> json" where
  "or_else v d = (case v of Some x \<Rightarrow> if truthy x then x else d | None \<Rightarrow> d)"

definition nullish :: "json option \<Rightarrow> bool" where
  "nullish v \<longleftrightarrow> v = None \<or> v = Some JNull"

text \<open>\<open>a ?? b\<close>.\<close>

definition coalesce :: "json option \<Rightarrow> json option \<Rightarrow> json option" where
  "coalesce a b = (if nullish a then b else a)"

text \<open>The operand of a relational operator after ToPrimitive.\<close>

fun to_primitive :: "json \<Rightarrow> json" where
  "to_primitive (JArr xs) = JStr (js_string (JArr xs))"
| "to_primitive (JObj kvs) = JStr (js_string (JObj kvs))"
| "to_primitive v = v"

text \<open>\<open>a < b\<close>: code unit order on two strings, numeric otherwise (False with a NaN).\<close>

definition js_lt :: "json \<Rightarrow> json \<Rightarrow> bool" where
  "js_lt a b =
     (case (to_primitive a, to_primitive b) of
        (JStr s, JStr t) \<Rightarrow> s < t
      | (p, q) \<Rightarrow> num_lt (js_number p) (js_number q))"

abbreviation js_gt :: "json \<Rightarrow> json \<Rightarrow> bool" where "js_gt a b \<equiv> js_lt b a"

text \<open>
  \<open>a === b\<close> for values that come from different documents: objects and arrays are
  compared by reference, so never equal.
\<close>

fun strict_eq :: "json \<Rightarrow> json \<Rightarrow> bool" where
  "strict_eq JNull JNull = True"
| "strict_eq (JBool a) (JBool b) = (a = b)"
| "strict_eq (JNum a) (JNum b) = num_eq a b"
| "strict_eq (JStr a) (JStr b) = (a = b)"
| "strict_eq _ _ = False"

text \<open>The comparison of \<open>Array.includes\<close>: as \<open>===\<close>, but NaN equals itself.\<close>

definition same_value_zero :: "json \<Rightarrow> json \<Rightarrow> bool" where
  "same_value_zero a b \<longleftrightarrow> strict_eq a b \<or> (a = JNum NaN \<and> b = JNum NaN)"

fun jget :: "json \<Rightarrow> string \<Rightarrow> json option" where
  "jget (JObj kvs) k = map_of kvs k"
| "jget _ k = None"

definition jget_opt :: "json option \<Rightarrow> string \<Rightarrow> json option" where
  "jget_opt v k = (case v of None \<Rightarrow> None | Some x \<Rightarrow> jget x k)"

text \<open>The properties of an object value; none for any other value.\<close>

fun obj_entries :: "json \<Rightarrow> (string \<times> json) list" where
  "obj_entries (JObj kvs) = kvs"
| "obj_entries _ = []"

lemma js_lt_nums [simp]: "js_lt (JNum a) (JNum b) = num_lt a b"
  by (simp add: js_lt_def)

lemma js_gt_str_int: "js_lt (jnat n) (JStr s) = num_lt (Fin n 0) (parse_num s)"
  by (simp add: js_lt_def)

lemma map_of_obj_entries: "map_of (obj_entries v) k = jget v k"
  by (cases v) auto

subsection \<open>JSON.stringify\<close>

text \<open>
  \<open>JSON.stringify\<close> on a JSON value: strings are quoted with the escapes of the language,
  a number that is not finite prints as null.
\<close>

definition dq :: char where
  "dq = CHR 0x22"

definition bs :: char where
  "bs = CHR 0x5C"

definition hex_digit :: "nat \<Rightarrow> char" where
  "hex_digit n = ''0123456789abcdef'' ! n"

definition esc :: "char \<Rightarrow> string" where
  "esc c =
     (if c = dq then [bs, dq]
      else if c = bs then [bs, bs]
      else if code c = 8 then [bs, CHR ''b'']
      else if code c = 9 then [bs, CHR ''t'']
      else if code c = 10 then [bs, CHR ''n'']
      else if code c = 12 then [bs, CHR ''f'']
      else if code c = 13 then [bs, CHR ''r'']
      else if code c < 32
        then [bs, CHR ''u'', CHR ''0'', CHR ''0'', hex_digit (code c div 16), hex_digit (code c mod 16)]
      else [c])"

definition json_quote :: "string \<Rightarrow> string" where
  "json_quote s = [dq] @ concat (map esc s) @ [dq]"

definition num_json :: "num \<Rightarrow> string" where
  "num_json n = (case n of Fin m e \<Rightarrow> num_str n | _ \<Rightarrow> ''null'')"

fun json_stringify :: "json \<Rightarrow> string" where
  "json_stringify JNull = ''null''"
| "json_stringify (JBool b) = (if b then ''true'' else ''false'')"
| "json_stringify (JNum n) = num_json n"
| "json_stringify (JStr s) = json_quote s"
| "json_stringify (JArr xs) = ''['' @ js_join '','' (map json_stringify xs) @ '']''"
| "json_stringify (JObj kvs) =
     ''{'' @ js_join '','' (map (\<lambda>(k, v). json_quote k @ '':'' @ json_stringify v) kvs) @ ''}''"

text \<open>An object literal as \<open>JSON.stringify\<close> prints it: undefined properties are left out.\<close>

definition obj_literal :: "(string \<times> json option) list \<Rightarrow> json" where
  "obj_literal kvs = JObj (concat (map (\<lambda>(k, v). case v of None \<Rightarrow> [] | Some x \<Rightarrow> [(k, x)]) kvs))"

text \<open>A single quote, which the messages of the program use around names.\<close>

definition sq :: string where
  "sq = [char_of (39 :: nat)]"

end
