(* ===== verification/Json_Text.thy ===== *)
theory Json_Text
  imports JsValue
begin

section \<open>Printed JSON reads back one way\<close>

text \<open>
  Facts about \<open>JSON.stringify\<close> that the payload hash rests on: no two JSON values with
  distinct property lists print alike. Numbers are compared by their canonical decimals
  (\<open>wf_num\<close>: the mantissa of the shortest printed form).
\<close>

definition wf_num :: "num \<Rightarrow> bool" where
  "wf_num n = (case n of Fin m e \<Rightarrow> (m = 0 \<and> e = 0) \<or> (m \<noteq> 0 \<and> nat \<bar>m\<bar> mod 10 \<noteq> 0) | _ \<Rightarrow> False)"

text \<open>Well-formed values: canonical finite numbers and no property listed twice.\<close>

fun wf_json :: "json \<Rightarrow> bool" where
  "wf_json (JNum n) = wf_num n"
| "wf_json (JArr xs) = list_all wf_json xs"
| "wf_json (JObj kvs) = (distinct (map fst kvs) \<and> list_all (\<lambda>(k, v). wf_json v) kvs)"
| "wf_json _ = True"

subsection \<open>Digits\<close>

lemma nat_digits_nonempty [simp]: "nat_digits n \<noteq> []"
  by (subst nat_digits.simps) simp

lemma digit_inj: "a < 10 \<Longrightarrow> b < 10 \<Longrightarrow> digit a = digit b \<longleftrightarrow> a = b"
  unfolding digit_def by (subst nth_eq_iff_index_eq) auto

lemma digit_in: "a < 10 \<Longrightarrow> digit a \<in> set ''0123456789''"
  unfolding digit_def by (rule nth_mem) simp

lemma digit_0: "digit 0 = CHR ''0''"
  by (simp add: digit_def)

lemma digit_eq_0: "a < 10 \<Longrightarrow> digit a = CHR ''0'' \<longleftrightarrow> a = 0"
  using digit_inj [of a 0] by (simp add: digit_0)

lemma nat_digits_set: "set (nat_digits n) \<subseteq> set ''0123456789''"
proof (induction n rule: nat_digits.induct)
  case (1 n)
  show ?case
  proof (cases "n < 10")
    case True
    then show ?thesis using digit_in [of n] by (subst nat_digits.simps) auto
  next
    case False
    then show ?thesis using 1 digit_in [of "n mod 10"] by (subst nat_digits.simps) auto
  qed
qed

lemma nat_digits_last: "last (nat_digits n) = digit (n mod 10)"
  by (subst nat_digits.simps) simp

lemma nat_digits_hd: "n \<noteq> 0 \<Longrightarrow> hd (nat_digits n) \<noteq> CHR ''0''"
proof (induction n rule: nat_digits.induct)
  case (1 n)
  show ?case
  proof (cases "n < 10")
    case True
    then show ?thesis using 1 by (subst nat_digits.simps) (simp add: digit_eq_0)
  next
    case False
    then have "hd (nat_digits (n div 10)) \<noteq> CHR ''0''" using 1 by simp
    with False show ?thesis by (subst nat_digits.simps) simp
  qed
qed

lemma nat_digits_inj: "nat_digits m = nat_digits n \<Longrightarrow> m = n"
proof (induction m arbitrary: n rule: nat_digits.induct)
  case (1 m)
  have "digit (m mod 10) = digit (n mod 10)"
    using 1(2) nat_digits_last [of m] nat_digits_last [of n] by simp
  then have mods: "m mod 10 = n mod 10" by (simp add: digit_inj)
  have len: "length (nat_digits x) = 1 \<longleftrightarrow> x < 10" for x
    by (subst nat_digits.simps) auto
  show ?case
  proof (cases "m < 10")
    case True
    then have "n < 10" using 1(2) len [of m] len [of n] by simp
    with True mods show ?thesis by simp
  next
    case False
    then have n: "\<not> n < 10" using 1(2) len [of m] len [of n] by simp
    have "butlast (nat_digits m) = nat_digits (m div 10)"
      using False by (subst nat_digits.simps) simp
    moreover have "butlast (nat_digits n) = nat_digits (n div 10)"
      using n by (subst nat_digits.simps) simp
    ultimately have "nat_digits (m div 10) = nat_digits (n div 10)" using 1(2) by simp
    then have "m div 10 = n div 10" using 1(1) False by blast
    with mods show ?thesis by (metis div_mult_mod_eq)
  qed
qed

subsection \<open>Numbers\<close>

lemma takeWhile_split:
  assumes "\<forall>x \<in> set xs. P x" and "\<forall>x \<in> set xs'. P x"
    and "ys = [] \<or> \<not> P (hd ys)" and "ys' = [] \<or> \<not> P (hd ys')"
    and "xs @ ys = xs' @ ys'"
  shows "xs = xs' \<and> ys = ys'"
proof -
  have "takeWhile P (xs @ ys) = xs" using assms(1,3)
    by (cases ys) (auto simp: takeWhile_append2)
  moreover have "takeWhile P (xs' @ ys') = xs'" using assms(2,4)
    by (cases ys') (auto simp: takeWhile_append2)
  ultimately have "xs = xs'" using assms(5) by simp
  then show ?thesis using assms(5) by simp
qed

text \<open>The digits of a canonical mantissa begin and end with a digit other than 0.\<close>

definition good_digits :: "string \<Rightarrow> bool" where
  "good_digits ds \<longleftrightarrow> ds \<noteq> [] \<and> hd ds \<noteq> CHR ''0'' \<and> last ds \<noteq> CHR ''0'' \<and> set ds \<subseteq> set ''0123456789''"

lemma good_nat_digits: "s mod 10 \<noteq> 0 \<Longrightarrow> good_digits (nat_digits s)"
proof -
  assume s: "s mod 10 \<noteq> 0"
  then have "s \<noteq> 0" by (cases "s = 0") simp_all
  moreover have "last (nat_digits s) \<noteq> CHR ''0''"
    using s digit_eq_0 [of "s mod 10"] by (simp only: nat_digits_last) simp
  ultimately show ?thesis
    unfolding good_digits_def
    by (intro conjI nat_digits_set nat_digits_hd nat_digits_nonempty)
qed

lemma zeros_tail_inj:
  assumes "good_digits ds" and "good_digits ds'"
    and eq: "ds @ replicate a (CHR ''0'') = ds' @ replicate b (CHR ''0'')"
  shows "ds = ds' \<and> a = b"
proof -
  have "rev (ds @ replicate a (CHR ''0'')) = rev (ds' @ replicate b (CHR ''0''))" using eq by simp
  then have r: "replicate a (CHR ''0'') @ rev ds = replicate b (CHR ''0'') @ rev ds'" by simp
  have "replicate a (CHR ''0'') = replicate b (CHR ''0'') \<and> rev ds = rev ds'"
    by (rule takeWhile_split [where P = "\<lambda>c. c = CHR ''0''", OF _ _ _ _ r])
      (use assms(1,2) in \<open>auto simp: good_digits_def hd_rev\<close>)
  then show ?thesis by (auto dest: arg_cong [where f = length])
qed

lemma zeros_head_inj:
  assumes "good_digits ds" and "good_digits ds'"
    and eq: "replicate a (CHR ''0'') @ ds = replicate b (CHR ''0'') @ ds'"
  shows "ds = ds' \<and> a = b"
proof -
  have "replicate a (CHR ''0'') = replicate b (CHR ''0'') \<and> ds = ds'"
    by (rule takeWhile_split [where P = "\<lambda>c. c = CHR ''0''", OF _ _ _ _ eq])
      (use assms(1,2) in \<open>auto simp: good_digits_def\<close>)
  then show ?thesis by (auto dest: arg_cong [where f = length])
qed

text \<open>The layout of a printed number, from its digits and the place of the decimal point.\<close>

definition layout :: "string \<Rightarrow> int \<Rightarrow> string" where
  "layout ds n =
     (let k = int (length ds)
      in if k \<le> n \<and> n \<le> 21 then ds @ replicate (nat (n - k)) (CHR ''0'')
         else if 0 < n \<and> n \<le> 21 then take (nat n) ds @ ''.'' @ drop (nat n) ds
         else if -6 < n \<and> n \<le> 0 then ''0.'' @ replicate (nat (- n)) (CHR ''0'') @ ds
         else (if k = 1 then ds else take 1 ds @ ''.'' @ drop 1 ds) @ ''e''
              @ (if n - 1 < 0 then ''-'' else ''+'') @ nat_digits (nat \<bar>n - 1\<bar>))"

lemma pos_str_layout: "pos_str s e = layout (nat_digits s) (int (length (nat_digits s)) + e)"
  by (simp add: pos_str_def layout_def Let_def)

lemma good_no_sep:
  assumes "good_digits ds"
  shows "CHR ''.'' \<notin> set ds" "CHR ''e'' \<notin> set ds"
  using assms unfolding good_digits_def by auto

lemma point_split:
  assumes "c \<notin> set xs" and "c \<notin> set xs'" and "xs @ c # ys = xs' @ c # ys'"
  shows "xs = xs' \<and> ys = ys'"
  using takeWhile_split [where P = "\<lambda>x. x \<noteq> c", OF _ _ _ _ assms(3)] assms(1,2) by auto

text \<open>The exponent form: a mantissa with an optional point, then the exponent.\<close>

definition mantissa :: "string \<Rightarrow> string" where
  "mantissa ds = (if length ds = 1 then ds else take 1 ds @ ''.'' @ drop 1 ds)"

definition exponent :: "int \<Rightarrow> string" where
  "exponent x = (if x < 0 then ''-'' else ''+'') @ nat_digits (nat \<bar>x\<bar>)"

lemma mantissa_inj:
  assumes "good_digits ds" "good_digits ds'" and "mantissa ds = mantissa ds'"
  shows "ds = ds'"
proof -
  have dot: "CHR ''.'' \<in> set (mantissa xs) \<longleftrightarrow> length xs \<noteq> 1" if "good_digits xs" for xs
    using good_no_sep [OF that] by (auto simp: mantissa_def)
  have len: "length ds = 1 \<longleftrightarrow> length ds' = 1" using dot [of ds] dot [of ds'] assms by auto
  show ?thesis
  proof (cases "length ds = 1")
    case True
    with len assms(3) show ?thesis by (simp add: mantissa_def)
  next
    case False
    have "CHR ''.'' \<notin> set (take 1 ds)" "CHR ''.'' \<notin> set (take 1 ds')"
      using good_no_sep [OF assms(1)] good_no_sep [OF assms(2)] by (auto dest: in_set_takeD)
    moreover have "take 1 ds @ CHR ''.'' # drop 1 ds = take 1 ds' @ CHR ''.'' # drop 1 ds'"
      using assms(3) False len by (simp add: mantissa_def)
    ultimately have "take 1 ds = take 1 ds' \<and> drop 1 ds = drop 1 ds'" by (rule point_split)
    then show ?thesis by (metis append_take_drop_id)
  qed
qed

lemma exponent_inj: "exponent x = exponent y \<Longrightarrow> x = y"
  by (auto simp: exponent_def split: if_splits dest!: nat_digits_inj)

lemma layout_cases:
  assumes "good_digits ds"
  obtains (A) a where "n = int (length ds) + int a" "layout ds n = ds @ replicate a (CHR ''0'')"
  | (B) "0 < n" "n < int (length ds)" "layout ds n = take (nat n) ds @ CHR ''.'' # drop (nat n) ds"
  | (C) a where "n = - int a" "layout ds n = CHR ''0'' # CHR ''.'' # replicate a (CHR ''0'') @ ds"
  | (D) "layout ds n = mantissa ds @ CHR ''e'' # exponent (n - 1)"
proof -
  let ?k = "int (length ds)"
  have k: "0 < ?k" using assms by (auto simp: good_digits_def)
  consider "?k \<le> n \<and> n \<le> 21" | "0 < n \<and> n < ?k \<and> n \<le> 21" | "-6 < n \<and> n \<le> 0"
    | "\<not> (?k \<le> n \<and> n \<le> 21)" "\<not> (0 < n \<and> n \<le> 21)" "\<not> (-6 < n \<and> n \<le> 0)" by linarith
  then show thesis
  proof cases
    case 1
    then show thesis using A [of "nat (n - ?k)"] by (simp add: layout_def Let_def)
  next
    case 2
    then show thesis using B by (simp add: layout_def Let_def)
  next
    case 3
    then show thesis using C [of "nat (- n)"] k by (simp add: layout_def Let_def)
  next
    case 4
    then have "layout ds n = (if ?k = 1 then ds else take 1 ds @ ''.'' @ drop 1 ds) @ ''e''
              @ (if n - 1 < 0 then ''-'' else ''+'') @ nat_digits (nat \<bar>n - 1\<bar>)"
      unfolding layout_def Let_def by (simp only: if_False)
    also have "\<dots> = mantissa ds @ CHR ''e'' # exponent (n - 1)"
      by (simp add: mantissa_def exponent_def)
    finally show thesis by (rule D)
  qed
qed

lemma layout_marks:
  assumes "good_digits ds"
  shows "(layout ds n = ds @ replicate a (CHR ''0'') \<Longrightarrow> CHR ''.'' \<notin> set (layout ds n) \<and> CHR ''e'' \<notin> set (layout ds n))"
    and "(layout ds n = take j ds @ CHR ''.'' # drop j ds \<Longrightarrow> 0 < j \<Longrightarrow>
       CHR ''.'' \<in> set (layout ds n) \<and> CHR ''e'' \<notin> set (layout ds n) \<and> hd (layout ds n) \<noteq> CHR ''0'')"
    and "(layout ds n = CHR ''0'' # CHR ''.'' # replicate a (CHR ''0'') @ ds \<Longrightarrow>
       CHR ''.'' \<in> set (layout ds n) \<and> CHR ''e'' \<notin> set (layout ds n) \<and> hd (layout ds n) = CHR ''0'')"
    and "(layout ds n = mantissa ds @ CHR ''e'' # exponent x \<Longrightarrow> CHR ''e'' \<in> set (layout ds n))"
proof -
  note g = good_no_sep [OF assms]
  have h: "ds \<noteq> []" "hd ds \<noteq> CHR ''0''" using assms by (auto simp: good_digits_def)
  show "layout ds n = ds @ replicate a (CHR ''0'') \<Longrightarrow> CHR ''.'' \<notin> set (layout ds n) \<and> CHR ''e'' \<notin> set (layout ds n)"
    using g by auto
  show "CHR ''.'' \<in> set (layout ds n) \<and> CHR ''e'' \<notin> set (layout ds n) \<and> hd (layout ds n) \<noteq> CHR ''0''"
    if "layout ds n = take j ds @ CHR ''.'' # drop j ds" and "0 < j"
    using g h that by (auto dest: in_set_takeD in_set_dropD simp: hd_append hd_take)
  show "layout ds n = CHR ''0'' # CHR ''.'' # replicate a (CHR ''0'') @ ds \<Longrightarrow>
       CHR ''.'' \<in> set (layout ds n) \<and> CHR ''e'' \<notin> set (layout ds n) \<and> hd (layout ds n) = CHR ''0''"
    using g by auto
  show "layout ds n = mantissa ds @ CHR ''e'' # exponent x \<Longrightarrow> CHR ''e'' \<in> set (layout ds n)"
    by simp
qed

lemma layout_inj:
  assumes g: "good_digits ds" "good_digits ds'" and eq: "layout ds n = layout ds' n'"
  shows "ds = ds' \<and> n = n'"
  using g(1)
proof (cases rule: layout_cases [where n = n])
  case A1: (A a)
  note m1 = layout_marks(1) [OF g(1) A1(2)]
  show ?thesis using g(2)
  proof (cases rule: layout_cases [where n = n'])
    case A2: (A b)
    have "ds @ replicate a (CHR ''0'') = ds' @ replicate b (CHR ''0'')" using eq A1(2) A2(2) by simp
    then have "ds = ds' \<and> a = b" by (rule zeros_tail_inj [OF g])
    then show ?thesis using A1(1) A2(1) by simp
  next
    case B2: B then show ?thesis using m1 layout_marks(2) [OF g(2) B2(3)] eq by simp
  next
    case C2: (C b) then show ?thesis using m1 layout_marks(3) [OF g(2) C2(2)] eq by simp
  next
    case D2: D then show ?thesis using m1 layout_marks(4) [OF g(2) D2] eq by simp
  qed
next
  case B1: B
  have m1: "CHR ''.'' \<in> set (layout ds n) \<and> CHR ''e'' \<notin> set (layout ds n) \<and> hd (layout ds n) \<noteq> CHR ''0''"
    using layout_marks(2) [OF g(1) B1(3)] B1(1) by simp
  show ?thesis using g(2)
  proof (cases rule: layout_cases [where n = n'])
    case A2: (A a) then show ?thesis using m1 layout_marks(1) [OF g(2) A2(2)] eq by simp
  next
    case B2: B
    have "CHR ''.'' \<notin> set (take (nat n) ds)" "CHR ''.'' \<notin> set (take (nat n') ds')"
      using good_no_sep [OF g(1)] good_no_sep [OF g(2)] by (auto dest: in_set_takeD)
    moreover have e: "take (nat n) ds @ CHR ''.'' # drop (nat n) ds = take (nat n') ds' @ CHR ''.'' # drop (nat n') ds'"
      using eq B1 B2 by simp
    ultimately have s: "take (nat n) ds = take (nat n') ds' \<and> drop (nat n) ds = drop (nat n') ds'"
      by (rule point_split)
    then have "ds = ds'" by (metis append_take_drop_id)
    moreover have "nat n = nat n'" using s B1 B2 by (auto dest: arg_cong [where f = length])
    ultimately show ?thesis using B1(1) B2(1) by simp
  next
    case C2: (C a) then show ?thesis using m1 layout_marks(3) [OF g(2) C2(2)] eq by simp
  next
    case D2: D then show ?thesis using m1 layout_marks(4) [OF g(2) D2] eq by simp
  qed
next
  case C1: (C a)
  note m1 = layout_marks(3) [OF g(1) C1(2)]
  show ?thesis using g(2)
  proof (cases rule: layout_cases [where n = n'])
    case A2: (A a) then show ?thesis using m1 layout_marks(1) [OF g(2) A2(2)] eq by simp
  next
    case B2: B then show ?thesis using m1 layout_marks(2) [OF g(2) B2(3)] eq by simp
  next
    case C2: (C b)
    have "replicate a (CHR ''0'') @ ds = replicate b (CHR ''0'') @ ds'" using eq C1(2) C2(2) by simp
    then have "ds = ds' \<and> a = b" by (rule zeros_head_inj [OF g])
    then show ?thesis using C1(1) C2(1) by simp
  next
    case D2: D then show ?thesis using m1 layout_marks(4) [OF g(2) D2] eq by simp
  qed
next
  case D1: D
  note m1 = layout_marks(4) [OF g(1) D1]
  show ?thesis using g(2)
  proof (cases rule: layout_cases [where n = n'])
    case A2: (A a) then show ?thesis using m1 layout_marks(1) [OF g(2) A2(2)] eq by simp
  next
    case B2: B then show ?thesis using m1 layout_marks(2) [OF g(2) B2(3)] eq by simp
  next
    case C2: (C a) then show ?thesis using m1 layout_marks(3) [OF g(2) C2(2)] eq by simp
  next
    case D2: D
    have "CHR ''e'' \<notin> set (mantissa ds)" "CHR ''e'' \<notin> set (mantissa ds')"
      using good_no_sep [OF g(1)] good_no_sep [OF g(2)]
      by (auto simp: mantissa_def dest: in_set_takeD in_set_dropD)
    moreover have "mantissa ds @ CHR ''e'' # exponent (n - 1) = mantissa ds' @ CHR ''e'' # exponent (n' - 1)"
      using eq D1 D2 by simp
    ultimately have "mantissa ds = mantissa ds' \<and> exponent (n - 1) = exponent (n' - 1)"
      by (rule point_split)
    then show ?thesis using mantissa_inj [OF g] exponent_inj by fastforce
  qed
qed

lemma strip0_canonical: "m mod 10 \<noteq> 0 \<Longrightarrow> strip0 m e = (m, e)"
  by (subst strip0.simps) simp

lemma pos_str_inj:
  assumes "s mod 10 \<noteq> 0" "s' mod 10 \<noteq> 0" and "pos_str s e = pos_str s' e'"
  shows "s = s' \<and> e = e'"
proof -
  have "nat_digits s = nat_digits s'
      \<and> int (length (nat_digits s)) + e = int (length (nat_digits s')) + e'"
    using assms(3) by (intro layout_inj good_nat_digits assms(1,2)) (simp add: pos_str_layout)
  then show ?thesis by (auto dest: nat_digits_inj)
qed

text \<open>The characters of a printed number, none of which delimits a JSON value.\<close>

definition num_chars :: "char set" where
  "num_chars = set ''0123456789.e+-''"

lemma digits_num_chars: "set ''0123456789'' \<subseteq> num_chars"
  by (simp add: num_chars_def)

lemma num_chars_in [simp]:
  "CHR ''0'' \<in> num_chars" "CHR ''.'' \<in> num_chars" "CHR ''e'' \<in> num_chars"
  "CHR ''+'' \<in> num_chars" "CHR ''-'' \<in> num_chars"
  by (simp_all add: num_chars_def)

lemma good_num_chars: "good_digits ds \<Longrightarrow> set ds \<subseteq> num_chars"
  using digits_num_chars unfolding good_digits_def by blast

lemma layout_chars:
  assumes "good_digits ds"
  shows "set (layout ds n) \<subseteq> num_chars"
proof -
  note ds = good_num_chars [OF assms]
  have t: "set (take j ds) \<subseteq> num_chars" "set (drop j ds) \<subseteq> num_chars" for j
    using ds by (meson set_take_subset set_drop_subset subset_trans)+
  have x: "set (exponent x) \<subseteq> num_chars" for x
    using subset_trans [OF nat_digits_set digits_num_chars] by (simp add: exponent_def)
  show ?thesis using assms
  proof (cases rule: layout_cases [where n = n])
    case (A a)
    then show ?thesis using ds by (simp add: set_replicate_conv_if)
  next
    case B
    then show ?thesis using t by simp
  next
    case (C a)
    then show ?thesis using ds by (simp add: set_replicate_conv_if)
  next
    case D
    then show ?thesis using ds t [of 1] x by (simp add: mantissa_def)
  qed
qed

lemma layout_hd:
  assumes "good_digits ds"
  shows "layout ds n \<noteq> [] \<and> hd (layout ds n) \<in> set ''0123456789'' \<and> layout ds n \<noteq> ''0''"
proof -
  have ds: "ds \<noteq> []" "set ds \<subseteq> set ''0123456789''" "hd ds \<noteq> CHR ''0''"
    using assms by (simp_all add: good_digits_def)
  have hd: "hd ds \<in> set ''0123456789''" using ds(1,2) hd_in_set by blast
  have other: ?thesis if "layout ds n \<noteq> []" "hd (layout ds n) = hd ds"
    using that hd ds(3) by (metis list.sel(1))
  show ?thesis using assms
  proof (cases rule: layout_cases [where n = n])
    case (A a)
    then show ?thesis using ds(1) by (intro other) simp_all
  next
    case B
    then have "hd (take (nat n) ds) = hd ds" "take (nat n) ds \<noteq> []" using ds(1) by (simp_all add: hd_take)
    then show ?thesis using B(3) by (intro other) (simp_all add: hd_append)
  next
    case (C a)
    then show ?thesis by simp
  next
    case D
    then show ?thesis using ds(1) by (intro other) (cases ds; simp add: mantissa_def)+
  qed
qed

lemma pos_str_hd:
  assumes "m mod 10 \<noteq> 0"
  shows "pos_str m e \<noteq> [] \<and> hd (pos_str m e) \<in> set ''0123456789'' \<and> pos_str m e \<noteq> ''0''"
  using layout_hd [OF good_nat_digits [OF assms]] by (simp add: pos_str_layout)

lemma num_str_canonical:
  "nat \<bar>m\<bar> mod 10 \<noteq> 0 \<Longrightarrow> m \<noteq> 0 \<Longrightarrow>
   num_str (Fin m e) = (if m < 0 then ''-'' else []) @ pos_str (nat \<bar>m\<bar>) e"
  by (simp add: strip0_canonical)

lemma wf_num_cases:
  assumes "wf_num n"
  obtains (zero) "n = Fin 0 0" | (nonzero) m e where "n = Fin m e" "m \<noteq> 0" "nat \<bar>m\<bar> mod 10 \<noteq> 0"
  using assms by (cases n) (auto simp: wf_num_def)

lemma num_str_hd:
  assumes "wf_num n"
  shows "num_str n \<noteq> [] \<and> hd (num_str n) \<in> insert (CHR ''-'') (set ''0123456789'') \<and> set (num_str n) \<subseteq> num_chars"
  using assms
proof (cases rule: wf_num_cases)
  case zero
  then show ?thesis by simp
next
  case (nonzero m e)
  obtain p where p: "pos_str (nat \<bar>m\<bar>) e = p" by simp
  have "set p \<subseteq> num_chars"
    using layout_chars [OF good_nat_digits [OF nonzero(3)]] unfolding p [symmetric] pos_str_layout by blast
  moreover have "p \<noteq> [] \<and> hd p \<in> set ''0123456789''" using pos_str_hd [OF nonzero(3), of e] p by blast
  moreover have "num_str n = (if m < 0 then ''-'' else []) @ p"
    using num_str_canonical [OF nonzero(3,2), of e] nonzero(1) p by (simp del: num_str.simps)
  ultimately show ?thesis by simp
qed

lemma num_str_inj:
  assumes "wf_num x" "wf_num y" and eq: "num_str x = num_str y"
  shows "x = y"
proof -
  have neg: "pos_str a e \<noteq> CHR ''-'' # s" if "a mod 10 \<noteq> 0" for a e s
    using pos_str_hd [OF that, of e] by auto
  from assms(1) show ?thesis
  proof (cases rule: wf_num_cases)
    case x0: zero
    from assms(2) show ?thesis
    proof (cases rule: wf_num_cases)
      case zero with x0 show ?thesis by simp
    next
      case (nonzero m e)
      then have "''0'' = (if m < 0 then ''-'' else []) @ pos_str (nat \<bar>m\<bar>) e"
        using eq x0 num_str_canonical [OF nonzero(3,2), of e] by simp
      then show ?thesis using pos_str_hd [OF nonzero(3), of e] by (auto split: if_splits)
    qed
  next
    case x: (nonzero m e)
    note cx = num_str_canonical [OF x(3,2), of e]
    from assms(2) show ?thesis
    proof (cases rule: wf_num_cases)
      case zero
      then have "''0'' = (if m < 0 then ''-'' else []) @ pos_str (nat \<bar>m\<bar>) e" using eq x cx by simp
      then show ?thesis using pos_str_hd [OF x(3), of e] by (auto split: if_splits)
    next
      case y: (nonzero m' e')
      note cy = num_str_canonical [OF y(3,2), of e']
      have e: "(if m < 0 then ''-'' else []) @ pos_str (nat \<bar>m\<bar>) e
            = (if m' < 0 then ''-'' else []) @ pos_str (nat \<bar>m'\<bar>) e'"
        using eq cx cy x(1) y(1) by simp
      have sgn: "m < 0 \<longleftrightarrow> m' < 0"
        using e neg [OF x(3), of e] neg [OF y(3), of e'] by (cases "m < 0"; cases "m' < 0"; simp; metis)
      then have "pos_str (nat \<bar>m\<bar>) e = pos_str (nat \<bar>m'\<bar>) e'" using e by (simp split: if_splits)
      then have "nat \<bar>m\<bar> = nat \<bar>m'\<bar> \<and> e = e'" by (rule pos_str_inj [OF x(3) y(3)])
      then show ?thesis using sgn x(1) y(1) by (auto split: if_splits)
    qed
  qed
qed

subsection \<open>Quoted strings\<close>

lemma dq_bs [simp]: "dq \<noteq> bs" "bs \<noteq> dq" "code dq = 34" "code bs = 92"
  by (simp_all add: dq_def bs_def code_def)

lemma code_inj: "code c = code d \<longleftrightarrow> c = d"
  by (simp add: code_def)

lemma hex_inj: "a < 16 \<Longrightarrow> b < 16 \<Longrightarrow> hex_digit a = hex_digit b \<longleftrightarrow> a = b"
  unfolding hex_digit_def by (subst nth_eq_iff_index_eq) auto

lemma esc_hd: "esc c \<noteq> [] \<and> hd (esc c) \<noteq> dq \<and> (hd (esc c) = bs \<or> esc c = [c])"
  by (simp add: esc_def)

lemma esc_plain: "hd (esc c) \<noteq> bs \<Longrightarrow> esc c = [c]"
  using esc_hd by blast

text \<open>The second character of an escape tells which one it is.\<close>

definition unesc :: "char \<Rightarrow> nat" where
  "unesc b = (if b = dq then 34 else if b = bs then 92 else if b = CHR ''b'' then 8
     else if b = CHR ''t'' then 9 else if b = CHR ''n'' then 10 else if b = CHR ''f'' then 12 else 13)"

lemma esc_bs:
  assumes "hd (esc c) = bs"
  shows "(\<exists>b. esc c = [bs, b] \<and> b \<noteq> CHR ''u'' \<and> code c = unesc b)
    \<or> (code c < 32 \<and> esc c =
         [bs, CHR ''u'', CHR ''0'', CHR ''0'', hex_digit (code c div 16), hex_digit (code c mod 16)])"
  using assms by (auto simp: esc_def unesc_def dq_def bs_def code_def split: if_splits)

lemma esc_prefix_free:
  assumes "esc c @ x = esc d @ y"
  shows "c = d \<and> x = y"
proof (cases "hd (esc c) = bs")
  case False
  then have "hd (esc d) \<noteq> bs" using assms esc_hd by (metis hd_append2)
  then show ?thesis using assms esc_plain [OF False] esc_plain [of d] by simp
next
  case True
  then have d: "hd (esc d) = bs" using assms esc_hd by (metis hd_append2)
  have u: "c = d" if "code c div 16 = code d div 16" "code c mod 16 = code d mod 16"
    using that code_inj by (metis div_mult_mod_eq)
  from esc_bs [OF True] esc_bs [OF d] show ?thesis
  proof (elim disjE exE conjE)
    fix b b' assume "esc c = [bs, b]" "esc d = [bs, b']" "code c = unesc b" "code d = unesc b'"
    then show ?thesis using assms code_inj by force
  next
    fix b assume "esc c = [bs, b]" "b \<noteq> CHR ''u''"
      "esc d = [bs, CHR ''u'', CHR ''0'', CHR ''0'', hex_digit (code d div 16), hex_digit (code d mod 16)]"
    then show ?thesis using assms by simp
  next
    fix b assume "esc d = [bs, b]" "b \<noteq> CHR ''u''"
      "esc c = [bs, CHR ''u'', CHR ''0'', CHR ''0'', hex_digit (code c div 16), hex_digit (code c mod 16)]"
    then show ?thesis using assms by simp
  next
    assume "code c < 32" "code d < 32"
      "esc c = [bs, CHR ''u'', CHR ''0'', CHR ''0'', hex_digit (code c div 16), hex_digit (code c mod 16)]"
      "esc d = [bs, CHR ''u'', CHR ''0'', CHR ''0'', hex_digit (code d div 16), hex_digit (code d mod 16)]"
    then show ?thesis using assms u by (simp add: hex_inj)
  qed
qed

lemma quote_body_readable:
  "concat (map esc s) @ dq # r = concat (map esc t) @ dq # r' \<Longrightarrow> s = t \<and> r = r'"
proof (induction s arbitrary: t)
  case Nil
  then show ?case
  proof (cases t)
    case (Cons c t')
    with Nil show ?thesis using esc_hd [of c] by (cases "esc c") auto
  qed auto
next
  case (Cons c s)
  show ?case
  proof (cases t)
    case Nil
    with Cons.prems show ?thesis using esc_hd [of c] by (cases "esc c") auto
  next
    case t: (Cons d t')
    have "esc c @ concat (map esc s) @ dq # r = esc d @ concat (map esc t') @ dq # r'"
      using Cons.prems t by simp
    then have "c = d \<and> concat (map esc s) @ dq # r = concat (map esc t') @ dq # r'"
      by (rule esc_prefix_free)
    with Cons.IH [of t'] t show ?thesis by simp
  qed
qed

lemma quote_readable: "json_quote s @ r = json_quote t @ r' \<Longrightarrow> s = t \<and> r = r'"
  by (rule quote_body_readable) (simp add: json_quote_def)

subsection \<open>Whole values\<close>

text \<open>After a value comes the end of the text, a comma or a closing bracket.\<close>

definition delim :: "string \<Rightarrow> bool" where
  "delim r \<longleftrightarrow> r = [] \<or> hd r \<in> set '',]}''"

lemma atom_readable:
  assumes "set x \<inter> set '',]}'' = {}" "set y \<inter> set '',]}'' = {}" "delim r" "delim r'" "x @ r = y @ r'"
  shows "x = y \<and> r = r'"
  by (rule takeWhile_split [where P = "\<lambda>c. c \<notin> set '',]}''", OF _ _ _ _ assms(5)])
    (use assms in \<open>auto simp: delim_def\<close>)

lemma num_atom: "wf_num n \<Longrightarrow> set (num_str n) \<inter> set '',]}'' = {}"
  using num_str_hd [of n] by (auto simp: num_chars_def)

lemma num_json_wf: "wf_num n \<Longrightarrow> num_json n = num_str n"
  by (auto simp: num_json_def wf_num_def split: num.splits)

text \<open>The kind of a value, which its first printed character determines.\<close>

fun kind :: "json \<Rightarrow> nat" where
  "kind JNull = 0"
| "kind (JBool b) = (if b then 1 else 2)"
| "kind (JNum n) = 3"
| "kind (JStr s) = 4"
| "kind (JArr xs) = 5"
| "kind (JObj kvs) = 6"

definition kind_of_char :: "char \<Rightarrow> nat" where
  "kind_of_char c =
     (if c = CHR ''n'' then 0 else if c = CHR ''t'' then 1 else if c = CHR ''f'' then 2
      else if c = dq then 4 else if c = CHR ''['' then 5 else if c = CHR ''{'' then 6 else 3)"

lemma stringify_hd:
  assumes "wf_json v"
  shows "json_stringify v \<noteq> [] \<and> kind_of_char (hd (json_stringify v)) = kind v
    \<and> hd (json_stringify v) \<notin> set '',]}''"
proof (cases v)
  case (JNum n)
  then have "json_stringify v = num_str n" using assms by (simp add: num_json_wf)
  then show ?thesis using num_str_hd [of n] assms JNum by (auto simp: kind_of_char_def dq_def)
qed (auto simp: kind_of_char_def json_quote_def dq_def)

lemma join_Cons: "js_join sep (x # xs) = x @ concat (map ((@) sep) xs)"
  by (induction xs arbitrary: x) auto

text \<open>Reading back a comma-separated list of items, each of which reads back.\<close>

definition readable :: "('a \<Rightarrow> string) \<Rightarrow> 'a \<Rightarrow> bool" where
  "readable f x \<longleftrightarrow> (\<forall>y r r'. f x @ r = f y @ r' \<longrightarrow> delim r \<longrightarrow> delim r' \<longrightarrow> x = y \<and> r = r')"

lemma items_readable:
  assumes "\<And>x y r r'. x \<in> set xs \<Longrightarrow> y \<in> set ys \<Longrightarrow> f x @ r = f y @ r' \<Longrightarrow> delim r \<Longrightarrow> delim r'
      \<Longrightarrow> x = y \<and> r = r'"
    and "close \<in> set '']}''"
    and "concat (map (\<lambda>x. '','' @ f x) xs) @ close # r = concat (map (\<lambda>x. '','' @ f x) ys) @ close # r'"
  shows "xs = ys \<and> r = r'"
  using assms
proof (induction xs arbitrary: ys)
  case Nil
  then show ?case by (cases ys) auto
next
  case (Cons x xs)
  show ?case
  proof (cases ys)
    case Nil
    with Cons.prems(2,3) show ?thesis by auto
  next
    case ys: (Cons y ys')
    have d: "delim (concat (map (\<lambda>x. '','' @ f x) zs) @ close # s)" for zs s
      using Cons.prems(2) by (cases zs) (auto simp: delim_def)
    have "f x @ concat (map (\<lambda>x. '','' @ f x) xs) @ close # r
        = f y @ concat (map (\<lambda>x. '','' @ f x) ys') @ close # r'"
      using Cons.prems(3) ys by simp
    then have "x = y \<and> concat (map (\<lambda>x. '','' @ f x) xs) @ close # r
        = concat (map (\<lambda>x. '','' @ f x) ys') @ close # r'"
      using Cons.prems(1) [of x y] ys d by simp
    moreover from this have "xs = ys' \<and> r = r'"
      using Cons.prems(1,2) ys by (intro Cons.IH) auto
    ultimately show ?thesis using ys by simp
  qed
qed

lemma list_readable:
  assumes item: "\<And>x y r r'. x \<in> set xs \<Longrightarrow> y \<in> set ys \<Longrightarrow> f x @ r = f y @ r' \<Longrightarrow> delim r \<Longrightarrow> delim r'
      \<Longrightarrow> x = y \<and> r = r'"
    and hd: "\<And>x. x \<in> set xs \<union> set ys \<Longrightarrow> f x \<noteq> [] \<and> hd (f x) \<notin> set '',]}''"
    and close: "close \<in> set '']}''"
    and eq: "js_join '','' (map f xs) @ close # r = js_join '','' (map f ys) @ close # r'"
  shows "xs = ys \<and> r = r'"
proof (cases xs)
  case Nil
  show ?thesis
  proof (cases ys)
    case (Cons y ys')
    have "f y \<noteq> []" "hd (f y) \<notin> set '',]}''" using hd Cons by auto
    moreover have "hd (f y) = close" using eq Nil Cons \<open>f y \<noteq> []\<close> by (cases "f y") (auto simp: join_Cons)
    ultimately show ?thesis using close by auto
  qed (use eq Nil in auto)
next
  case xs: (Cons x xs')
  show ?thesis
  proof (cases ys)
    case Nil
    have "f x \<noteq> []" "hd (f x) \<notin> set '',]}''" using hd xs by auto
    moreover have "hd (f x) = close" using eq Nil xs \<open>f x \<noteq> []\<close> by (cases "f x") (auto simp: join_Cons)
    ultimately show ?thesis using close by auto
  next
    case (Cons y ys')
    have "concat (map (\<lambda>x. '','' @ f x) xs) @ close # r = concat (map (\<lambda>x. '','' @ f x) ys) @ close # r'"
      using eq xs Cons by (simp add: join_Cons o_def)
    then show ?thesis using item close by (intro items_readable) auto
  qed
qed

lemma entry_readable:
  assumes eq: "json_quote k @ '':'' @ f v @ r = json_quote k' @ '':'' @ f v' @ r'"
    and v: "f v @ r = f v' @ r' \<Longrightarrow> v = v' \<and> r = r'"
  shows "(k, v) = (k', v') \<and> r = r'"
proof -
  have "k = k' \<and> '':'' @ f v @ r = '':'' @ f v' @ r'" by (rule quote_readable [OF eq])
  then show ?thesis using v by simp
qed

lemma same_kind:
  assumes "wf_json a" "wf_json b" "json_stringify a @ r = json_stringify b @ r'"
  shows "kind a = kind b"
  using stringify_hd [OF assms(1)] stringify_hd [OF assms(2)] assms(3) by (metis hd_append2)

lemma kind_cases:
  "kind b = 0 \<longleftrightarrow> b = JNull"
  "kind b = 3 \<longleftrightarrow> (\<exists>n. b = JNum n)"
  "kind b = 4 \<longleftrightarrow> (\<exists>s. b = JStr s)"
  "kind b = 5 \<longleftrightarrow> (\<exists>xs. b = JArr xs)"
  "kind b = 6 \<longleftrightarrow> (\<exists>kvs. b = JObj kvs)"
  "kind b = kind (JBool v) \<longleftrightarrow> b = JBool v"
  by (cases b; simp)+

lemma stringify_readable:
  assumes "wf_json a" "wf_json b" "json_stringify a @ r = json_stringify b @ r'" "delim r" "delim r'"
  shows "a = b \<and> r = r'"
  using assms
proof (induction a arbitrary: b r r' rule: json_stringify.induct)
  case 1
  then have "b = JNull" using same_kind [of JNull b] kind_cases(1) by fastforce
  with 1 show ?case by simp
next
  case (2 v)
  then have "b = JBool v" using same_kind [of "JBool v" b] kind_cases(6) by metis
  with 2 show ?case by simp
next
  case (3 n)
  then obtain n' where b: "b = JNum n'" using same_kind [of "JNum n" b] kind_cases(2) by fastforce
  have n: "wf_num n" "wf_num n'" using 3 b by auto
  have "num_str n = num_str n' \<and> r = r'"
    by (rule atom_readable [OF num_atom [OF n(1)] num_atom [OF n(2)] 3(4,5)])
      (use 3(3) b n in \<open>simp add: num_json_wf\<close>)
  then show ?case using num_str_inj n b by simp
next
  case (4 s)
  then obtain s' where b: "b = JStr s'" using same_kind [of "JStr s" b] kind_cases(3) by fastforce
  with 4 show ?case using quote_readable [of s r s' r'] by simp
next
  case (5 xs)
  then obtain ys where b: "b = JArr ys" using same_kind [of "JArr xs" b] kind_cases(4) by fastforce
  have wf: "\<And>x. x \<in> set xs \<Longrightarrow> wf_json x" "\<And>y. y \<in> set ys \<Longrightarrow> wf_json y"
    using 5(2,3) b by (auto simp: list_all_iff)
  have "js_join '','' (map json_stringify xs) @ CHR '']'' # r = js_join '','' (map json_stringify ys) @ CHR '']'' # r'"
    using 5(4) b by simp
  then have "xs = ys \<and> r = r'"
  proof (rule list_readable [rotated 3])
    fix x y s s'
    assume "x \<in> set xs" "y \<in> set ys" "json_stringify x @ s = json_stringify y @ s'" "delim s" "delim s'"
    then show "x = y \<and> s = s'" using 5(1) wf by blast
  next
    fix x assume "x \<in> set xs \<union> set ys"
    then show "json_stringify x \<noteq> [] \<and> hd (json_stringify x) \<notin> set '',]}''" using wf stringify_hd by blast
  qed simp
  with b show ?case by simp
next
  case (6 kvs)
  then obtain kvs' where b: "b = JObj kvs'" using same_kind [of "JObj kvs" b] kind_cases(5) by fastforce
  let ?f = "\<lambda>(k, v). json_quote k @ '':'' @ json_stringify v"
  have wf: "\<And>k v. (k, v) \<in> set kvs \<Longrightarrow> wf_json v" "\<And>k v. (k, v) \<in> set kvs' \<Longrightarrow> wf_json v"
    using 6(2,3) b by (auto simp: list_all_iff)
  have "js_join '','' (map ?f kvs) @ CHR ''}'' # r = js_join '','' (map ?f kvs') @ CHR ''}'' # r'"
    using 6(4) b by simp
  then have "kvs = kvs' \<and> r = r'"
  proof (rule list_readable [rotated 3])
    fix x y s s'
    assume x: "x \<in> set kvs" and y: "y \<in> set kvs'" and eq: "?f x @ s = ?f y @ s'" and d: "delim s" "delim s'"
    obtain k v k' v' where kv: "x = (k, v)" "y = (k', v')" by (cases x; cases y)
    have "json_stringify v @ s = json_stringify v' @ s' \<Longrightarrow> v = v' \<and> s = s'"
      using 6(1) [OF x kv(1) [symmetric]] wf x y kv d by blast
    then show "x = y \<and> s = s'" using entry_readable [of k json_stringify v s k' v' s'] eq kv by simp
  next
    fix x assume "x \<in> set kvs \<union> set kvs'"
    show "?f x \<noteq> [] \<and> hd (?f x) \<notin> set '',]}''" by (cases x) (simp add: json_quote_def dq_def)
  qed simp
  with b show ?case by simp
qed

theorem json_stringify_inj:
  assumes "wf_json a" "wf_json b" "json_stringify a = json_stringify b"
  shows "a = b"
  using stringify_readable [of a b "[]" "[]"] assms by (simp add: delim_def)

end
