(* ===== verification/Schema.thy ===== *)
theory Schema
  imports Json_Text
begin

section \<open>The data model: rows, policies, errors, the world\<close>

text \<open>
  The rows of \<open>prisma/schema.prisma\<close>, the policy types of the engine, the error classes of
  the pipeline and the state every handler runs in. Status columns are strings in the
  database; the program only ever writes the values listed here, so they are datatypes, each
  constructor named after the string it stands for. Times are milliseconds.
\<close>

subsection \<open>Statuses\<close>

datatype task_status =
    T_PENDING | T_PROCESSING | T_AWAITING_HUMAN | T_COMPLETED | T_FAILED | T_EXPIRED

datatype proposal_status = P_PENDING | P_APPROVED | P_REJECTED | P_PENDING_REVIEW

datatype decision_type =
    D_APPROVE | D_APPROVE_WITH_CONSTRAINTS | D_REJECT_AND_REPLAN | D_BLOCK_AND_ESCALATE
  | D_HUMAN_OVERRIDE_APPROVED | D_OVERRIDE_IN_PROGRESS

datatype exec_status =
    E_PENDING | E_EXECUTING | E_COMPLETED | E_FAILED | E_UNKNOWN
  | E_RECONCILIATION_REQUIRED | E_RECONCILIATION_FAILED | E_PARTIAL_SUCCESS

datatype risk = LOW | MEDIUM | HIGH | CRITICAL

text \<open>Risks are ordered by severity.\<close>

fun risk_rank :: "risk \<Rightarrow> nat" where
  "risk_rank LOW = 0" | "risk_rank MEDIUM = 1" | "risk_rank HIGH = 2" | "risk_rank CRITICAL = 3"

lemma risk_rank_inj: "risk_rank a = risk_rank b \<Longrightarrow> a = b"
  by (cases a; cases b) simp_all

instantiation risk :: linorder
begin

definition less_eq_risk :: "risk \<Rightarrow> risk \<Rightarrow> bool" where
  "less_eq_risk a b \<longleftrightarrow> risk_rank a \<le> risk_rank b"

definition less_risk :: "risk \<Rightarrow> risk \<Rightarrow> bool" where
  "less_risk a b \<longleftrightarrow> risk_rank a < risk_rank b"

instance
  by standard (auto simp: less_eq_risk_def less_risk_def dest: risk_rank_inj)

end

text \<open>The strings behind the constructors, where the program looks at them as strings.\<close>

fun decision_name :: "decision_type \<Rightarrow> string" where
  "decision_name D_APPROVE = ''APPROVE''"
| "decision_name D_APPROVE_WITH_CONSTRAINTS = ''APPROVE_WITH_CONSTRAINTS''"
| "decision_name D_REJECT_AND_REPLAN = ''REJECT_AND_REPLAN''"
| "decision_name D_BLOCK_AND_ESCALATE = ''BLOCK_AND_ESCALATE''"
| "decision_name D_HUMAN_OVERRIDE_APPROVED = ''HUMAN_OVERRIDE_APPROVED''"
| "decision_name D_OVERRIDE_IN_PROGRESS = ''OVERRIDE_IN_PROGRESS''"

fun risk_name :: "risk \<Rightarrow> string" where
  "risk_name LOW = ''LOW''"
| "risk_name MEDIUM = ''MEDIUM''"
| "risk_name HIGH = ''HIGH''"
| "risk_name CRITICAL = ''CRITICAL''"

fun exec_name :: "exec_status \<Rightarrow> string" where
  "exec_name E_PENDING = ''PENDING''"
| "exec_name E_EXECUTING = ''EXECUTING''"
| "exec_name E_COMPLETED = ''COMPLETED''"
| "exec_name E_FAILED = ''FAILED''"
| "exec_name E_UNKNOWN = ''UNKNOWN''"
| "exec_name E_RECONCILIATION_REQUIRED = ''RECONCILIATION_REQUIRED''"
| "exec_name E_RECONCILIATION_FAILED = ''RECONCILIATION_FAILED''"
| "exec_name E_PARTIAL_SUCCESS = ''PARTIAL_SUCCESS''"

subsection \<open>Policies and their results\<close>

datatype rule_type = DENY | CONSTRAINT | ESCALATE_RULE | DUAL_APPROVAL

datatype cond_op = GREATER_THAN | LESS_THAN | EQUALS | UNTRUSTED_PROVENANCE | CONTAINS

record condition =
  c_parameter :: string
  c_operator :: cond_op
  c_value :: json

record policy =
  pol_id :: string
  pol_name :: string
  pol_description :: string
  pol_targets :: "string list"
  pol_rule :: rule_type
  pol_inject :: "(string \<times> json) list option"
  pol_cond :: "condition option"
  pol_risk :: risk

datatype result_action = OK | REJECT | ESCALATE | INJECT_CONSTRAINT | REQUIRE_DUAL_APPROVAL

record policy_result =
  r_policyId :: string
  r_passed :: bool
  r_action :: result_action
  r_reason :: string
  r_injected :: "(string \<times> json) list option"
  r_risk :: risk
  r_suggested :: "string option"
  r_required :: "int option"

subsection \<open>Rows\<close>

record task_row =
  t_id :: string
  t_tenantId :: string
  t_idempotencyKey :: "string option"
  t_objective :: string
  t_status :: task_status
  t_expiresAt :: "int option"
  t_version :: int
  t_createdAt :: int

record proposal_row =
  p_id :: string
  p_tenantId :: string
  p_taskId :: string
  p_parentProposalId :: "string option"
  p_recommendedOption :: json
  p_fallbackOptions :: json
  p_contextSignals :: json
  p_status :: proposal_status

record decision_row =
  d_id :: string
  d_tenantId :: string
  d_proposalId :: string
  d_decisionType :: decision_type
  d_riskLevel :: risk
  d_policyResults :: "(string \<times> policy_result) list"
  d_constraints :: "(string \<times> json) list option"
  d_requiredApprovers :: int
  d_approvalsCount :: int
  d_approverIdentities :: "string option"
  d_approvedPayloadHash :: "string option"
  d_createdAt :: int

record execution_row =
  e_id :: string
  e_decisionId :: string
  e_tenantId :: string
  e_taskId :: string
  e_idempotencyKey :: string
  e_providerTransactionId :: "string option"
  e_providerIdempotencyKey :: "string option"
  e_status :: exec_status
  e_errorClassification :: "string option"
  e_rollbackData :: "json option"
  e_attemptCount :: int
  e_lastError :: "string option"
  e_startedAt :: "int option"
  e_completedAt :: "int option"
  e_reconciledAt :: "int option"
  e_reconciliationAttempts :: int

record audit_row =
  a_id :: string
  a_tenantId :: string
  a_timestamp :: int
  a_proposalId :: "string option"
  a_decisionId :: "string option"
  a_actionDetails :: json
  a_amount :: "num option"
  a_currency :: "string option"
  a_recipientAccount :: "string option"
  a_providerTransactionId :: "string option"
  a_policyVersion :: "string option"
  a_approverIdentities :: "string option"
  a_reconciliationStatus :: "string option"
  a_previousHash :: "string option"
  a_currentHash :: string

record token_row =
  k_nonce :: string
  k_decisionId :: string
  k_tenantId :: string
  k_taskId :: string
  k_proposalId :: string
  k_payloadHash :: string
  k_signature :: string
  k_used :: bool
  k_usedAt :: "int option"
  k_expiresAt :: int
  k_policyVersionHash :: "string option"

record policy_row =
  g_id :: string
  g_tenantId :: string
  g_versionHash :: string
  g_rules :: "policy list"
  g_isActive :: bool

record role_row =
  u_tenantId :: string
  u_userId :: string
  u_role :: string

record setting_row =
  s_tenantId :: string
  s_category :: string
  s_key :: string
  s_value :: string

subsection \<open>Errors\<close>

datatype exn =
    JsError string
  | GovernorRejectionError string string "string option"
  | GovernorEscalationError string string
  | OperatorExecutionError string string string
  | UniqueViolation

text \<open>The \<open>message\<close> each constructor passes to \<open>super\<close>.\<close>

fun exn_message :: "exn \<Rightarrow> string" where
  "exn_message (JsError m) = m"
| "exn_message (GovernorRejectionError pid reason alt) = ''Covernor Rejected Proposal '' @ pid @ '': '' @ reason"
| "exn_message (GovernorEscalationError pid reason) =
     ''Covernor Escalated Proposal '' @ pid @ '' for Manual Review: '' @ reason"
| "exn_message (OperatorExecutionError did fcode step) = ''Operator Execution Failed on Decision '' @ did @ '': '' @ fcode"
| "exn_message UniqueViolation = ''P2002''"

subsection \<open>The runtime and the world\<close>

text \<open>
  \<open>runtime\<close> holds what the program takes from outside \<open>src/\<close>: the digest and the
  signature primitives of the crypto library with the process's key pair, the source of uuids
  (the n-th one drawn) and the text the schema library puts into a failed validation. \<open>world\<close> is the state: the tables, the number of uuids drawn,
  the Redis store (a value with an optional expiry time), the tool calls made so far and
  the files by absolute path.
\<close>

record runtime =
  rt_sha256 :: "string \<Rightarrow> string"
  rt_sign :: "string \<Rightarrow> string"
  rt_verify :: "string \<Rightarrow> string \<Rightarrow> bool"
  rt_uuid :: "nat \<Rightarrow> string"
  rt_schema_message :: "string \<Rightarrow> json option \<Rightarrow> string"

record tool_call =
  tc_action :: string
  tc_parameters :: "json option"
  tc_decisionId :: string
  tc_providerKey :: string

record world =
  tasks :: "task_row list"
  proposals :: "proposal_row list"
  decisions :: "decision_row list"
  executions :: "execution_row list"
  audits :: "audit_row list"
  tokens :: "token_row list"
  policies :: "policy_row list"
  roles :: "role_row list"
  settings :: "setting_row list"
  uuids_drawn :: nat
  redis :: "string \<Rightarrow> (int \<times> int option) option"
  calls :: "tool_call list"
  files :: "string \<Rightarrow> string option"

definition empty_world :: world where
  "empty_world = \<lparr>tasks = [], proposals = [], decisions = [], executions = [], audits = [],
     tokens = [], policies = [], roles = [], settings = [], uuids_drawn = 0, redis = Map.empty, calls = [], files = Map.empty\<rparr>"

definition fresh_uuid :: "runtime \<Rightarrow> world \<Rightarrow> string \<times> world" where
  "fresh_uuid rt w = (rt_uuid rt (uuids_drawn w), w\<lparr>uuids_drawn := Suc (uuids_drawn w)\<rparr>)"

subsection \<open>Row access by key\<close>

definition find_task :: "world \<Rightarrow> string \<Rightarrow> task_row option" where
  "find_task w i = find_first (\<lambda>t. t_id t = i) (tasks w)"

definition find_proposal :: "world \<Rightarrow> string \<Rightarrow> proposal_row option" where
  "find_proposal w i = find_first (\<lambda>p. p_id p = i) (proposals w)"

definition find_decision :: "world \<Rightarrow> string \<Rightarrow> decision_row option" where
  "find_decision w i = find_first (\<lambda>d. d_id d = i) (decisions w)"

text \<open>The execution record of a decision: \<open>decisionId\<close> is unique in that table.\<close>

definition find_execution :: "world \<Rightarrow> string \<Rightarrow> execution_row option" where
  "find_execution w did = find_first (\<lambda>e. e_decisionId e = did) (executions w)"

definition update_task :: "string \<Rightarrow> (task_row \<Rightarrow> task_row) \<Rightarrow> world \<Rightarrow> world" where
  "update_task i f w = w\<lparr>tasks := update_where (\<lambda>t. t_id t = i) f (tasks w)\<rparr>"

definition update_proposal :: "string \<Rightarrow> (proposal_row \<Rightarrow> proposal_row) \<Rightarrow> world \<Rightarrow> world" where
  "update_proposal i f w = w\<lparr>proposals := update_where (\<lambda>p. p_id p = i) f (proposals w)\<rparr>"

definition update_execution :: "string \<Rightarrow> (execution_row \<Rightarrow> execution_row) \<Rightarrow> world \<Rightarrow> world" where
  "update_execution did f w = w\<lparr>executions := update_where (\<lambda>e. e_decisionId e = did) f (executions w)\<rparr>"

lemma update_task_frame [simp]:
  "proposals (update_task i f w) = proposals w" "decisions (update_task i f w) = decisions w"
  "executions (update_task i f w) = executions w" "audits (update_task i f w) = audits w"
  "tokens (update_task i f w) = tokens w" "policies (update_task i f w) = policies w"
  "roles (update_task i f w) = roles w" "settings (update_task i f w) = settings w"
  "uuids_drawn (update_task i f w) = uuids_drawn w" "redis (update_task i f w) = redis w"
  "calls (update_task i f w) = calls w" "files (update_task i f w) = files w"
  by (simp_all add: update_task_def)

lemma update_proposal_frame [simp]:
  "tasks (update_proposal i f w) = tasks w" "decisions (update_proposal i f w) = decisions w"
  "executions (update_proposal i f w) = executions w" "audits (update_proposal i f w) = audits w"
  "tokens (update_proposal i f w) = tokens w" "policies (update_proposal i f w) = policies w"
  "roles (update_proposal i f w) = roles w" "settings (update_proposal i f w) = settings w"
  "uuids_drawn (update_proposal i f w) = uuids_drawn w" "redis (update_proposal i f w) = redis w"
  "calls (update_proposal i f w) = calls w" "files (update_proposal i f w) = files w"
  by (simp_all add: update_proposal_def)

lemma update_execution_frame [simp]:
  "tasks (update_execution i f w) = tasks w" "proposals (update_execution i f w) = proposals w"
  "decisions (update_execution i f w) = decisions w" "audits (update_execution i f w) = audits w"
  "tokens (update_execution i f w) = tokens w" "policies (update_execution i f w) = policies w"
  "roles (update_execution i f w) = roles w" "settings (update_execution i f w) = settings w"
  "uuids_drawn (update_execution i f w) = uuids_drawn w" "redis (update_execution i f w) = redis w"
  "calls (update_execution i f w) = calls w"
  by (simp_all add: update_execution_def)

lemma find_execution_update:
  "(\<And>e. e_decisionId (f e) = e_decisionId e) \<Longrightarrow>
   find_execution (update_execution did f w) did = map_option f (find_execution w did)"
  by (simp add: find_execution_def update_execution_def find_first_update_key)

lemma find_task_update:
  "(\<And>t. t_id (f t) = t_id t) \<Longrightarrow> find_task (update_task i f w) i = map_option f (find_task w i)"
  by (simp add: find_task_def update_task_def find_first_update_key)

end
