(* ===== verification/Kms.thy ===== *)
theory Kms
  imports Schema
begin

section \<open>Canonical JSON, payload hashes, approval tokens (core/crypto/kms.service.ts)\<close>

text \<open>
  \<open>canonicalizeJSON\<close> sorts the keys of every object and prints the value; the payload
  hash and the token signature are taken over that text. The digest and the signature
  primitives are those of the \<open>runtime\<close>. \<open>consumeToken\<close> is the single-use guard of a
  token, a guarded update of the token table.
\<close>

subsection \<open>Canonical text\<close>

fun canonicalizeJSON :: "json \<Rightarrow> string" where
  "canonicalizeJSON JNull = json_stringify JNull"
| "canonicalizeJSON (JBool b) = json_stringify (JBool b)"
| "canonicalizeJSON (JNum n) = json_stringify (JNum n)"
| "canonicalizeJSON (JStr s) = json_stringify (JStr s)"
| "canonicalizeJSON (JArr xs) = ''['' @ js_join '','' (map canonicalizeJSON xs) @ '']''"
| "canonicalizeJSON (JObj kvs) =
     ''{'' @ js_join '','' (map (\<lambda>(k, s). json_quote k @ '':'' @ s)
                 (sort_key fst (map (\<lambda>(k, v). (k, canonicalizeJSON v)) kvs))) @ ''}''"

text \<open>The value itself with the keys of every object sorted.\<close>

fun sort_keys :: "json \<Rightarrow> json" where
  "sort_keys (JArr xs) = JArr (map sort_keys xs)"
| "sort_keys (JObj kvs) = JObj (sort_key fst (map (\<lambda>(k, v). (k, sort_keys v)) kvs))"
| "sort_keys v = v"

lemma insort_map:
  "(\<And>y. f (g y) = h y) \<Longrightarrow> insort_key f (g x) (map g xs) = map g (insort_key h x xs)"
  by (induction xs) auto

lemma sort_map:
  assumes "\<And>y. f (g y) = h y"
  shows "sort_key f (map g xs) = map g (sort_key h xs)"
  by (induction xs) (simp_all add: insort_map [of f g h] assms)

lemma map_fst_sort: "map fst (sort_key fst kvs) = sort (map fst kvs)"
  by (simp add: sort_map [of "\<lambda>x. x" fst fst, symmetric])

lemma canonicalize_sort_keys: "canonicalizeJSON v = json_stringify (sort_keys v)"
proof (induction v rule: canonicalizeJSON.induct)
  case (5 xs)
  then have "map canonicalizeJSON xs = map (\<lambda>x. json_stringify (sort_keys x)) xs" by simp
  then show ?case by (simp only: canonicalizeJSON.simps sort_keys.simps json_stringify.simps map_map o_def)
next
  case (6 kvs)
  let ?ser = "\<lambda>(k, v). (k, json_stringify v)"
  have "map (\<lambda>(k, v). (k, canonicalizeJSON v)) kvs = map ?ser (map (\<lambda>(k, v). (k, sort_keys v)) kvs)"
    using 6 by (auto simp: split_beta)
  then have "sort_key fst (map (\<lambda>(k, v). (k, canonicalizeJSON v)) kvs)
      = map ?ser (sort_key fst (map (\<lambda>(k, v). (k, sort_keys v)) kvs))"
    by (simp only: sort_map [of fst ?ser fst] split_beta fst_conv)
  then show ?case by (simp add: case_prod_unfold o_def)
qed simp_all

lemma wf_sort_keys: "wf_json v \<Longrightarrow> wf_json (sort_keys v)"
proof (induction v rule: sort_keys.induct)
  case (2 kvs)
  have "distinct (map fst (map (\<lambda>(k, v). (k, sort_keys v)) kvs))"
    using 2(2) by (simp add: split_beta o_def)
  then have "distinct (map fst (sort_key fst (map (\<lambda>(k, v). (k, sort_keys v)) kvs)))"
    unfolding map_fst_sort distinct_sort .
  then show ?case using 2 by (fastforce simp: list_all_iff)
qed (auto simp: list_all_iff)

text \<open>The canonical text is the value up to the order of keys.\<close>

lemma canonicalize_eq_iff:
  assumes "wf_json a" "wf_json b"
  shows "canonicalizeJSON a = canonicalizeJSON b \<longleftrightarrow> sort_keys a = sort_keys b"
  using json_stringify_inj [OF assms [THEN wf_sort_keys]] by (auto simp: canonicalize_sort_keys)

subsection \<open>The payload hash\<close>

definition payload_raw :: "string \<Rightarrow> string \<Rightarrow> string \<Rightarrow> string \<Rightarrow> json \<Rightarrow> string \<Rightarrow> string" where
  "payload_raw tenantId taskId proposalId decisionId payload nonce =
     tenantId @ ''|'' @ taskId @ ''|'' @ proposalId @ ''|'' @ decisionId @ ''|''
     @ canonicalizeJSON payload @ ''|'' @ nonce"

definition generatePayloadHash ::
  "runtime \<Rightarrow> string \<Rightarrow> string \<Rightarrow> string \<Rightarrow> string \<Rightarrow> json \<Rightarrow> string \<Rightarrow> string" where
  "generatePayloadHash rt tenantId taskId proposalId decisionId payload nonce =
     rt_sha256 rt (payload_raw tenantId taskId proposalId decisionId payload nonce)"

definition bar_free :: "string \<Rightarrow> bool" where
  "bar_free s \<longleftrightarrow> CHR ''|'' \<notin> set s"

lemma bar_split: "bar_free x \<Longrightarrow> bar_free y \<Longrightarrow> x @ ''|'' @ s = y @ ''|'' @ t \<Longrightarrow> x = y \<and> s = t"
  using point_split [of "CHR ''|''" x y s t] by (simp add: bar_free_def)

lemma bar_split_last:
  assumes "bar_free n" "bar_free n'" and eq: "c @ ''|'' @ n = c' @ ''|'' @ n'"
  shows "c = c' \<and> n = n'"
proof -
  have "rev n @ ''|'' @ rev c = rev n' @ ''|'' @ rev c'"
    using arg_cong [OF eq, of rev] by simp
  then have "rev n = rev n' \<and> rev c = rev c'"
    using assms by (intro bar_split) (simp_all add: bar_free_def)
  then show ?thesis by simp
qed

lemma payload_raw_inj:
  assumes ids: "bar_free t" "bar_free k" "bar_free p" "bar_free d" "bar_free n"
    and ids': "bar_free t'" "bar_free k'" "bar_free p'" "bar_free d'" "bar_free n'"
    and wf: "wf_json a" "wf_json a'"
    and eq: "payload_raw t k p d a n = payload_raw t' k' p' d' a' n'"
  shows "t = t' \<and> k = k' \<and> p = p' \<and> d = d' \<and> n = n' \<and> sort_keys a = sort_keys a'"
proof -
  note e = eq [unfolded payload_raw_def]
  have 1: "t = t'" using bar_split [OF ids(1) ids'(1) e] by blast
  have e2: "k @ ''|'' @ p @ ''|'' @ d @ ''|'' @ canonicalizeJSON a @ ''|'' @ n
          = k' @ ''|'' @ p' @ ''|'' @ d' @ ''|'' @ canonicalizeJSON a' @ ''|'' @ n'"
    using bar_split [OF ids(1) ids'(1) e] by blast
  note b2 = bar_split [OF ids(2) ids'(2) e2]
  note b3 = bar_split [OF ids(3) ids'(3) b2 [THEN conjunct2]]
  note b4 = bar_split [OF ids(4) ids'(4) b3 [THEN conjunct2]]
  note b5 = bar_split_last [OF ids(5) ids'(5) b4 [THEN conjunct2]]
  show ?thesis using 1 b2 b3 b4 b5 canonicalize_eq_iff [OF wf] by blast
qed

subsection \<open>Approval tokens\<close>

text \<open>
  The signed part of a token. The optional scope fields of the type are never written by the
  program; \<open>version\<close> is always 1.
\<close>

record token_payload =
  tp_decisionId :: string
  tp_tenantId :: string
  tp_taskId :: string
  tp_proposalId :: string
  tp_operator :: string
  tp_allowedActions :: "string list"
  tp_payloadHash :: string
  tp_capabilityIds :: "string list"
  tp_nonce :: string
  tp_expiresAt :: int

definition token_json :: "token_payload \<Rightarrow> json" where
  "token_json p = JObj
     [(''version'', JStr ''1''),
      (''decisionId'', JStr (tp_decisionId p)),
      (''tenantId'', JStr (tp_tenantId p)),
      (''taskId'', JStr (tp_taskId p)),
      (''proposalId'', JStr (tp_proposalId p)),
      (''operator'', JStr (tp_operator p)),
      (''allowedActions'', JArr (map JStr (tp_allowedActions p))),
      (''payloadHash'', JStr (tp_payloadHash p)),
      (''scope'', JObj [(''capabilityIds'', JArr (map JStr (tp_capabilityIds p)))]),
      (''nonce'', JStr (tp_nonce p)),
      (''expiresAt'', jnat (tp_expiresAt p))]"

definition signToken :: "runtime \<Rightarrow> token_payload \<Rightarrow> string" where
  "signToken rt p = rt_sign rt (canonicalizeJSON (token_json p))"

definition verifyTokenSignature :: "runtime \<Rightarrow> token_payload \<Rightarrow> string \<Rightarrow> bool" where
  "verifyTokenSignature rt p sig = rt_verify rt (canonicalizeJSON (token_json p)) sig"

text \<open>A signature made by the key pair is accepted by it: the documented law of the primitive.\<close>

definition signing_law :: "runtime \<Rightarrow> bool" where
  "signing_law rt \<longleftrightarrow> (\<forall>m. rt_verify rt m (rt_sign rt m))"

lemma verify_signed: "signing_law rt \<Longrightarrow> verifyTokenSignature rt p (signToken rt p)"
  by (simp add: signing_law_def verifyTokenSignature_def signToken_def)

subsection \<open>Single use\<close>

definition token_consumable :: "int \<Rightarrow> token_row \<Rightarrow> bool" where
  "token_consumable now k \<longleftrightarrow> \<not> k_used k \<and> k_expiresAt k \<ge> now"

definition token_spend :: "int \<Rightarrow> token_row \<Rightarrow> token_row" where
  "token_spend now k = k\<lparr>k_used := True, k_usedAt := Some now\<rparr>"

definition consumeToken :: "int \<Rightarrow> string \<Rightarrow> world \<Rightarrow> bool \<times> world" where
  "consumeToken now nonce w =
     (0 < count_where (\<lambda>k. k_nonce k = nonce \<and> token_consumable now k) (tokens w),
      w\<lparr>tokens := update_where (\<lambda>k. k_nonce k = nonce \<and> token_consumable now k) (token_spend now) (tokens w)\<rparr>)"

interpretation token: guarded_update k_nonce "token_consumable now" "token_spend now" for now
  by unfold_locales (simp_all add: token_consumable_def token_spend_def)

lemma consumeToken_frame:
  assumes "consumeToken now nonce w = (b, w')"
  shows "tasks w' = tasks w" "proposals w' = proposals w" "decisions w' = decisions w"
    "executions w' = executions w" "audits w' = audits w" "policies w' = policies w"
    "roles w' = roles w" "settings w' = settings w" "uuids_drawn w' = uuids_drawn w"
    "redis w' = redis w" "calls w' = calls w" "files w' = files w"
  using assms by (auto simp: consumeToken_def)

text \<open>A used token stays used, whatever is consumed later.\<close>

definition token_spent :: "string \<Rightarrow> world \<Rightarrow> bool" where
  "token_spent nonce w \<longleftrightarrow> (\<forall>k \<in> set (tokens w). k_nonce k = nonce \<longrightarrow> k_used k)"

lemma consumeToken_spends:
  assumes "distinct (map k_nonce (tokens w))" and "consumeToken now nonce w = (True, w')"
  shows "token_spent nonce w'"
proof -
  obtain k where k: "k \<in> set (tokens w)" "k_nonce k = nonce" "token_consumable now k"
    using assms(2) by (auto simp: consumeToken_def count_where_pos)
  have uniq: "\<And>r. r \<in> set (tokens w) \<Longrightarrow> k_nonce r = nonce \<Longrightarrow> r = k"
    using assms(1) k by (metis eq_key_imp_eq_value distinct_map inj_on_def)
  have eq: "tokens w' = update_where (\<lambda>k. k_nonce k = nonce \<and> token_consumable now k) (token_spend now) (tokens w)"
    using assms(2) by (auto simp: consumeToken_def)
  show ?thesis
    unfolding token_spent_def eq set_update_where
  proof (intro ballI impI, elim imageE)
    fix r r'
    assume r: "r' = (if k_nonce r = nonce \<and> token_consumable now r then token_spend now r else r)"
      "r \<in> set (tokens w)" "k_nonce r' = nonce"
    then have "k_nonce r = nonce" by (simp add: token_spend_def split: if_splits)
    then have "r = k" by (rule uniq [OF r(2)])
    then show "k_used r'" using r(1) k by (simp add: token_spend_def)
  qed
qed

lemma token_spent_stable:
  "token_spent nonce w \<Longrightarrow> consumeToken now n w = (b, w') \<Longrightarrow> token_spent nonce w'"
  by (auto simp: token_spent_def consumeToken_def set_update_where token_spend_def)

lemma token_spent_refuses: "token_spent nonce w \<Longrightarrow> fst (consumeToken now nonce w) = False"
  by (auto simp: consumeToken_def token_spent_def count_where_pos token_consumable_def)

text \<open>Consuming a list of tokens in turn, each at its own time.\<close>

fun consume_all :: "(int \<times> string) list \<Rightarrow> world \<Rightarrow> (string \<times> bool) list" where
  "consume_all [] w = []"
| "consume_all ((now, n) # rs) w =
     (n, fst (consumeToken now n w)) # consume_all rs (snd (consumeToken now n w))"

lemma consume_spent:
  "token_spent n w \<Longrightarrow> (n, True) \<notin> set (consume_all rs w)"
proof (induction rs w rule: consume_all.induct)
  case (2 now m rs w)
  have "token_spent n (snd (consumeToken now m w))"
    using 2(2) by (rule token_spent_stable) (rule prod.collapse [symmetric])
  with 2(1) have "(n, True) \<notin> set (consume_all rs (snd (consumeToken now m w)))" .
  moreover have "m = n \<Longrightarrow> \<not> fst (consumeToken now m w)"
    using token_spent_refuses [OF 2(2)] by simp
  ultimately show ?case by auto
qed simp

text \<open>
  A token is consumed at most once, whatever the requests, their order and their times:
  among the answers of any sequence of consumptions, at most one per nonce is positive.
\<close>

theorem token_consumed_at_most_once:
  assumes "distinct (map k_nonce (tokens w))"
  shows "length (filter (\<lambda>r. r = (n, True)) (consume_all rs w)) \<le> 1"
  using assms
proof (induction rs w rule: consume_all.induct)
  case (2 now m rs w)
  let ?r = "consumeToken now m w"
  have "map k_nonce (tokens (snd ?r)) = map k_nonce (tokens w)"
    unfolding consumeToken_def using token.keys_kept by simp
  with 2 have IH: "length (filter (\<lambda>r. r = (n, True)) (consume_all rs (snd ?r))) \<le> 1" by simp
  show ?case
  proof (cases "m = n \<and> fst ?r")
    case True
    then have "consumeToken now n w = (True, snd ?r)" by (cases ?r) simp
    with 2(2) have "token_spent n (snd ?r)" by (rule consumeToken_spends)
    then have "filter (\<lambda>r. r = (n, True)) (consume_all rs (snd ?r)) = []"
      using consume_spent by (fastforce simp: filter_empty_conv)
    then have "length (filter (\<lambda>r. r = (n, True)) (consume_all rs (snd ?r))) = 0" by (simp only: list.size)
    then show ?thesis by (simp only: consume_all.simps filter.simps list.size split: if_split) simp
  next
    case False
    then show ?thesis using IH by auto
  qed
qed simp

end
