(* ===== verification/Audit_Log.thy ===== *)
theory Audit_Log
  imports Kms
begin

section \<open>The hash-chained audit log (db/audit.logger.ts)\<close>

text \<open>
  \<open>logAction\<close> appends one row, in a serializable transaction: it reads the latest row of
  the tenant, hashes the entry together with that row's hash and stores both. The model is
  the committed transaction. \<open>linked\<close> is the chain an auditor checks, \<open>chain_hash\<close> the
  hash a list of entries must end in; under collision resistance of the digest on the texts
  involved it determines the entries. The locale \<open>append_only\<close> is the contract every
  operation of the pipeline owes to the log.
\<close>

record audit_details =
  l_tenantId :: "string option"
  l_proposalId :: "string option"
  l_decisionId :: "string option"
  l_actionDetails :: json
  l_amount :: "num option"
  l_currency :: "string option"
  l_recipientAccount :: "string option"
  l_providerTransactionId :: "string option"
  l_policyVersion :: "string option"
  l_approverIdentities :: "string option"
  l_reconciliationStatus :: "string option"

definition log_entry :: "string \<Rightarrow> json \<Rightarrow> audit_details" where
  "log_entry tid v = \<lparr>l_tenantId = Some tid, l_proposalId = None, l_decisionId = None,
     l_actionDetails = v, l_amount = None, l_currency = None, l_recipientAccount = None,
     l_providerTransactionId = None, l_policyVersion = None, l_approverIdentities = None,
     l_reconciliationStatus = None\<rparr>"

subsection \<open>One entry\<close>

definition audit_tenant :: "audit_details \<Rightarrow> string" where
  "audit_tenant dt = (case l_tenantId dt of
      None \<Rightarrow> ''default_tenant'' | Some t \<Rightarrow> if t = [] then ''default_tenant'' else t)"

text \<open>The latest row of a tenant by timestamp, the earlier inserted one on a tie.\<close>

definition latest_log :: "string \<Rightarrow> audit_row list \<Rightarrow> audit_row option" where
  "latest_log tid rows =
     foldl (\<lambda>acc r. if a_tenantId r = tid \<and> (case acc of None \<Rightarrow> True | Some b \<Rightarrow> a_timestamp b < a_timestamp r)
                    then Some r else acc) None rows"

definition previous_hash :: "string \<Rightarrow> world \<Rightarrow> string option" where
  "previous_hash tid w =
     (case latest_log tid (audits w) of
        None \<Rightarrow> None
      | Some r \<Rightarrow> if a_currentHash r = [] then None else Some (a_currentHash r))"

definition audit_payload :: "audit_details \<Rightarrow> string option \<Rightarrow> json" where
  "audit_payload dt prev = obj_literal
     [(''tenantId'', Some (JStr (audit_tenant dt))),
      (''proposalId'', map_option JStr (l_proposalId dt)),
      (''decisionId'', map_option JStr (l_decisionId dt)),
      (''actionDetails'', Some (l_actionDetails dt)),
      (''amount'', map_option JNum (l_amount dt)),
      (''currency'', map_option JStr (l_currency dt)),
      (''recipientAccount'', map_option JStr (l_recipientAccount dt)),
      (''providerTransactionId'', map_option JStr (l_providerTransactionId dt)),
      (''policyVersion'', map_option JStr (l_policyVersion dt)),
      (''approverIdentities'', map_option JStr (l_approverIdentities dt)),
      (''reconciliationStatus'', map_option JStr (l_reconciliationStatus dt)),
      (''previousHash'', Some (case prev of None \<Rightarrow> JNull | Some h \<Rightarrow> JStr h))]"

definition entry_text :: "audit_details \<Rightarrow> string option \<Rightarrow> string" where
  "entry_text dt prev = json_stringify (audit_payload dt prev)"

text \<open>
  The row as created: the id and the timestamp are defaults of the database, and so are the
  currency and the policy version when the entry has none.
\<close>

definition logAction :: "runtime \<Rightarrow> int \<Rightarrow> audit_details \<Rightarrow> world \<Rightarrow> world" where
  "logAction rt now dt w =
     (let tid = audit_tenant dt;
          prev = previous_hash tid w;
          cur = rt_sha256 rt (entry_text dt prev)
      in case fresh_uuid rt w of (i, w1) \<Rightarrow>
         w1\<lparr>audits := audits w1 @ [\<lparr>
            a_id = i, a_tenantId = tid, a_timestamp = now,
            a_proposalId = l_proposalId dt, a_decisionId = l_decisionId dt,
            a_actionDetails = l_actionDetails dt,
            a_amount = l_amount dt,
            a_currency = (case l_currency dt of None \<Rightarrow> Some ''USD'' | Some c \<Rightarrow> Some c),
            a_recipientAccount = l_recipientAccount dt,
            a_providerTransactionId = l_providerTransactionId dt,
            a_policyVersion = (case l_policyVersion dt of None \<Rightarrow> Some ''v1.2'' | Some v \<Rightarrow> Some v),
            a_approverIdentities = l_approverIdentities dt,
            a_reconciliationStatus = l_reconciliationStatus dt,
            a_previousHash = prev, a_currentHash = cur\<rparr>]\<rparr>)"

lemma logAction_frame [simp]:
  "tasks (logAction rt now dt w) = tasks w" "proposals (logAction rt now dt w) = proposals w"
  "decisions (logAction rt now dt w) = decisions w" "executions (logAction rt now dt w) = executions w"
  "tokens (logAction rt now dt w) = tokens w" "policies (logAction rt now dt w) = policies w"
  "roles (logAction rt now dt w) = roles w" "settings (logAction rt now dt w) = settings w"
  "redis (logAction rt now dt w) = redis w" "calls (logAction rt now dt w) = calls w"
  "uuids_drawn (logAction rt now dt w) = Suc (uuids_drawn w)" "files (logAction rt now dt w) = files w"
  by (simp_all add: logAction_def fresh_uuid_def Let_def)

lemma logAction_appends:
  "\<exists>r. audits (logAction rt now dt w) = audits w @ [r] \<and> a_tenantId r = audit_tenant dt
     \<and> a_timestamp r = now \<and> a_previousHash r = previous_hash (audit_tenant dt) w
     \<and> a_currentHash r = rt_sha256 rt (entry_text dt (previous_hash (audit_tenant dt) w))
     \<and> a_actionDetails r = l_actionDetails dt \<and> a_decisionId r = l_decisionId dt
     \<and> a_proposalId r = l_proposalId dt"
  by (simp add: logAction_def fresh_uuid_def Let_def)

subsection \<open>The append-only contract\<close>

locale append_only =
  fixes run :: "'i \<Rightarrow> world \<Rightarrow> world"
  assumes audits_prefix: "prefix (audits w) (audits (run i w))"
begin

lemma row_kept: "r \<in> set (audits w) \<Longrightarrow> r \<in> set (audits (run i w))"
  using audits_prefix set_mono_prefix by blast

lemma runs_prefix: "prefix (audits w) (audits (fold run js w))"
proof (induction js arbitrary: w)
  case (Cons j js)
  then show ?case using audits_prefix [of w j] prefix_order.trans by fastforce
qed simp

lemma runs_row_at:
  assumes "n < length (audits w)"
  shows "audits (fold run js w) ! n = audits w ! n"
  using assms runs_prefix [of w js] by (auto simp: prefix_def nth_append)

end

interpretation logging: append_only "\<lambda>(now, dt). logAction rt now dt" for rt
proof unfold_locales
  fix w and i :: "int \<times> audit_details"
  show "prefix (audits w) (audits ((case i of (now, dt) \<Rightarrow> logAction rt now dt) w))"
    using logAction_appends [of rt "fst i" "snd i" w] by (auto simp: case_prod_beta prefix_def)
qed

subsection \<open>The chain\<close>

text \<open>The rows of a tenant, each pointing at the hash of the one before.\<close>

fun linked :: "string option \<Rightarrow> audit_row list \<Rightarrow> bool" where
  "linked prev [] = True"
| "linked prev (r # rs) = (a_previousHash r = prev \<and> linked (Some (a_currentHash r)) rs)"

definition tenant_rows :: "string \<Rightarrow> world \<Rightarrow> audit_row list" where
  "tenant_rows tid w = filter (\<lambda>r. a_tenantId r = tid) (audits w)"

definition chain_ok :: "string \<Rightarrow> world \<Rightarrow> bool" where
  "chain_ok tid w \<longleftrightarrow> linked None (tenant_rows tid w)
     \<and> sorted_wrt (<) (map a_timestamp (tenant_rows tid w))
     \<and> (\<forall>r \<in> set (tenant_rows tid w). a_currentHash r \<noteq> [])"

definition head_hash :: "string \<Rightarrow> world \<Rightarrow> string option" where
  "head_hash tid w = (if tenant_rows tid w = [] then None else Some (a_currentHash (last (tenant_rows tid w))))"

lemma latest_log_filter:
  "latest_log tid rows = latest_log tid (filter (\<lambda>r. a_tenantId r = tid) rows)"
proof -
  have "foldl (\<lambda>acc r. if a_tenantId r = tid \<and> (case acc of None \<Rightarrow> True | Some b \<Rightarrow> a_timestamp b < a_timestamp r)
                    then Some r else acc) a rows
      = foldl (\<lambda>acc r. if a_tenantId r = tid \<and> (case acc of None \<Rightarrow> True | Some b \<Rightarrow> a_timestamp b < a_timestamp r)
                    then Some r else acc) a (filter (\<lambda>r. a_tenantId r = tid) rows)" for a
    by (induction rows arbitrary: a) auto
  then show ?thesis by (simp add: latest_log_def)
qed

lemma latest_log_sorted:
  assumes "sorted_wrt (<) (map a_timestamp rows)" and "\<forall>r \<in> set rows. a_tenantId r = tid"
  shows "latest_log tid rows = (if rows = [] then None else Some (last rows))"
  using assms
proof (induction rows rule: rev_induct)
  case (snoc r rows)
  then have IH: "latest_log tid rows = (if rows = [] then None else Some (last rows))"
    by (simp add: sorted_wrt_append)
  moreover have "rows \<noteq> [] \<Longrightarrow> a_timestamp (last rows) < a_timestamp r"
    using snoc(2) by (simp add: sorted_wrt_append)
  moreover have "a_tenantId r = tid" using snoc(3) by simp
  ultimately show ?case
    using snoc(3) unfolding latest_log_def foldl_append by (cases "rows = []") simp_all
qed (simp add: latest_log_def)

lemma previous_hash_head: "chain_ok tid w \<Longrightarrow> previous_hash tid w = head_hash tid w"
proof -
  assume ok: "chain_ok tid w"
  have "latest_log tid (tenant_rows tid w) = (if tenant_rows tid w = [] then None else Some (last (tenant_rows tid w)))"
    using ok by (intro latest_log_sorted) (simp_all add: chain_ok_def tenant_rows_def)
  then have "latest_log tid (audits w) = (if tenant_rows tid w = [] then None else Some (last (tenant_rows tid w)))"
    by (simp only: tenant_rows_def flip: latest_log_filter)
  then show ?thesis
    using ok last_in_set [of "tenant_rows tid w"] by (auto simp: previous_hash_def head_hash_def chain_ok_def)
qed

lemma linked_snoc:
  "linked prev (rs @ [r]) \<longleftrightarrow>
     linked prev rs \<and> a_previousHash r = (if rs = [] then prev else Some (a_currentHash (last rs)))"
  by (induction rs arbitrary: prev) auto

lemma tenant_rows_log:
  "\<exists>r. tenant_rows tid (logAction rt now dt w)
       = tenant_rows tid w @ (if audit_tenant dt = tid then [r] else [])
     \<and> a_timestamp r = now \<and> a_previousHash r = previous_hash (audit_tenant dt) w
     \<and> a_currentHash r = rt_sha256 rt (entry_text dt (previous_hash (audit_tenant dt) w))"
  using logAction_appends [of rt now dt w] by (auto simp: tenant_rows_def)

lemma chain_kept:
  assumes "chain_ok tid w" and later: "\<forall>r \<in> set (audits w). a_timestamp r < now"
    and hash: "\<And>s. rt_sha256 rt s \<noteq> []"
  shows "chain_ok tid (logAction rt now dt w)"
proof (cases "audit_tenant dt = tid")
  case True
  obtain r where r: "tenant_rows tid (logAction rt now dt w) = tenant_rows tid w @ [r]"
    "a_timestamp r = now" "a_previousHash r = previous_hash tid w" "a_currentHash r \<noteq> []"
    using tenant_rows_log [of tid rt now dt w] True hash by auto
  have "\<forall>x \<in> set (tenant_rows tid w). a_timestamp x < now" using later by (simp add: tenant_rows_def)
  then show ?thesis
    using assms(1) previous_hash_head [OF assms(1)]
    by (simp add: chain_ok_def r linked_snoc sorted_wrt_append head_hash_def)
next
  case False
  then show ?thesis
    using assms(1) tenant_rows_log [of tid rt now dt w] by (auto simp: chain_ok_def)
qed

subsection \<open>The head hash determines the history\<close>

fun chain_hash :: "runtime \<Rightarrow> audit_details list \<Rightarrow> string option" where
  "chain_hash rt [] = None"
| "chain_hash rt (dt # older) = Some (rt_sha256 rt (entry_text dt (chain_hash rt older)))"

text \<open>The texts hashed for a list of entries, newest first.\<close>

fun chain_texts :: "runtime \<Rightarrow> audit_details list \<Rightarrow> string set" where
  "chain_texts rt [] = {}"
| "chain_texts rt (dt # older) = insert (entry_text dt (chain_hash rt older)) (chain_texts rt older)"

definition wf_details :: "audit_details \<Rightarrow> bool" where
  "wf_details dt \<longleftrightarrow> wf_json (l_actionDetails dt) \<and> (case l_amount dt of None \<Rightarrow> True | Some a \<Rightarrow> wf_num a)
     \<and> (case l_tenantId dt of None \<Rightarrow> False | Some t \<Rightarrow> t \<noteq> [])"

lemma map_of_obj_literal:
  assumes "distinct (map fst kvs)"
  shows "jget (obj_literal kvs) k = (case map_of kvs k of None \<Rightarrow> None | Some v \<Rightarrow> v)"
  using assms
proof (induction kvs)
  case (Cons kv kvs)
  obtain j v where kv: "kv = (j, v)" by (cases kv)
  have "map_of kvs j = None" using Cons.prems kv by (simp add: map_of_eq_None_iff)
  then show ?case
    using Cons kv by (cases v) (auto simp: obj_literal_def)
qed (simp add: obj_literal_def)

lemma fst_obj_literal:
  "map fst (concat (map (\<lambda>(k, v). case v of None \<Rightarrow> [] | Some x \<Rightarrow> [(k, x)]) kvs))
   = map fst (filter (\<lambda>(k, v). v \<noteq> None) kvs)"
  by (induction kvs) (auto split: option.splits)

lemma wf_obj_literal:
  assumes "distinct (map fst kvs)" and "\<And>k v. (k, Some v) \<in> set kvs \<Longrightarrow> wf_json v"
  shows "wf_json (obj_literal kvs)"
proof -
  have "distinct (map fst (filter (\<lambda>(k, v). v \<noteq> None) kvs))"
    using assms(1) by (rule distinct_map_filter)
  then show ?thesis
    using assms(2)
    by (fastforce simp: obj_literal_def fst_obj_literal list_all_iff split: option.splits)
qed

lemma some_map: "Some v = map_option f x \<longleftrightarrow> (\<exists>y. x = Some y \<and> v = f y)"
  by (cases x) auto

lemma wf_audit_payload: "wf_details dt \<Longrightarrow> wf_json (audit_payload dt prev)"
  unfolding audit_payload_def
  by (rule wf_obj_literal) (auto simp: wf_details_def some_map split: option.splits)

lemma option_map_inj: "map_option JStr a = map_option JStr b \<longleftrightarrow> a = b" "map_option JNum x = map_option JNum y \<longleftrightarrow> x = y"
  by (cases a; cases b; simp) (cases x; cases y; simp)

lemma audit_payload_get:
  "jget (audit_payload dt prev) ''tenantId'' = Some (JStr (audit_tenant dt))"
  "jget (audit_payload dt prev) ''proposalId'' = map_option JStr (l_proposalId dt)"
  "jget (audit_payload dt prev) ''decisionId'' = map_option JStr (l_decisionId dt)"
  "jget (audit_payload dt prev) ''actionDetails'' = Some (l_actionDetails dt)"
  "jget (audit_payload dt prev) ''amount'' = map_option JNum (l_amount dt)"
  "jget (audit_payload dt prev) ''currency'' = map_option JStr (l_currency dt)"
  "jget (audit_payload dt prev) ''recipientAccount'' = map_option JStr (l_recipientAccount dt)"
  "jget (audit_payload dt prev) ''providerTransactionId'' = map_option JStr (l_providerTransactionId dt)"
  "jget (audit_payload dt prev) ''policyVersion'' = map_option JStr (l_policyVersion dt)"
  "jget (audit_payload dt prev) ''approverIdentities'' = map_option JStr (l_approverIdentities dt)"
  "jget (audit_payload dt prev) ''reconciliationStatus'' = map_option JStr (l_reconciliationStatus dt)"
  "jget (audit_payload dt prev) ''previousHash'' = Some (case prev of None \<Rightarrow> JNull | Some h \<Rightarrow> JStr h)"
  unfolding audit_payload_def by (subst map_of_obj_literal, simp, simp split: option.splits)+

lemma entry_text_inj:
  assumes wf: "wf_details d" "wf_details d'" and eq: "entry_text d p = entry_text d' p'"
  shows "d = d' \<and> p = p'"
proof -
  have pay: "audit_payload d p = audit_payload d' p'"
    using eq wf [THEN wf_audit_payload] json_stringify_inj unfolding entry_text_def by blast
  note g = audit_payload_get [of d p, unfolded pay, unfolded audit_payload_get]
  have "l_tenantId d = l_tenantId d'"
    using g(1) wf by (auto simp: audit_tenant_def wf_details_def split: option.splits)
  moreover have "p = p'" using g(12) by (cases p; cases p') auto
  ultimately show ?thesis
    using g by (intro conjI audit_details.equality) (simp_all add: option_map_inj)
qed

lemma chain_hash_inj:
  assumes "inj_on (rt_sha256 rt) (chain_texts rt ds \<union> chain_texts rt ds')"
    and "list_all wf_details ds" and "list_all wf_details ds'"
    and "chain_hash rt ds = chain_hash rt ds'"
  shows "ds = ds'"
  using assms
proof (induction ds arbitrary: ds')
  case Nil
  then show ?case by (cases ds') auto
next
  case (Cons d ds)
  from Cons.prems(4) obtain e es where es: "ds' = e # es" by (cases ds') auto
  have "entry_text d (chain_hash rt ds) = entry_text e (chain_hash rt es)"
  proof (rule inj_onD [OF Cons.prems(1)])
    show "rt_sha256 rt (entry_text d (chain_hash rt ds)) = rt_sha256 rt (entry_text e (chain_hash rt es))"
      using Cons.prems(4) es by simp
  qed (simp_all add: es)
  then have "d = e" "chain_hash rt ds = chain_hash rt es"
    using entry_text_inj Cons.prems(2,3) es by auto
  moreover have "inj_on (rt_sha256 rt) (chain_texts rt ds \<union> chain_texts rt es)"
    using Cons.prems(1) es by (auto elim: inj_on_subset)
  ultimately show ?case using Cons es by auto
qed

text \<open>Logging a list of entries, each at its time.\<close>

definition log_all :: "runtime \<Rightarrow> (int \<times> audit_details) list \<Rightarrow> world \<Rightarrow> world" where
  "log_all rt es w = fold (\<lambda>(now, dt). logAction rt now dt) es w"

definition entries_of :: "string \<Rightarrow> (int \<times> audit_details) list \<Rightarrow> audit_details list" where
  "entries_of tid es = filter (\<lambda>dt. audit_tenant dt = tid) (map snd es)"

lemma log_all_snoc [simp]: "log_all rt (es @ [(now, dt)]) w = logAction rt now dt (log_all rt es w)"
  by (simp add: log_all_def)

lemma log_all_times:
  "r \<in> set (audits (log_all rt es w)) \<Longrightarrow> r \<in> set (audits w) \<or> a_timestamp r \<in> fst ` set es"
proof (induction es arbitrary: r rule: rev_induct)
  case (snoc e es)
  obtain now dt where e: "e = (now, dt)" by (cases e)
  show ?case
    using snoc logAction_appends [of rt now dt "log_all rt es w"] unfolding e log_all_snoc by force
qed (simp add: log_all_def)

lemma log_all_chain:
  assumes "tenant_rows tid w = []" and "sorted_wrt (<) (map fst es)"
    and "\<forall>r \<in> set (audits w). \<forall>t \<in> set (map fst es). a_timestamp r < t"
    and hash: "\<And>s. rt_sha256 rt s \<noteq> []"
  shows "chain_ok tid (log_all rt es w) \<and> head_hash tid (log_all rt es w) = chain_hash rt (rev (entries_of tid es))"
  using assms(2,3)
proof (induction es rule: rev_induct)
  case Nil
  then show ?case using assms(1) by (simp add: log_all_def chain_ok_def head_hash_def entries_of_def)
next
  case (snoc e es)
  obtain now dt where e: "e = (now, dt)" by (cases e)
  let ?w = "log_all rt es w"
  have IH: "chain_ok tid ?w" "head_hash tid ?w = chain_hash rt (rev (entries_of tid es))"
    using snoc by (auto simp: sorted_wrt_append)
  have "\<forall>r \<in> set (audits ?w). a_timestamp r < now"
    using snoc(2,3) log_all_times [of _ rt es w] unfolding e by (fastforce simp: sorted_wrt_append)
  then have "chain_ok tid (logAction rt now dt ?w)" using IH(1) hash by (intro chain_kept) auto
  moreover have "head_hash tid (logAction rt now dt ?w)
      = (if audit_tenant dt = tid then Some (rt_sha256 rt (entry_text dt (head_hash tid ?w))) else head_hash tid ?w)"
    using tenant_rows_log [of tid rt now dt ?w] previous_hash_head [OF IH(1)]
    by (cases "audit_tenant dt = tid") (auto simp: head_hash_def)
  ultimately show ?case using IH(2) by (simp add: e entries_of_def)
qed


end
