(* ===== verification/Contracts.thy ===== *)
theory Contracts
  imports Kms
begin

section \<open>Capabilities, operator contracts and validation schemas\<close>

text \<open>
  The capability registry (core/policy/capability.registry.ts), the contract every tool
  declares (core/operator/operator.types.ts and the tools), and the validation schemas of
  core/policy/schema.validator.ts and core/schema/proposal.schema.ts, as predicates on the
  value they are given. The schema library's own texts are the runtime's
  \<open>rt_schema_message\<close>.
\<close>

subsection \<open>The capability registry\<close>

record capability =
  cap_id :: string
  cap_tools :: "string list"
  cap_human :: bool
  cap_limits :: "(string \<times> json) list option"

definition CAPABILITY_REGISTRY :: "capability list" where
  "CAPABILITY_REGISTRY =
     [\<lparr>cap_id = ''database.read'', cap_tools = [''READ_DATABASE'', ''POSTGRESQL_QUERY''],
        cap_human = False, cap_limits = Some [(''maxRows'', jnat 1000)]\<rparr>,
      \<lparr>cap_id = ''database.modify'', cap_tools = [''MODIFY_DATABASE''],
        cap_human = True, cap_limits = None\<rparr>,
      \<lparr>cap_id = ''financial.transfer'', cap_tools = [''TRANSFER_FUNDS''],
        cap_human = True, cap_limits = Some [(''maxAmount'', jnat 1000), (''currency'', JStr ''USD'')]\<rparr>,
      \<lparr>cap_id = ''network.http'', cap_tools = [''HTTP_REQUEST''],
        cap_human = True, cap_limits = None\<rparr>,
      \<lparr>cap_id = ''system.filesystem'', cap_tools = [''FILE_SYSTEM_OPERATOR''],
        cap_human = False, cap_limits = None\<rparr>,
      \<lparr>cap_id = ''communication.slack'', cap_tools = [''SLACK_OPERATOR''],
        cap_human = False, cap_limits = None\<rparr>,
      \<lparr>cap_id = ''support.zendesk'', cap_tools = [''ZENDESK_OPERATOR''],
        cap_human = False, cap_limits = None\<rparr>]"

text \<open>The argument is whatever the proposal carries; only a string can equal a tool name.\<close>

definition getCapabilityForTool :: "json option \<Rightarrow> capability option" where
  "getCapabilityForTool actionType =
     find_first (\<lambda>c. case actionType of Some (JStr a) \<Rightarrow> a \<in> set (cap_tools c) | _ \<Rightarrow> False) CAPABILITY_REGISTRY"

lemma capability_string: "getCapabilityForTool v = Some c \<Longrightarrow> \<exists>a. v = Some (JStr a)"
  unfolding getCapabilityForTool_def by (drule find_first_sat) (simp split: option.splits json.splits)

text \<open>No tool is bound to two capabilities, so the lookup does not depend on the order.\<close>

lemma registry_unambiguous: "distinct (concat (map cap_tools CAPABILITY_REGISTRY))"
  by (simp add: CAPABILITY_REGISTRY_def)

lemma capability_cases:
  assumes "getCapabilityForTool (Some (JStr a)) = Some c"
  obtains
    (read) "a = ''READ_DATABASE'' \<or> a = ''POSTGRESQL_QUERY''" "cap_id c = ''database.read''" "\<not> cap_human c"
      "cap_limits c = Some [(''maxRows'', jnat 1000)]"
  | (modify) "a = ''MODIFY_DATABASE''" "cap_id c = ''database.modify''" "cap_human c" "cap_limits c = None"
  | (transfer) "a = ''TRANSFER_FUNDS''" "cap_id c = ''financial.transfer''" "cap_human c"
      "cap_limits c = Some [(''maxAmount'', jnat 1000), (''currency'', JStr ''USD'')]"
  | (http) "a = ''HTTP_REQUEST''" "cap_id c = ''network.http''" "cap_human c" "cap_limits c = None"
  | (filesystem) "a = ''FILE_SYSTEM_OPERATOR''" "cap_id c = ''system.filesystem''" "\<not> cap_human c" "cap_limits c = None"
  | (slack) "a = ''SLACK_OPERATOR''" "cap_id c = ''communication.slack''" "\<not> cap_human c" "cap_limits c = None"
  | (zendesk) "a = ''ZENDESK_OPERATOR''" "cap_id c = ''support.zendesk''" "\<not> cap_human c" "cap_limits c = None"
  using assms by (auto simp: getCapabilityForTool_def CAPABILITY_REGISTRY_def split: if_splits)

subsection \<open>Tools and their contracts\<close>

datatype tool =
    ReadDatabaseTool | ModifyDatabaseTool | PostgreSQLOperator | HTTPOperator
  | FileSystemOperator | SlackOperator | ZendeskOperator | TransferFundsOperator

record contract =
  ct_maxExecutionTimeMs :: int
  ct_maxRowsAffected :: int
  ct_requiresIdempotencyKey :: bool
  ct_rollbackEnabled :: bool
  ct_rateLimitPerMinute :: int

definition read_database_contract :: contract where
  "read_database_contract = \<lparr>ct_maxExecutionTimeMs = 5000, ct_maxRowsAffected = 100,
     ct_requiresIdempotencyKey = False, ct_rollbackEnabled = False, ct_rateLimitPerMinute = 60\<rparr>"

definition modify_database_contract :: contract where
  "modify_database_contract = \<lparr>ct_maxExecutionTimeMs = 10000, ct_maxRowsAffected = 10,
     ct_requiresIdempotencyKey = True, ct_rollbackEnabled = True, ct_rateLimitPerMinute = 10\<rparr>"

definition postgresql_contract :: contract where
  "postgresql_contract = \<lparr>ct_maxExecutionTimeMs = 15000, ct_maxRowsAffected = 1000,
     ct_requiresIdempotencyKey = False, ct_rollbackEnabled = False, ct_rateLimitPerMinute = 120\<rparr>"

definition http_contract :: contract where
  "http_contract = \<lparr>ct_maxExecutionTimeMs = 10000, ct_maxRowsAffected = 0,
     ct_requiresIdempotencyKey = False, ct_rollbackEnabled = False, ct_rateLimitPerMinute = 60\<rparr>"

definition filesystem_contract :: contract where
  "filesystem_contract = \<lparr>ct_maxExecutionTimeMs = 5000, ct_maxRowsAffected = 1,
     ct_requiresIdempotencyKey = False, ct_rollbackEnabled = True, ct_rateLimitPerMinute = 60\<rparr>"

definition slack_contract :: contract where
  "slack_contract = \<lparr>ct_maxExecutionTimeMs = 5000, ct_maxRowsAffected = 1,
     ct_requiresIdempotencyKey = False, ct_rollbackEnabled = False, ct_rateLimitPerMinute = 30\<rparr>"

definition zendesk_contract :: contract where
  "zendesk_contract = \<lparr>ct_maxExecutionTimeMs = 3000, ct_maxRowsAffected = 1,
     ct_requiresIdempotencyKey = False, ct_rollbackEnabled = False, ct_rateLimitPerMinute = 100\<rparr>"

definition transfer_funds_contract :: contract where
  "transfer_funds_contract = \<lparr>ct_maxExecutionTimeMs = 10000, ct_maxRowsAffected = 0,
     ct_requiresIdempotencyKey = True, ct_rollbackEnabled = True, ct_rateLimitPerMinute = 10\<rparr>"

lemmas contract_defs [simp] = read_database_contract_def modify_database_contract_def postgresql_contract_def http_contract_def filesystem_contract_def slack_contract_def zendesk_contract_def transfer_funds_contract_def

fun tool_contract :: "tool \<Rightarrow> contract" where
  "tool_contract ReadDatabaseTool = read_database_contract"
| "tool_contract ModifyDatabaseTool = modify_database_contract"
| "tool_contract PostgreSQLOperator = postgresql_contract"
| "tool_contract HTTPOperator = http_contract"
| "tool_contract FileSystemOperator = filesystem_contract"
| "tool_contract SlackOperator = slack_contract"
| "tool_contract ZendeskOperator = zendesk_contract"
| "tool_contract TransferFundsOperator = transfer_funds_contract"

fun tool_actionType :: "tool \<Rightarrow> string" where
  "tool_actionType ReadDatabaseTool = ''READ_DATABASE''"
| "tool_actionType ModifyDatabaseTool = ''MODIFY_DATABASE''"
| "tool_actionType PostgreSQLOperator = ''POSTGRESQL_QUERY''"
| "tool_actionType HTTPOperator = ''HTTP_REQUEST''"
| "tool_actionType FileSystemOperator = ''FILE_SYSTEM_OPERATOR''"
| "tool_actionType SlackOperator = ''SLACK_OPERATOR''"
| "tool_actionType ZendeskOperator = ''ZENDESK_OPERATOR''"
| "tool_actionType TransferFundsOperator = ''TRANSFER_FUNDS''"

text \<open>The tools in the order the service registers them.\<close>

definition registered_tools :: "tool list" where
  "registered_tools = [ReadDatabaseTool, ModifyDatabaseTool, PostgreSQLOperator, HTTPOperator,
     FileSystemOperator, SlackOperator, ZendeskOperator, TransferFundsOperator]"

text \<open>The map of the service: a later registration of the same name would replace an earlier one.\<close>

definition tool_map :: "(string \<times> tool) list" where
  "tool_map = fold (\<lambda>t m. obj_set (tool_actionType t) t m) registered_tools []"

definition find_tool :: "json option \<Rightarrow> tool option" where
  "find_tool actionType = (case actionType of Some (JStr a) \<Rightarrow> map_of tool_map a | _ \<Rightarrow> None)"

definition getToolContract :: "json option \<Rightarrow> contract option" where
  "getToolContract actionType = map_option tool_contract (find_tool actionType)"

lemma tool_map_eq: "tool_map = map (\<lambda>t. (tool_actionType t, t)) registered_tools"
  by (simp add: tool_map_def registered_tools_def)

lemma find_tool_iff: "find_tool v = Some t \<longleftrightarrow> v = Some (JStr (tool_actionType t))"
proof
  assume "find_tool v = Some t"
  then show "v = Some (JStr (tool_actionType t))"
    by (auto simp: find_tool_def tool_map_eq registered_tools_def split: option.splits json.splits if_splits)
next
  assume "v = Some (JStr (tool_actionType t))"
  then show "find_tool v = Some t"
    by (cases t) (simp_all add: find_tool_def tool_map_eq registered_tools_def)
qed

text \<open>The registry of capabilities and the map of tools name the same actions.\<close>

lemma capability_iff_tool: "(\<exists>c. getCapabilityForTool v = Some c) \<longleftrightarrow> (\<exists>t. find_tool v = Some t)"
proof
  assume "\<exists>c. getCapabilityForTool v = Some c"
  then obtain a c where v: "v = Some (JStr a)" and "getCapabilityForTool v = Some c"
    using capability_string by blast
  then have "a \<in> tool_actionType ` set registered_tools"
    by (auto simp: getCapabilityForTool_def CAPABILITY_REGISTRY_def registered_tools_def split: if_splits)
  then show "\<exists>t. find_tool v = Some t" using v find_tool_iff by blast
next
  assume "\<exists>t. find_tool v = Some t"
  then obtain t where "v = Some (JStr (tool_actionType t))" using find_tool_iff by blast
  then show "\<exists>c. getCapabilityForTool v = Some c"
    by (cases t) (simp_all add: getCapabilityForTool_def CAPABILITY_REGISTRY_def)
qed

subsection \<open>The parameter schemas of the tools that declare one\<close>

definition word_char :: "char \<Rightarrow> bool" where
  "word_char c \<longleftrightarrow> is_digit c \<or> (65 \<le> code c \<and> code c \<le> 90) \<or> (97 \<le> code c \<and> code c \<le> 122) \<or> code c = 95"

text \<open>The pattern of a filename: word characters, hyphens and dots, at least one.\<close>

definition filename_char :: "char \<Rightarrow> bool" where
  "filename_char c \<longleftrightarrow> word_char c \<or> c = CHR ''-'' \<or> c = CHR ''.''"

definition filename_ok :: "string \<Rightarrow> bool" where
  "filename_ok s \<longleftrightarrow> s \<noteq> [] \<and> length s \<le> 255 \<and> list_all filename_char s"

definition slack_prefix :: string where
  "slack_prefix = ''https://hooks.slack.com/services/''"

definition opt_str_ok :: "(string \<Rightarrow> bool) \<Rightarrow> json option \<Rightarrow> bool" where
  "opt_str_ok p v = (case v of None \<Rightarrow> True | Some (JStr s) \<Rightarrow> p s | _ \<Rightarrow> False)"

definition req_str_ok :: "(string \<Rightarrow> bool) \<Rightarrow> json option \<Rightarrow> bool" where
  "req_str_ok p v = (case v of Some (JStr s) \<Rightarrow> p s | _ \<Rightarrow> False)"

fun is_object :: "json option \<Rightarrow> bool" where
  "is_object (Some (JObj kvs)) = True"
| "is_object _ = False"

text \<open>
  A URL with the fixed scheme and host of the Slack pattern always parses, so the pattern
  carries the URL check of that schema.
\<close>

definition filesystem_schema :: "json option \<Rightarrow> bool" where
  "filesystem_schema p \<longleftrightarrow> is_object p
     \<and> req_str_ok (\<lambda>s. s = ''READ'' \<or> s = ''WRITE'') (jget_opt p ''operation'')
     \<and> req_str_ok filename_ok (jget_opt p ''filename'')
     \<and> opt_str_ok (\<lambda>s. length s \<le> 5 * 1024 * 1024) (jget_opt p ''content'')"

definition slack_schema :: "json option \<Rightarrow> bool" where
  "slack_schema p \<longleftrightarrow> is_object p
     \<and> req_str_ok (\<lambda>s. starts_with s slack_prefix) (jget_opt p ''webhookUrl'')
     \<and> req_str_ok (\<lambda>s. s \<noteq> []) (jget_opt p ''message'')
     \<and> opt_str_ok (\<lambda>s. True) (jget_opt p ''channel'')"

fun allowedParameterSchema :: "tool \<Rightarrow> (json option \<Rightarrow> bool) option" where
  "allowedParameterSchema FileSystemOperator = Some filesystem_schema"
| "allowedParameterSchema SlackOperator = Some slack_schema"
| "allowedParameterSchema _ = None"

subsection \<open>Schemas of what the language models return\<close>

definition risk_names :: "string list" where
  "risk_names = [''LOW'', ''MEDIUM'', ''HIGH'', ''CRITICAL'']"

text \<open>\<open>ActionSchema\<close> and \<open>ProposalJSONSchema\<close> (core/schema/proposal.schema.ts).\<close>

definition ActionSchema :: "json option \<Rightarrow> bool" where
  "ActionSchema v \<longleftrightarrow> is_object v
     \<and> req_str_ok (\<lambda>s. True) (jget_opt v ''actionType'')
     \<and> is_object (jget_opt v ''parameters'')
     \<and> req_str_ok (\<lambda>s. s \<in> set risk_names) (jget_opt v ''riskEstimate'')"

definition ProposalJSONSchema :: "json option \<Rightarrow> bool" where
  "ProposalJSONSchema v \<longleftrightarrow> is_object v
     \<and> jget_opt v ''version'' = Some (JStr ''1.0.0'')
     \<and> ActionSchema (jget_opt v ''recommendedOption'')
     \<and> (case jget_opt v ''fallbackOptions'' of
          Some (JArr xs) \<Rightarrow> xs \<noteq> [] \<and> list_all (\<lambda>x. ActionSchema (Some x)) xs
        | _ \<Rightarrow> False)"

text \<open>\<open>BaseProposalSchema\<close> and \<open>CriticOutputSchema\<close> (core/policy/schema.validator.ts).\<close>

definition BaseProposalSchema :: "json option \<Rightarrow> bool" where
  "BaseProposalSchema v \<longleftrightarrow> is_object v
     \<and> req_str_ok (\<lambda>s. s \<in> set [''READ_DATABASE'', ''MODIFY_DATABASE'', ''TRANSFER_FUNDS'', ''HTTP_REQUEST'',
          ''FILE_SYSTEM_OPERATOR'', ''SLACK_OPERATOR'', ''ZENDESK_OPERATOR'', ''POSTGRESQL_QUERY''])
          (jget_opt v ''actionType'')
     \<and> is_object (jget_opt v ''parameters'')
     \<and> opt_str_ok (\<lambda>s. s \<in> set risk_names) (jget_opt v ''riskEstimate'')"

definition critic_codes :: "string list" where
  "critic_codes = [''APPROVED'', ''HALLUCINATED_TOOL'', ''MISSING_PARAMETERS'',
     ''VIOLATES_SYSTEM_INSTRUCTIONS'', ''EXCESSIVE_RISK'']"

definition CriticOutputSchema :: "json option \<Rightarrow> bool" where
  "CriticOutputSchema v \<longleftrightarrow> is_object v
     \<and> (case jget_opt v ''isValid'' of Some (JBool b) \<Rightarrow> True | _ \<Rightarrow> False)
     \<and> req_str_ok (\<lambda>s. s \<in> set critic_codes) (jget_opt v ''reasonCode'')
     \<and> (case jget_opt v ''confidence'' of
          Some (JNum n) \<Rightarrow> num_le (Fin 0 0) n \<and> num_le n (Fin 1 0) | _ \<Rightarrow> False)"

text \<open>A parsed object keeps the declared properties, in the order of the schema.\<close>

definition pick :: "string list \<Rightarrow> json option \<Rightarrow> json" where
  "pick ks v = obj_literal (map (\<lambda>k. (k, jget_opt v k)) ks)"

definition validateProposalPayload :: "runtime \<Rightarrow> json option \<Rightarrow> exn + json" where
  "validateProposalPayload rt payload =
     (if BaseProposalSchema payload
      then Inr (pick [''actionType'', ''parameters'', ''riskEstimate''] payload)
      else Inl (JsError (''Structural Invalidity: LLM Payload failed JSON Schema validation. ''
                 @ rt_schema_message rt ''BaseProposalSchema'' payload)))"

definition validateCriticPayload :: "runtime \<Rightarrow> json option \<Rightarrow> exn + json" where
  "validateCriticPayload rt payload =
     (if CriticOutputSchema payload
      then Inr (pick [''isValid'', ''reasonCode'', ''confidence''] payload)
      else Inl (JsError (''Structural Invalidity: Critic LLM Output failed JSON Schema validation. ''
                 @ rt_schema_message rt ''CriticOutputSchema'' payload)))"

lemma action_names:
  "set (map tool_actionType registered_tools) = set [''READ_DATABASE'', ''MODIFY_DATABASE'', ''TRANSFER_FUNDS'',
     ''HTTP_REQUEST'', ''FILE_SYSTEM_OPERATOR'', ''SLACK_OPERATOR'', ''ZENDESK_OPERATOR'', ''POSTGRESQL_QUERY'']"
  by (simp add: registered_tools_def insert_commute)

lemma req_str_okD: "req_str_ok p v \<Longrightarrow> \<exists>s. v = Some (JStr s) \<and> p s"
  by (auto simp: req_str_ok_def split: option.splits json.splits)

lemma base_actions_have_tools:
  assumes "BaseProposalSchema v"
  shows "\<exists>t. find_tool (jget_opt v ''actionType'') = Some t"
proof -
  have "\<exists>a. jget_opt v ''actionType'' = Some (JStr a) \<and> a \<in> set (map tool_actionType registered_tools)"
    using assms unfolding BaseProposalSchema_def action_names by (blast dest: req_str_okD)
  then obtain t where "jget_opt v ''actionType'' = Some (JStr (tool_actionType t))" by auto
  then show ?thesis using find_tool_iff by blast
qed

end
