(* ===== verification/Policy_Engine.thy ===== *)
theory Policy_Engine
  imports Audit_Log Contracts
begin

section \<open>The policy engine (core/governor/policies/engine.ts)\<close>

text \<open>
  \<open>evaluateOptions\<close> takes the tenant's active policy set, or the policy file, which it seeds
  into the registry of a tenant that has none, and returns one result per applicable policy
  whose condition holds. The policy file is a parameter: its text with the policies it parses
  to, None when it cannot be read or parsed.
\<close>

type_synonym policy_file = "(string \<times> policy list) option"

subsection \<open>Conditions\<close>

definition contains_met :: "json \<Rightarrow> json \<Rightarrow> bool" where
  "contains_met paramValue v =
     (case (paramValue, v) of
        (JStr s, JArr vals) \<Rightarrow> (\<exists>x \<in> set vals. js_includes (js_upper s) (js_upper (js_string x)))
      | (JArr xs, _) \<Rightarrow> (\<exists>x \<in> set xs. same_value_zero x v)
      | _ \<Rightarrow> js_includes (js_string paramValue) (js_string v))"

definition condition_met :: "json option \<Rightarrow> json option \<Rightarrow> condition \<Rightarrow> bool" where
  "condition_met parameters contextSignals c =
     (case jget_opt parameters (c_parameter c) of
        None \<Rightarrow> False
      | Some paramValue \<Rightarrow>
          (case c_operator c of
             GREATER_THAN \<Rightarrow> js_gt paramValue (c_value c)
           | LESS_THAN \<Rightarrow> js_lt paramValue (c_value c)
           | EQUALS \<Rightarrow> strict_eq paramValue (c_value c)
           | UNTRUSTED_PROVENANCE \<Rightarrow>
               (case jget_opt (jget_opt contextSignals ''provenance'') (c_parameter c) of
                  None \<Rightarrow> True | Some pv \<Rightarrow> \<not> strict_eq pv (c_value c))
           | CONTAINS \<Rightarrow> contains_met paramValue (c_value c)))"

definition policy_applies :: "json option \<Rightarrow> json option \<Rightarrow> policy \<Rightarrow> bool" where
  "policy_applies parameters contextSignals pol =
     (case pol_cond pol of None \<Rightarrow> True | Some c \<Rightarrow> condition_met parameters contextSignals c)"

subsection \<open>Results\<close>

definition policy_outcome :: "policy \<Rightarrow> policy_result" where
  "policy_outcome pol =
     (case pol_rule pol of
        DENY \<Rightarrow> \<lparr>r_policyId = pol_id pol, r_passed = False, r_action = REJECT,
          r_reason = ''Violates rule: '' @ pol_description pol, r_injected = None, r_risk = pol_risk pol,
          r_suggested = Some (case pol_cond pol of
             Some c \<Rightarrow> ''Consider revising so '' @ c_parameter c @ '' complies with the threshold value of ''
                        @ js_string (c_value c) @ ''.''
           | None \<Rightarrow> ''No generic alternative available. This action is permanently blocked.''),
          r_required = None\<rparr>
      | ESCALATE_RULE \<Rightarrow> \<lparr>r_policyId = pol_id pol, r_passed = False, r_action = ESCALATE,
          r_reason = ''Escalation required: '' @ pol_description pol, r_injected = None, r_risk = pol_risk pol,
          r_suggested = None, r_required = None\<rparr>
      | CONSTRAINT \<Rightarrow> \<lparr>r_policyId = pol_id pol, r_passed = True, r_action = INJECT_CONSTRAINT,
          r_reason = ''Constraint required: '' @ pol_description pol, r_injected = pol_inject pol, r_risk = pol_risk pol,
          r_suggested = None, r_required = None\<rparr>
      | DUAL_APPROVAL \<Rightarrow> \<lparr>r_policyId = pol_id pol, r_passed = False, r_action = REQUIRE_DUAL_APPROVAL,
          r_reason = ''Dual Approval required: '' @ pol_description pol, r_injected = None, r_risk = pol_risk pol,
          r_suggested = None, r_required = Some 2\<rparr>)"

definition fixed_result :: "string \<Rightarrow> result_action \<Rightarrow> string \<Rightarrow> risk \<Rightarrow> policy_result" where
  "fixed_result pid act reason rk = \<lparr>r_policyId = pid, r_passed = False, r_action = act, r_reason = reason,
     r_injected = None, r_risk = rk, r_suggested = None, r_required = None\<rparr>"

definition POLICY_LOAD_FAILURE :: policy_result where
  "POLICY_LOAD_FAILURE = fixed_result ''POLICY_LOAD_FAILURE'' REJECT
     ''Policy engine could not load any policies. All actions are denied until policies are restored.'' CRITICAL"

definition NO_POLICIES_LOADED :: policy_result where
  "NO_POLICIES_LOADED = fixed_result ''NO_POLICIES_LOADED'' REJECT
     ''No policies are configured. All actions are denied by default. Configure policies in the database or src/config/policies.json.''
     CRITICAL"

definition DEFAULT_DENY :: "json option \<Rightarrow> policy_result" where
  "DEFAULT_DENY actionType = fixed_result ''DEFAULT_DENY'' ESCALATE
     (''No policy covers action type '' @ sq @ opt_string actionType @ sq
       @ ''. Unknown actions are escalated for human review.'') HIGH"

definition targets_action :: "json option \<Rightarrow> policy \<Rightarrow> bool" where
  "targets_action actionType pol \<longleftrightarrow>
     (case actionType of Some (JStr a) \<Rightarrow> a \<in> set (pol_targets pol) | _ \<Rightarrow> False) \<or> ''*'' \<in> set (pol_targets pol)"

text \<open>The loop over the applicable policies, with the throw of a property read on null.\<close>

fun evaluate_loop :: "json option \<Rightarrow> json option \<Rightarrow> policy list \<Rightarrow> exn + policy_result list" where
  "evaluate_loop parameters contextSignals [] = Inr []"
| "evaluate_loop parameters contextSignals (pol # pols) =
     (if pol_cond pol \<noteq> None \<and> parameters = Some JNull
      then Inl (JsError (''Cannot read properties of null (reading '' @ sq @ c_parameter (the (pol_cond pol)) @ sq @ '')''))
      else (case evaluate_loop parameters contextSignals pols of
              Inl e \<Rightarrow> Inl e
            | Inr rs \<Rightarrow> Inr (if policy_applies parameters contextSignals pol then policy_outcome pol # rs else rs)))"

definition evaluate_rules :: "policy list \<Rightarrow> json option \<Rightarrow> json option \<Rightarrow> json option \<Rightarrow> exn + policy_result list" where
  "evaluate_rules loadedPolicies actionType parameters contextSignals =
     (if loadedPolicies = [] then Inr [NO_POLICIES_LOADED]
      else (let applicable = filter (targets_action actionType) loadedPolicies in
            if applicable = [] then Inr [DEFAULT_DENY actionType]
            else evaluate_loop parameters contextSignals applicable))"

subsection \<open>The registry\<close>

definition active_policy :: "string \<Rightarrow> world \<Rightarrow> policy_row option" where
  "active_policy tid w = find_first (\<lambda>g. g_isActive g \<and> g_tenantId g = tid) (policies w)"

definition seed_policy :: "runtime \<Rightarrow> string \<Rightarrow> string \<Rightarrow> policy list \<Rightarrow> world \<Rightarrow> world" where
  "seed_policy rt tid h pols w =
     (if count_where (\<lambda>g. g_tenantId g = tid) (policies w) = 0
      then (case fresh_uuid rt w of (i, w1) \<Rightarrow>
        w1\<lparr>policies := policies w1 @ [\<lparr>g_id = i, g_tenantId = tid, g_versionHash = h, g_rules = pols, g_isActive = True\<rparr>]\<rparr>)
      else w)"

text \<open>The policies to apply with their version hash, None when the file is needed and unusable.\<close>

definition load_policies :: "runtime \<Rightarrow> policy_file \<Rightarrow> string \<Rightarrow> world \<Rightarrow> (policy list \<times> string) option \<times> world" where
  "load_policies rt cfg tid w =
     (case active_policy tid w of
        Some g \<Rightarrow> (Some (g_rules g, g_versionHash g), w)
      | None \<Rightarrow>
          (case cfg of
             None \<Rightarrow> (None, w)
           | Some (text, pols) \<Rightarrow> (Some (pols, rt_sha256 rt text), seed_policy rt tid (rt_sha256 rt text) pols w)))"

definition evaluateOptions :: "runtime \<Rightarrow> policy_file \<Rightarrow> string \<Rightarrow> json option \<Rightarrow> json option \<Rightarrow> json option \<Rightarrow> world
    \<Rightarrow> (exn + policy_result list \<times> string) \<times> world" where
  "evaluateOptions rt cfg tid actionType parameters contextSignals w =
     (case load_policies rt cfg tid w of
        (None, w1) \<Rightarrow> (Inr ([POLICY_LOAD_FAILURE], ''default-allow-v1''), w1)
      | (Some (pols, h), w1) \<Rightarrow>
          ((case evaluate_rules pols actionType (case parameters of None \<Rightarrow> Some (JObj []) | v \<Rightarrow> v) contextSignals of
              Inl e \<Rightarrow> Inl e | Inr rs \<Rightarrow> Inr (rs, h)), w1))"

subsection \<open>Laws\<close>

lemma seed_policy_frame [simp]:
  "tasks (seed_policy rt tid h pols w) = tasks w" "proposals (seed_policy rt tid h pols w) = proposals w"
  "decisions (seed_policy rt tid h pols w) = decisions w" "executions (seed_policy rt tid h pols w) = executions w"
  "audits (seed_policy rt tid h pols w) = audits w" "tokens (seed_policy rt tid h pols w) = tokens w"
  "roles (seed_policy rt tid h pols w) = roles w" "settings (seed_policy rt tid h pols w) = settings w"
  "redis (seed_policy rt tid h pols w) = redis w" "calls (seed_policy rt tid h pols w) = calls w"
  "files (seed_policy rt tid h pols w) = files w"
  by (simp_all add: seed_policy_def fresh_uuid_def)

lemma evaluateOptions_frame:
  assumes "evaluateOptions rt cfg tid a p c w = (x, w')"
  shows "tasks w' = tasks w" "proposals w' = proposals w" "decisions w' = decisions w"
    "executions w' = executions w" "audits w' = audits w" "tokens w' = tokens w" "roles w' = roles w"
    "settings w' = settings w" "redis w' = redis w" "calls w' = calls w" "files w' = files w"
  using assms by (auto simp: evaluateOptions_def load_policies_def split: option.splits prod.splits)

lemma evaluate_loop_outcomes:
  "evaluate_loop p c pols = Inr rs \<Longrightarrow> rs = map policy_outcome (filter (policy_applies p c) pols)"
  by (induction p c pols arbitrary: rs rule: evaluate_loop.induct) (auto split: if_splits sum.splits)

lemma evaluate_loop_total:
  "p \<noteq> Some JNull \<Longrightarrow> evaluate_loop p c pols = Inr (map policy_outcome (filter (policy_applies p c) pols))"
  by (induction p c pols rule: evaluate_loop.induct) auto

text \<open>The results of a rule set, as the specification reads.\<close>

definition spec_results :: "policy list \<Rightarrow> json option \<Rightarrow> json option \<Rightarrow> json option \<Rightarrow> policy_result list" where
  "spec_results pols a p c =
     (if pols = [] then [NO_POLICIES_LOADED]
      else if \<forall>pol \<in> set pols. \<not> targets_action a pol then [DEFAULT_DENY a]
      else map policy_outcome (filter (\<lambda>pol. targets_action a pol \<and> policy_applies p c pol) pols))"

lemma evaluate_rules_spec:
  "p \<noteq> Some JNull \<Longrightarrow> evaluate_rules pols a p c = Inr (spec_results pols a p c)"
  by (auto simp: evaluate_rules_def spec_results_def evaluate_loop_total Let_def filter_empty_conv conj_commute
      intro!: arg_cong [where f = "map policy_outcome"])

lemma evaluateOptions_no_throw:
  assumes "parameters \<noteq> Some JNull"
  shows "evaluateOptions rt cfg tid a parameters c w \<noteq> (Inl e, w')"
proof -
  have "(case parameters of None \<Rightarrow> Some (JObj []) | v \<Rightarrow> v) \<noteq> Some JNull"
    using assms by (auto split: option.split)
  from evaluate_rules_spec [OF this] show ?thesis
    by (auto simp: evaluateOptions_def split: option.split prod.split)
qed

lemma load_stable:
  assumes "load_policies rt cfg tid w = (Some (pols, h), w')"
  shows "load_policies rt cfg tid w' = (Some (pols, h), w')"
proof (cases "active_policy tid w")
  case (Some g)
  then show ?thesis using assms by (simp add: load_policies_def)
next
  case None
  then obtain body where cfg: "cfg = Some (body, pols)" "h = rt_sha256 rt body" "w' = seed_policy rt tid h pols w"
    using assms by (auto simp: load_policies_def split: option.splits)
  show ?thesis
  proof (cases "count_where (\<lambda>g. g_tenantId g = tid) (policies w) = 0")
    case True
    then have "active_policy tid w' = Some \<lparr>g_id = fst (fresh_uuid rt w), g_tenantId = tid, g_versionHash = h,
        g_rules = pols, g_isActive = True\<rparr>"
      using None unfolding cfg by (simp add: active_policy_def seed_policy_def fresh_uuid_def find_first_append)
    then show ?thesis by (simp add: load_policies_def)
  next
    case False
    then have "w' = w" using cfg by (simp add: seed_policy_def)
    then show ?thesis using assms by simp
  qed
qed

text \<open>A tenant has at most one active policy set.\<close>

definition one_active :: "world \<Rightarrow> bool" where
  "one_active w \<longleftrightarrow> (\<forall>tid. count_where (\<lambda>g. g_isActive g \<and> g_tenantId g = tid) (policies w) \<le> 1)"

lemma seed_one_active: "one_active w \<Longrightarrow> one_active (seed_policy rt tid h pols w)"
  by (auto simp: one_active_def seed_policy_def fresh_uuid_def count_where_0 le_Suc_eq)

lemma evaluate_one_active:
  "one_active w \<Longrightarrow> evaluateOptions rt cfg tid a p c w = (x, w') \<Longrightarrow> one_active w'"
  by (auto simp: evaluateOptions_def load_policies_def seed_one_active split: option.splits prod.splits)

end
