(* ===== verification/Redis_Window.thy ===== *)
theory Redis_Window
  imports Schema
begin

section \<open>Counters with an expiry in Redis\<close>

text \<open>
  The atomic script the governor, the operator and the API limiter run (INCR, and EXPIRE when
  the counter is new), and DECR. A key whose expiry time has come is absent. Times are
  milliseconds, expiries seconds.
\<close>

definition redis_live :: "int \<Rightarrow> string \<Rightarrow> world \<Rightarrow> (int \<times> int option) option" where
  "redis_live now k w =
     (case redis w k of
        None \<Rightarrow> None
      | Some (v, ex) \<Rightarrow> (case ex of None \<Rightarrow> Some (v, ex) | Some t \<Rightarrow> if t \<le> now then None else Some (v, ex)))"

definition redis_set :: "string \<Rightarrow> (int \<times> int option) option \<Rightarrow> world \<Rightarrow> world" where
  "redis_set k v w = w\<lparr>redis := (redis w)(k := v)\<rparr>"

text \<open>The script: the new count, and the expiry set when it is 1.\<close>

definition window_incr :: "int \<Rightarrow> string \<Rightarrow> int \<Rightarrow> world \<Rightarrow> int \<times> world" where
  "window_incr now k ttl w =
     (let (v, ex) = (case redis_live now k w of None \<Rightarrow> (0, None) | Some c \<Rightarrow> c);
          current = v + 1
      in (current, redis_set k (Some (current, if current = 1 then Some (now + ttl * 1000) else ex)) w))"

definition redis_decr :: "int \<Rightarrow> string \<Rightarrow> world \<Rightarrow> int \<times> world" where
  "redis_decr now k w =
     (let (v, ex) = (case redis_live now k w of None \<Rightarrow> (0, None) | Some c \<Rightarrow> c)
      in (v - 1, redis_set k (Some (v - 1, ex)) w))"

lemma redis_set_frame [simp]:
  "tasks (redis_set k v w) = tasks w" "proposals (redis_set k v w) = proposals w"
  "decisions (redis_set k v w) = decisions w" "executions (redis_set k v w) = executions w"
  "audits (redis_set k v w) = audits w" "tokens (redis_set k v w) = tokens w"
  "policies (redis_set k v w) = policies w" "roles (redis_set k v w) = roles w"
  "settings (redis_set k v w) = settings w" "uuids_drawn (redis_set k v w) = uuids_drawn w"
  "calls (redis_set k v w) = calls w" "files (redis_set k v w) = files w"
  "redis (redis_set k v w) = (redis w)(k := v)"
  by (simp_all add: redis_set_def)

lemma window_incr_frame:
  assumes "window_incr now k ttl w = (n, w')"
  shows "tasks w' = tasks w" "proposals w' = proposals w" "decisions w' = decisions w"
    "executions w' = executions w" "audits w' = audits w" "tokens w' = tokens w" "policies w' = policies w"
    "roles w' = roles w" "settings w' = settings w" "uuids_drawn w' = uuids_drawn w" "calls w' = calls w"
    "files w' = files w"
  using assms by (auto simp: window_incr_def Let_def split: prod.splits)

text \<open>A counter in use: its value counts the increments of the window, which ends at a fixed time.\<close>

definition window_at :: "string \<Rightarrow> int \<Rightarrow> int \<Rightarrow> world \<Rightarrow> bool" where
  "window_at k n t w \<longleftrightarrow> redis w k = Some (n, Some t) \<and> 1 \<le> n"

lemma window_opens:
  "redis_live now k w = None \<Longrightarrow> window_incr now k ttl w = (1, w') \<and> 0 < ttl \<Longrightarrow> window_at k 1 (now + ttl * 1000) w'"
  by (auto simp: window_incr_def window_at_def Let_def)

lemma window_counts:
  "window_at k n t w \<Longrightarrow> now < t \<Longrightarrow> \<exists>w'. window_incr now k ttl w = (n + 1, w') \<and> window_at k (n + 1) t w'"
  by (auto simp: window_incr_def window_at_def redis_live_def Let_def)

lemma window_other:
  "window_incr now k ttl w = (n, w') \<Longrightarrow> k' \<noteq> k \<Longrightarrow> redis w' k' = redis w k'"
  by (auto simp: window_incr_def Let_def split: prod.splits)

text \<open>The counts a sequence of calls on one key sees.\<close>

fun incr_counts :: "int list \<Rightarrow> string \<Rightarrow> int \<Rightarrow> world \<Rightarrow> int list" where
  "incr_counts [] k ttl w = []"
| "incr_counts (t # ts) k ttl w = (case window_incr t k ttl w of (n, w') \<Rightarrow> n # incr_counts ts k ttl w')"

lemma incr_counts_window:
  "window_at k n e w \<Longrightarrow> \<forall>t \<in> set ts. t < e \<Longrightarrow>
   incr_counts ts k ttl w = map (\<lambda>i. n + 1 + int i) [0..<length ts]"
proof (induction ts arbitrary: n w)
  case (Cons t ts)
  obtain w' where w': "window_incr t k ttl w = (n + 1, w')" "window_at k (n + 1) e w'"
    using window_counts [OF Cons.prems(1), of t ttl] Cons.prems(2) by auto
  have "incr_counts ts k ttl w' = map (\<lambda>i. n + 1 + 1 + int i) [0..<length ts]"
    using Cons.IH [OF w'(2)] Cons.prems(2) by simp
  moreover have "[0..<length (t # ts)] = 0 # map Suc [0..<length ts]"
    by (simp add: map_Suc_upt upt_conv_Cons del: upt_Suc)
  ultimately show ?case by (simp add: w'(1) o_def del: upt_Suc)
qed simp

end
