(* ===== verification/Governor.thy ===== *)
theory Governor
  imports Policy_Engine Redis_Window Audit_Log
begin

section \<open>The governor (core/governor/governor.service.ts)\<close>

text \<open>
  \<open>evaluateProposal\<close> in the order of the source: capability, contract, parameter schema,
  scope limits, policy evaluation, the fold of the results into a decision, the human review
  guard, the velocity controls, then the decision, its token when it approves, the proposal's
  status, the audit entry and the thrown rejection or escalation. \<open>clk i\<close> is the i-th
  reading of a clock; \<open>up i\<close> tells whether the i-th Redis call is answered.
\<close>

subsection \<open>Checks before the policies\<close>

definition reject :: "string \<Rightarrow> string \<Rightarrow> exn" where
  "reject proposalId reason = GovernorRejectionError proposalId reason None"

definition requested_rows :: "json option \<Rightarrow> json option" where
  "requested_rows ps = coalesce (coalesce (jget_opt ps ''limit'') (jget_opt ps ''maxRows'')) (jget_opt ps ''count'')"

definition contract_rows_check :: "string \<Rightarrow> string \<Rightarrow> contract \<Rightarrow> json option \<Rightarrow> exn option" where
  "contract_rows_check pid act ct ps =
     (if ct_maxRowsAffected ct > 0 then
        (case requested_rows ps of
           Some (JNum n) \<Rightarrow>
             if num_lt (Fin (ct_maxRowsAffected ct) 0) n
             then Some (reject pid (''Scope Limit Violation: Requested '' @ num_str n @ '' rows but operator contract for ''
                    @ sq @ act @ sq @ '' allows max '' @ num_str (Fin (ct_maxRowsAffected ct) 0) @ ''.''))
             else None
         | _ \<Rightarrow> None)
      else None)"

definition amount_check :: "string \<Rightarrow> capability \<Rightarrow> (string \<times> json) list \<Rightarrow> json option \<Rightarrow> exn option" where
  "amount_check pid cap limits params =
     (case jget_opt params ''amount'' of
        Some (JNum a) \<Rightarrow>
          if num_le a (Fin 0 0)
          then Some (reject pid (''Capability Scope Violation: Amount must be positive. Got '' @ num_str a @ '' for ''
                 @ sq @ cap_id cap @ sq @ ''.''))
          else (case map_of limits ''maxAmount'' of
                  Some m \<Rightarrow> if js_gt (JNum a) m
                    then Some (reject pid (''Capability Scope Violation: Amount '' @ num_str a @ '' exceeds capability limit of ''
                           @ js_string m @ '' for '' @ sq @ cap_id cap @ sq @ ''.''))
                    else None
                | None \<Rightarrow> None)
      | _ \<Rightarrow> None)"

definition rows_check :: "string \<Rightarrow> capability \<Rightarrow> (string \<times> json) list \<Rightarrow> json option \<Rightarrow> exn option" where
  "rows_check pid cap limits params =
     (case map_of limits ''maxRows'' of
        None \<Rightarrow> None
      | Some m \<Rightarrow>
          (case requested_rows params of
             Some (JNum n) \<Rightarrow> if js_gt (JNum n) m
               then Some (reject pid (''Capability Scope Violation: Row count '' @ num_str n @ '' exceeds capability limit of ''
                      @ js_string m @ '' for '' @ sq @ cap_id cap @ sq @ ''.''))
               else None
           | _ \<Rightarrow> None))"

definition currency_check :: "string \<Rightarrow> capability \<Rightarrow> (string \<times> json) list \<Rightarrow> json option \<Rightarrow> exn option" where
  "currency_check pid cap limits params =
     (case (map_of limits ''currency'', jget_opt params ''currency'') of
        (Some l, Some c) \<Rightarrow>
          if truthy c \<and> js_upper (js_string c) \<noteq> js_upper (js_string l)
          then Some (reject pid (''Capability Scope Violation: Currency '' @ sq @ js_string c @ sq @ '' not allowed. Capability ''
                 @ sq @ cap_id cap @ sq @ '' only permits '' @ sq @ js_string l @ sq @ ''.''))
          else None
      | _ \<Rightarrow> None)"

definition first_error :: "exn option list \<Rightarrow> exn option" where
  "first_error es = (case find_first (\<lambda>e. e \<noteq> None) es of None \<Rightarrow> None | Some e \<Rightarrow> e)"

definition scope_checks :: "string \<Rightarrow> capability \<Rightarrow> json option \<Rightarrow> exn option" where
  "scope_checks pid cap ps =
     (case cap_limits cap of
        None \<Rightarrow> None
      | Some limits \<Rightarrow>
          (let params = Some (or_else ps (JObj []))
           in first_error [amount_check pid cap limits params, rows_check pid cap limits params,
                           currency_check pid cap limits params]))"

text \<open>Everything the governor checks before it asks the policy engine.\<close>

definition pre_checks :: "runtime \<Rightarrow> string \<Rightarrow> json \<Rightarrow> exn + (string \<times> capability)" where
  "pre_checks rt pid option =
     (let a = jget option ''actionType''; ps = jget option ''parameters'' in
      if option = JNull
      then Inl (JsError (''Cannot read properties of null (reading '' @ sq @ ''actionType'' @ sq @ '')''))
      else (case getCapabilityForTool a of
        None \<Rightarrow> Inl (reject pid (''Capability Verification Failed: The proposed tool '' @ sq @ opt_string a @ sq
                  @ '' is not bound to any authorized system capability.''))
      | Some cap \<Rightarrow>
          (case find_tool a of
             None \<Rightarrow> Inl (reject pid (''Execution blocked: Unsupported tool '' @ sq @ opt_string a @ sq @ ''. Check allowed tool list.''))
           | Some t \<Rightarrow>
               (case (case allowedParameterSchema t of None \<Rightarrow> True | Some ok \<Rightarrow> ok ps) of
                  False \<Rightarrow> Inl (reject pid (''Operator Contract Violation: The provided parameters for '' @ opt_string a
                      @ '' strictly violated explicit allowlists. Details: '' @ rt_schema_message rt (opt_string a) ps))
                | True \<Rightarrow>
                    (case first_error [contract_rows_check pid (opt_string a) (tool_contract t) ps, scope_checks pid cap ps] of
                       Some e \<Rightarrow> Inl e
                     | None \<Rightarrow> Inr (opt_string a, cap))))))"

subsection \<open>From results to a decision\<close>

record gov_acc =
  ga_decision :: decision_type
  ga_risk :: risk
  ga_constraints :: "(string \<times> json) list"
  ga_formatted :: "(string \<times> policy_result) list"
  ga_approvers :: int

definition gov_init :: gov_acc where
  "gov_init = \<lparr>ga_decision = D_APPROVE, ga_risk = LOW, ga_constraints = [], ga_formatted = [], ga_approvers = 1\<rparr>"

definition raise_risk :: "risk \<Rightarrow> risk \<Rightarrow> risk" where
  "raise_risk assigned highest =
     (if assigned = CRITICAL then CRITICAL
      else if assigned = HIGH \<and> highest \<noteq> CRITICAL then HIGH
      else if assigned = MEDIUM \<and> highest = LOW then MEDIUM
      else highest)"

fun fold_results :: "policy_result list \<Rightarrow> gov_acc \<Rightarrow> gov_acc" where
  "fold_results [] acc = acc"
| "fold_results (res # rest) acc =
     (let acc1 = acc\<lparr>ga_formatted := obj_set (r_policyId res) res (ga_formatted acc),
                     ga_risk := raise_risk (r_risk res) (ga_risk acc)\<rparr>
      in case r_action res of
           REJECT \<Rightarrow> acc1\<lparr>ga_decision := D_REJECT_AND_REPLAN\<rparr>
         | REQUIRE_DUAL_APPROVAL \<Rightarrow>
             fold_results rest (acc1\<lparr>ga_decision := D_BLOCK_AND_ESCALATE,
               ga_approvers := max (ga_approvers acc)
                 (case r_required res of None \<Rightarrow> 2 | Some n \<Rightarrow> if n = 0 then 2 else n)\<rparr>)
         | ESCALATE \<Rightarrow>
             fold_results rest (if ga_decision acc \<noteq> D_REJECT_AND_REPLAN
               then acc1\<lparr>ga_decision := D_BLOCK_AND_ESCALATE\<rparr> else acc1)
         | INJECT_CONSTRAINT \<Rightarrow>
             fold_results rest (acc1\<lparr>ga_decision := (if ga_decision acc = D_APPROVE then D_APPROVE_WITH_CONSTRAINTS else ga_decision acc),
               ga_constraints := obj_spread (ga_constraints acc) (case r_injected res of None \<Rightarrow> [] | Some cs \<Rightarrow> cs)\<rparr>)
         | OK \<Rightarrow> fold_results rest acc1)"

definition is_approve :: "decision_type \<Rightarrow> bool" where
  "is_approve d \<longleftrightarrow> starts_with (decision_name d) ''APPROVE''"

lemma is_approve_iff [simp]: "is_approve d \<longleftrightarrow> d = D_APPROVE \<or> d = D_APPROVE_WITH_CONSTRAINTS"
  by (cases d) (simp_all add: is_approve_def starts_with_def)

definition human_review_guard :: "capability \<Rightarrow> decision_type \<Rightarrow> decision_type" where
  "human_review_guard cap d = (if is_approve d \<and> cap_human cap then D_BLOCK_AND_ESCALATE else d)"

subsection \<open>Velocity controls\<close>

record gov_state =
  gs_decision :: decision_type
  gs_risk :: risk
  gs_formatted :: "(string \<times> policy_result) list"
  gs_results :: "policy_result list"

definition velocity_block :: "string \<Rightarrow> string \<Rightarrow> gov_state \<Rightarrow> gov_state" where
  "velocity_block pid reason s =
     (let r = fixed_result pid ESCALATE reason CRITICAL
      in s\<lparr>gs_decision := D_BLOCK_AND_ESCALATE, gs_risk := CRITICAL,
           gs_formatted := obj_set pid r (gs_formatted s), gs_results := gs_results s @ [r]\<rparr>)"

definition velocity_down :: "gov_state \<Rightarrow> gov_state" where
  "velocity_down s = velocity_block ''v2_velocity_guard_unavailable''
     ''Safety Systems Degraded: Redis is unreachable. Financial execution is blocked until velocity controls are restored.'' s"

definition tenant_velocity_key :: "string \<Rightarrow> string" where
  "tenant_velocity_key tid = ''velocity:'' @ tid @ '':TRANSFER_FUNDS''"

definition recipient_velocity_key :: "string \<Rightarrow> json \<Rightarrow> string" where
  "recipient_velocity_key tid recipient = ''velocity:'' @ tid @ '':recipient:'' @ js_string recipient"

definition velocity_recipient :: "int \<Rightarrow> bool \<Rightarrow> string \<Rightarrow> json option \<Rightarrow> gov_state \<Rightarrow> world \<Rightarrow> gov_state \<times> world" where
  "velocity_recipient now up tid ps s w =
     (case jget_opt ps ''recipient'' of
        Some recipient \<Rightarrow>
          if \<not> truthy recipient then (s, w)
          else if \<not> up then (velocity_down s, w)
          else (case window_incr now (recipient_velocity_key tid recipient) 86400 w of
                  (n, w1) \<Rightarrow>
                    (if n > 2
                     then velocity_block ''v2_velocity_guard_recipient''
                       (''Recipient velocity limit exceeded. Allowed 2 payouts / day to '' @ js_string recipient
                         @ ''. Blocked attempt #'' @ num_str (Fin n 0) @ ''.'') s
                     else s, w1))
      | None \<Rightarrow> (s, w))"

definition velocity_controls :: "(nat \<Rightarrow> int) \<Rightarrow> (nat \<Rightarrow> bool) \<Rightarrow> string \<Rightarrow> string \<Rightarrow> json option \<Rightarrow> gov_state \<Rightarrow> world
    \<Rightarrow> gov_state \<times> world" where
  "velocity_controls clk up tid act ps s w =
     (if act = ''TRANSFER_FUNDS'' \<and> gs_decision s \<noteq> D_REJECT_AND_REPLAN then
        (if \<not> up 0 then (velocity_down s, w)
         else (case window_incr (clk 0) (tenant_velocity_key tid) 3600 w of
                 (n, w1) \<Rightarrow>
                   velocity_recipient (clk 1) (up 1) tid ps
                     (if n > 5
                      then velocity_block ''v2_velocity_guard_tenant''
                        (''Tenant velocity limit exceeded. Allowed 5 / hour. Blocked attempt #'' @ num_str (Fin n 0) @ ''.'') s
                      else s) w1))
      else (s, w))"

subsection \<open>Recording the decision\<close>

definition token_ttl :: int where
  "token_ttl = 1000 * 60 * 15"

definition token_for :: "proposal_row \<Rightarrow> string \<Rightarrow> string \<Rightarrow> string \<Rightarrow> string \<Rightarrow> string \<Rightarrow> int \<Rightarrow> token_payload" where
  "token_for p decisionId act capId hash nonce expiresAt =
     \<lparr>tp_decisionId = decisionId, tp_tenantId = p_tenantId p, tp_taskId = p_taskId p, tp_proposalId = p_id p,
      tp_operator = act, tp_allowedActions = [act], tp_payloadHash = hash, tp_capabilityIds = [capId],
      tp_nonce = nonce, tp_expiresAt = expiresAt\<rparr>"

definition token_row_of :: "token_payload \<Rightarrow> string \<Rightarrow> string \<Rightarrow> token_row" where
  "token_row_of tp signature versionHash =
     \<lparr>k_nonce = tp_nonce tp, k_decisionId = tp_decisionId tp, k_tenantId = tp_tenantId tp, k_taskId = tp_taskId tp,
      k_proposalId = tp_proposalId tp, k_payloadHash = tp_payloadHash tp, k_signature = signature, k_used = False,
      k_usedAt = None, k_expiresAt = tp_expiresAt tp, k_policyVersionHash = Some versionHash\<rparr>"

definition final_constraints :: "(string \<times> json) list \<Rightarrow> (string \<times> json) list option" where
  "final_constraints cs = (if cs = [] then None else Some cs)"

definition proposal_status_of :: "decision_type \<Rightarrow> proposal_status" where
  "proposal_status_of d = (if is_approve d then P_APPROVED else if d = D_REJECT_AND_REPLAN then P_REJECTED else P_PENDING_REVIEW)"

definition governor_details :: "proposal_row \<Rightarrow> string \<Rightarrow> decision_row \<Rightarrow> string \<Rightarrow> audit_details" where
  "governor_details p pid d versionHash =
     (log_entry (p_tenantId p) (obj_literal
        [(''actor'', Some (JStr ''Covernor'')), (''action'', Some (JStr ''evaluate_proposal'')),
         (''decision'', Some (JStr (decision_name (d_decisionType d)))),
         (''riskLevel'', Some (JStr (risk_name (d_riskLevel d)))),
         (''appliedConstraints'', map_option JObj (d_constraints d))]))
     \<lparr>l_proposalId := Some pid, l_decisionId := Some (d_id d), l_policyVersion := Some versionHash\<rparr>"

definition decision_hash :: "runtime \<Rightarrow> proposal_row \<Rightarrow> string \<Rightarrow> string \<Rightarrow> string" where
  "decision_hash rt p decisionId nonce =
     generatePayloadHash rt (p_tenantId p) (p_taskId p) (p_id p) decisionId (p_recommendedOption p) nonce"

definition new_decision :: "runtime \<Rightarrow> proposal_row \<Rightarrow> gov_state \<Rightarrow> (string \<times> json) list \<Rightarrow> int \<Rightarrow> string \<Rightarrow> string \<Rightarrow> int
    \<Rightarrow> decision_row" where
  "new_decision rt p s constraints approvers decisionId nonce now =
     \<lparr>d_id = decisionId, d_tenantId = p_tenantId p, d_proposalId = p_id p,
      d_decisionType = gs_decision s, d_riskLevel = gs_risk s, d_policyResults = gs_formatted s,
      d_constraints = final_constraints constraints, d_requiredApprovers = approvers,
      d_approvalsCount = 0, d_approverIdentities = None,
      d_approvedPayloadHash = Some (decision_hash rt p decisionId nonce), d_createdAt = now\<rparr>"

text \<open>The token of an approving decision; the row is created when there is a signature.\<close>

definition issue_token :: "runtime \<Rightarrow> proposal_row \<Rightarrow> string \<Rightarrow> string \<Rightarrow> string \<Rightarrow> decision_type \<Rightarrow> string \<Rightarrow> string \<Rightarrow> int
    \<Rightarrow> token_row list" where
  "issue_token rt p act capId versionHash dt decisionId nonce now =
     (let tp = token_for p decisionId act capId (decision_hash rt p decisionId nonce) nonce (now + token_ttl);
          signature = (if is_approve dt then signToken rt tp else [])
      in if signature \<noteq> [] then [token_row_of tp signature versionHash] else [])"

text \<open>Ids, hash and signature; the decision, its token, the proposal's status, the audit entry.\<close>

definition record_decision :: "runtime \<Rightarrow> (nat \<Rightarrow> int) \<Rightarrow> proposal_row \<Rightarrow> string \<Rightarrow> string \<Rightarrow> string \<Rightarrow> gov_state
    \<Rightarrow> (string \<times> json) list \<Rightarrow> int \<Rightarrow> world \<Rightarrow> decision_row \<times> world" where
  "record_decision rt clk p act capId versionHash s constraints approvers w =
     (case fresh_uuid rt w of (decisionId, w1) \<Rightarrow>
      case fresh_uuid rt w1 of (nonce, w2) \<Rightarrow>
       (let d = new_decision rt p s constraints approvers decisionId nonce (clk 3);
            w3 = w2\<lparr>decisions := decisions w2 @ [d],
                    tokens := tokens w2 @ issue_token rt p act capId versionHash (gs_decision s) decisionId nonce (clk 2)\<rparr>;
            w4 = update_proposal (p_id p) (\<lambda>r. r\<lparr>p_status := proposal_status_of (gs_decision s)\<rparr>) w3
        in (d, logAction rt (clk 4) (governor_details p (p_id p) d versionHash) w4)))"

definition reason_or :: "string \<Rightarrow> policy_result option \<Rightarrow> string" where
  "reason_or dflt r = (case r of None \<Rightarrow> dflt | Some x \<Rightarrow> if r_reason x = [] then dflt else r_reason x)"

text \<open>What is thrown, or returned, once everything is recorded.\<close>

definition governor_answer :: "string \<Rightarrow> policy_result list \<Rightarrow> decision_row \<Rightarrow> exn + decision_row" where
  "governor_answer pid results d =
     (if d_decisionType d = D_REJECT_AND_REPLAN then
        (let r = find_first (\<lambda>x. r_action x = REJECT) results
         in Inl (GovernorRejectionError pid (reason_or ''Policy Violation'' r) (case r of None \<Rightarrow> None | Some x \<Rightarrow> r_suggested x)))
      else if d_decisionType d = D_BLOCK_AND_ESCALATE then
        Inl (GovernorEscalationError pid (reason_or ''Requires Human Review''
               (find_first (\<lambda>x. r_action x = ESCALATE \<or> r_action x = REQUIRE_DUAL_APPROVAL) results)))
      else Inr d)"

text \<open>The decision on evaluated policies: fold, human review guard, velocity.\<close>

definition decide :: "(nat \<Rightarrow> int) \<Rightarrow> (nat \<Rightarrow> bool) \<Rightarrow> string \<Rightarrow> string \<Rightarrow> capability \<Rightarrow> json option \<Rightarrow> policy_result list
    \<Rightarrow> world \<Rightarrow> gov_state \<times> world" where
  "decide clk up tid act cap ps results w =
     (let acc = fold_results results gov_init
      in velocity_controls clk up tid act ps
           \<lparr>gs_decision = human_review_guard cap (ga_decision acc), gs_risk = ga_risk acc,
            gs_formatted = ga_formatted acc, gs_results = results\<rparr> w)"

definition evaluateProposal :: "runtime \<Rightarrow> policy_file \<Rightarrow> (nat \<Rightarrow> int) \<Rightarrow> (nat \<Rightarrow> bool) \<Rightarrow> string \<Rightarrow> world
    \<Rightarrow> (exn + decision_row) \<times> world" where
  "evaluateProposal rt cfg clk up proposalId w =
     (case find_proposal w proposalId of
        None \<Rightarrow> (Inl (JsError ''Proposal not found''), w)
      | Some p \<Rightarrow>
          (case pre_checks rt proposalId (p_recommendedOption p) of
             Inl e \<Rightarrow> (Inl e, w)
           | Inr (act, cap) \<Rightarrow>
               (case evaluateOptions rt cfg (p_tenantId p) (Some (JStr act)) (jget (p_recommendedOption p) ''parameters'')
                       (Some (or_else (Some (p_contextSignals p)) (JObj []))) w of
                  (Inl e, w1) \<Rightarrow> (Inl e, w1)
                | (Inr (results, versionHash), w1) \<Rightarrow>
                    (let acc = fold_results results gov_init in
                     case decide clk up (p_tenantId p) act cap (jget (p_recommendedOption p) ''parameters'') results w1 of
                       (s, w2) \<Rightarrow>
                         (case record_decision rt clk p act (cap_id cap) versionHash s (ga_constraints acc) (ga_approvers acc) w2 of
                            (d, w3) \<Rightarrow> (governor_answer proposalId (gs_results s) d, w3))))))"

end
