(* ===== verification/Governor_Laws.thy ===== *)
theory Governor_Laws
  imports Governor
begin

section \<open>What the governor guarantees\<close>

text \<open>
  The fold of policy results against its specification, the human review guard, the velocity
  controls, the decision with its token and its record, and the default policy set.
\<close>

subsection \<open>The fold\<close>

text \<open>The specification: the results up to and including the first rejection count.\<close>

fun upto_reject :: "policy_result list \<Rightarrow> policy_result list" where
  "upto_reject [] = []"
| "upto_reject (r # rs) = (if r_action r = REJECT then [r] else r # upto_reject rs)"

definition spec_decision :: "policy_result list \<Rightarrow> decision_type" where
  "spec_decision rs =
     (if \<exists>r \<in> set rs. r_action r = REJECT then D_REJECT_AND_REPLAN
      else if \<exists>r \<in> set rs. r_action r = ESCALATE \<or> r_action r = REQUIRE_DUAL_APPROVAL then D_BLOCK_AND_ESCALATE
      else if \<exists>r \<in> set rs. r_action r = INJECT_CONSTRAINT then D_APPROVE_WITH_CONSTRAINTS
      else D_APPROVE)"

lemma raise_risk_max: "raise_risk a h = max a h"
  by (cases a; cases h) (simp_all add: raise_risk_def max_def less_eq_risk_def)

definition injected_of :: "policy_result \<Rightarrow> (string \<times> json) list" where
  "injected_of r = (if r_action r = INJECT_CONSTRAINT then (case r_injected r of None \<Rightarrow> [] | Some cs \<Rightarrow> cs) else [])"

definition approvers_of :: "policy_result \<Rightarrow> int" where
  "approvers_of r =
     (if r_action r = REQUIRE_DUAL_APPROVAL then (case r_required r of None \<Rightarrow> 2 | Some n \<Rightarrow> if n = 0 then 2 else n) else 1)"

text \<open>The decision alone, as a fold over the actions of the results.\<close>

fun dec_fold :: "result_action list \<Rightarrow> decision_type \<Rightarrow> decision_type" where
  "dec_fold [] d = d"
| "dec_fold (REJECT # as) d = D_REJECT_AND_REPLAN"
| "dec_fold (REQUIRE_DUAL_APPROVAL # as) d = dec_fold as D_BLOCK_AND_ESCALATE"
| "dec_fold (ESCALATE # as) d = dec_fold as (if d \<noteq> D_REJECT_AND_REPLAN then D_BLOCK_AND_ESCALATE else d)"
| "dec_fold (INJECT_CONSTRAINT # as) d = dec_fold as (if d = D_APPROVE then D_APPROVE_WITH_CONSTRAINTS else d)"
| "dec_fold (OK # as) d = dec_fold as d"

lemma fold_decision: "ga_decision (fold_results rs acc) = dec_fold (map r_action rs) (ga_decision acc)"
proof (induction rs arbitrary: acc)
  case (Cons r rs)
  show ?case by (cases "r_action r") (simp_all add: Let_def Cons)
qed simp

lemma dec_fold_blocked:
  "dec_fold as D_BLOCK_AND_ESCALATE = (if REJECT \<in> set as then D_REJECT_AND_REPLAN else D_BLOCK_AND_ESCALATE)"
proof (induction as)
  case (Cons a as)
  then show ?case by (cases a) simp_all
qed simp

lemma dec_fold_constrained:
  "dec_fold as D_APPROVE_WITH_CONSTRAINTS =
     (if REJECT \<in> set as then D_REJECT_AND_REPLAN
      else if ESCALATE \<in> set as \<or> REQUIRE_DUAL_APPROVAL \<in> set as then D_BLOCK_AND_ESCALATE
      else D_APPROVE_WITH_CONSTRAINTS)"
proof (induction as)
  case (Cons a as)
  then show ?case by (cases a) (simp_all add: dec_fold_blocked)
qed simp

lemma dec_fold_start:
  "dec_fold as D_APPROVE =
     (if REJECT \<in> set as then D_REJECT_AND_REPLAN
      else if ESCALATE \<in> set as \<or> REQUIRE_DUAL_APPROVAL \<in> set as then D_BLOCK_AND_ESCALATE
      else if INJECT_CONSTRAINT \<in> set as then D_APPROVE_WITH_CONSTRAINTS else D_APPROVE)"
proof (induction as)
  case (Cons a as)
  then show ?case by (cases a) (simp_all add: dec_fold_blocked dec_fold_constrained)
qed simp

lemma in_actions: "(\<exists>r \<in> set rs. r_action r = a) \<longleftrightarrow> a \<in> set (map r_action rs)"
  by auto

lemma fold_from_start: "ga_decision (fold_results rs gov_init) = spec_decision rs"
  unfolding fold_decision by (simp add: gov_init_def dec_fold_start spec_decision_def bex_disj_distrib in_actions)

lemma fold_risk:
  "ga_risk (fold_results rs acc) = foldr (\<lambda>r m. max (r_risk r) m) (upto_reject rs) (ga_risk acc)"
proof (induction rs arbitrary: acc)
  case (Cons r rs)
  have comm: "foldr (\<lambda>r m. max (r_risk r) m) xs (max a b) = max a (foldr (\<lambda>r m. max (r_risk r) m) xs b)" for xs a b
    by (induction xs) (simp_all add: max.left_commute)
  show ?case by (cases "r_action r") (simp_all add: Let_def Cons raise_risk_max comm)
qed simp

lemma fold_approvers:
  "ga_approvers (fold_results rs acc) = foldr (\<lambda>r m. max (approvers_of r) m) (upto_reject rs) (max 1 (ga_approvers acc))
   \<or> ga_approvers acc < 1"
proof (induction rs arbitrary: acc)
  case (Cons r rs)
  have comm: "foldr (\<lambda>r m. max (approvers_of r) m) xs (max a b)
      = max a (foldr (\<lambda>r m. max (approvers_of r) m) xs b)" for xs a b
    by (induction xs) (simp_all add: max.left_commute)
  show ?case
  proof (cases "ga_approvers acc < 1")
    case False
    let ?f = "\<lambda>m. foldr (\<lambda>r m. max (approvers_of r) m) (upto_reject rs) m"
    have IH: "1 \<le> ga_approvers a \<Longrightarrow> ga_approvers (fold_results rs a) = ?f (ga_approvers a)" for a
      using Cons [of a] by (auto simp: max_absorb2)
    have ge: "1 \<le> x \<Longrightarrow> 1 \<le> ?f x" for x
      by (induction rs) (auto simp: le_max_iff_disj)
    have "1 \<le> ga_approvers acc" using False by simp
    then show ?thesis
      using comm [of "upto_reject rs"] ge [of "ga_approvers acc"]
      by (cases "r_action r")
        (simp_all add: Let_def IH approvers_of_def max_absorb2 le_max_iff_disj max.commute [of "ga_approvers acc"])
  qed simp
qed (simp add: max_def)

lemma fold_constraints:
  assumes "\<forall>r \<in> set rs. distinct (map fst (injected_of r))"
  shows "map_of (ga_constraints (fold_results rs acc))
     = foldl (\<lambda>m r. m ++ map_of (injected_of r)) (map_of (ga_constraints acc)) (upto_reject rs)"
  using assms
proof (induction rs arbitrary: acc)
  case (Cons r rs)
  then show ?case
    by (cases "r_action r") (simp_all add: Let_def injected_of_def map_of_obj_spread split: option.splits)
qed simp

text \<open>
  C17: the decision of the governor's fold: a rejection anywhere rejects; otherwise an
  escalation or a dual approval rule anywhere escalates; otherwise a constraint approves with
  constraints; otherwise it approves. The risk is the highest one among the results up to the
  first rejection, never below LOW.
\<close>

theorem fold_meets_specification:
  "ga_decision (fold_results rs gov_init) = spec_decision rs
   \<and> ga_risk (fold_results rs gov_init) = Max (insert LOW (r_risk ` set (upto_reject rs)))"
proof
  show "ga_decision (fold_results rs gov_init) = spec_decision rs"
    by (rule fold_from_start)
  have "foldr (\<lambda>r m. max (r_risk r) m) xs LOW = Max (insert LOW (r_risk ` set xs))" for xs
  proof (induction xs)
    case (Cons x xs)
    have "insert LOW (r_risk ` set (x # xs)) = insert (r_risk x) (insert LOW (r_risk ` set xs))" by auto
    then show ?case using Cons by simp
  qed simp
  then show "ga_risk (fold_results rs gov_init) = Max (insert LOW (r_risk ` set (upto_reject rs)))"
    by (simp add: fold_risk gov_init_def)
qed

text \<open>
  Constraint merging: a constraint of the decision is the one the last injecting policy
  before any rejection gave for that name.
\<close>

theorem constraints_last_writer_wins:
  assumes "\<forall>r \<in> set rs. distinct (map fst (injected_of r))"
  shows "map_of (ga_constraints (fold_results rs gov_init)) k =
     (case find_first (\<lambda>r. k \<in> fst ` set (injected_of r)) (rev (upto_reject rs)) of
        None \<Rightarrow> None | Some r \<Rightarrow> map_of (injected_of r) k)"
proof -
  have "foldl (\<lambda>m r. m ++ map_of (injected_of r)) Map.empty xs k =
     (case find_first (\<lambda>r. k \<in> fst ` set (injected_of r)) (rev xs) of
        None \<Rightarrow> None | Some r \<Rightarrow> map_of (injected_of r) k)" for xs
  proof (induction xs rule: rev_induct)
    case (snoc x xs)
    show ?case
    proof (cases "k \<in> fst ` set (injected_of x)")
      case True
      then obtain v where "map_of (injected_of x) k = Some v"
        by (metis weak_map_of_SomeI imageE prod.collapse not_None_eq)
      then show ?thesis using True by (simp add: map_add_Some_iff)
    next
      case False
      then have "map_of (injected_of x) k = None" by (simp add: map_of_eq_None_iff)
      then show ?thesis using False snoc by (simp add: map_add_def)
    qed
  qed simp
  then show ?thesis using fold_constraints [OF assms, of gov_init] by (simp add: gov_init_def)
qed

subsection \<open>The decision\<close>

lemma velocity_block_simps [simp]:
  "gs_decision (velocity_block i m s) = D_BLOCK_AND_ESCALATE" "gs_risk (velocity_block i m s) = CRITICAL"
  by (simp_all add: velocity_block_def Let_def)

lemma velocity_down_simps [simp]:
  "gs_decision (velocity_down s) = D_BLOCK_AND_ESCALATE" "gs_risk (velocity_down s) = CRITICAL"
  by (simp_all add: velocity_down_def)

lemma velocity_recipient_decision:
  "gs_decision (fst (velocity_recipient now up tid ps s w)) \<in> {gs_decision s, D_BLOCK_AND_ESCALATE}"
  by (auto simp: velocity_recipient_def split: option.split prod.split)

lemma velocity_controls_decision:
  "gs_decision (fst (velocity_controls clk up tid act ps s w)) \<in> {gs_decision s, D_BLOCK_AND_ESCALATE}"
proof (cases "window_incr (clk 0) (tenant_velocity_key tid) 3600 w")
  case (Pair n w1)
  show ?thesis
    using velocity_recipient_decision [of "clk 1" "up 1" tid ps s w1]
      velocity_recipient_decision [of "clk 1" "up 1" tid ps "velocity_block i m s" w1 for i m]
    by (auto simp: velocity_controls_def Pair)
qed

lemma velocity_controls_reject:
  "gs_decision s = D_REJECT_AND_REPLAN \<Longrightarrow> velocity_controls clk up tid act ps s w = (s, w)"
  by (simp add: velocity_controls_def)

lemma decide_decision:
  assumes "decide clk up tid act cap ps results w = (s, w')"
  shows "gs_decision s = human_review_guard cap (spec_decision results) \<or>
    (gs_decision s = D_BLOCK_AND_ESCALATE \<and> spec_decision results \<noteq> D_REJECT_AND_REPLAN \<and> act = ''TRANSFER_FUNDS'')"
proof -
  let ?s0 = "\<lparr>gs_decision = human_review_guard cap (ga_decision (fold_results results gov_init)),
      gs_risk = ga_risk (fold_results results gov_init),
      gs_formatted = ga_formatted (fold_results results gov_init), gs_results = results\<rparr>"
  have s: "s = fst (velocity_controls clk up tid act ps ?s0 w)"
    using assms by (simp add: decide_def Let_def)
  consider "act \<noteq> ''TRANSFER_FUNDS''" | "spec_decision results = D_REJECT_AND_REPLAN" | "act = ''TRANSFER_FUNDS''" "spec_decision results \<noteq> D_REJECT_AND_REPLAN"
    by blast
  then show ?thesis
  proof cases
    case 1
    then show ?thesis using s by (simp add: velocity_controls_def fold_from_start)
  next
    case 2
    then have "gs_decision ?s0 = D_REJECT_AND_REPLAN" by (simp add: fold_from_start human_review_guard_def)
    then show ?thesis using s velocity_controls_reject [of ?s0] by (simp add: fold_from_start)
  next
    case 3
    then show ?thesis using s velocity_controls_decision [of clk up tid act ps ?s0 w] by (auto simp: fold_from_start)
  qed
qed

text \<open>Only the Redis store changes while the decision is taken.\<close>

lemma velocity_recipient_redis: "\<exists>r. snd (velocity_recipient now up tid ps s w) = w\<lparr>redis := r\<rparr>"
proof (cases "\<exists>v. jget_opt ps ''recipient'' = Some v \<and> truthy v \<and> up")
  case True
  then obtain v where "jget_opt ps ''recipient'' = Some v" "truthy v" "up" by blast
  then show ?thesis
    by (auto simp: velocity_recipient_def window_incr_def redis_set_def Let_def case_prod_beta)
next
  case False
  then have "snd (velocity_recipient now up tid ps s w) = w"
    by (auto simp: velocity_recipient_def split: option.split)
  then show ?thesis by (intro exI [of _ "redis w"]) simp
qed

lemma decide_redis:
  assumes "decide clk up tid act cap ps results w = (s, w')"
  shows "\<exists>r. w' = w\<lparr>redis := r\<rparr>"
proof -
  let ?s0 = "\<lparr>gs_decision = human_review_guard cap (ga_decision (fold_results results gov_init)),
      gs_risk = ga_risk (fold_results results gov_init),
      gs_formatted = ga_formatted (fold_results results gov_init), gs_results = results\<rparr>"
  have w': "w' = snd (velocity_controls clk up tid act ps ?s0 w)"
    using assms by (simp add: decide_def Let_def)
  obtain n w1 where incr: "window_incr (clk 0) (tenant_velocity_key tid) 3600 w = (n, w1)" by fastforce
  then obtain r1 where "w1 = w\<lparr>redis := r1\<rparr>"
    by (auto simp: window_incr_def redis_set_def Let_def case_prod_beta)
  then have "\<exists>r. snd (velocity_recipient now u tid ps s w1) = w\<lparr>redis := r\<rparr>" for now u s
    using velocity_recipient_redis [of now u tid ps s w1] by auto
  moreover have "\<exists>r. w = w\<lparr>redis := r\<rparr>" by (intro exI [of _ "redis w"]) simp
  ultimately show ?thesis unfolding w' velocity_controls_def by (simp add: incr)
qed

lemma decide_frame:
  assumes "decide clk up tid act cap ps results w = (s, w')"
  shows "tasks w' = tasks w" "proposals w' = proposals w" "decisions w' = decisions w"
    "executions w' = executions w" "audits w' = audits w" "tokens w' = tokens w" "policies w' = policies w"
    "roles w' = roles w" "settings w' = settings w" "uuids_drawn w' = uuids_drawn w" "calls w' = calls w" "files w' = files w"
  using decide_redis [OF assms] by auto

text \<open>What recording a decision does to the tables.\<close>

lemma record_decision_effect:
  assumes "record_decision rt clk p act capId vh s cs n w = (d, w')"
  shows "d = new_decision rt p s cs n (rt_uuid rt (uuids_drawn w)) (rt_uuid rt (Suc (uuids_drawn w))) (clk 3)"
    "decisions w' = decisions w @ [d]"
    "tokens w' = tokens w @ issue_token rt p act capId vh (gs_decision s) (rt_uuid rt (uuids_drawn w))
       (rt_uuid rt (Suc (uuids_drawn w))) (clk 2)"
    "proposals w' = update_where (\<lambda>r. p_id r = p_id p) (\<lambda>r. r\<lparr>p_status := proposal_status_of (gs_decision s)\<rparr>) (proposals w)"
    "executions w' = executions w" "tasks w' = tasks w" "calls w' = calls w" "files w' = files w" "policies w' = policies w"
    "\<exists>r. audits w' = audits w @ [r] \<and> a_decisionId r = Some (d_id d) \<and> a_proposalId r = Some (p_id p)
        \<and> jget (a_actionDetails r) ''decision'' = Some (JStr (decision_name (d_decisionType d)))"
proof -
  let ?did = "rt_uuid rt (uuids_drawn w)" and ?nonce = "rt_uuid rt (Suc (uuids_drawn w))"
  show d: "d = new_decision rt p s cs n ?did ?nonce (clk 3)"
    using assms by (simp add: record_decision_def fresh_uuid_def Let_def)
  obtain w4 where w4: "w' = logAction rt (clk 4) (governor_details p (p_id p) d vh) w4"
    "w4 = update_proposal (p_id p) (\<lambda>r. r\<lparr>p_status := proposal_status_of (gs_decision s)\<rparr>)
       (w\<lparr>uuids_drawn := Suc (Suc (uuids_drawn w)), decisions := decisions w @ [d],
          tokens := tokens w @ issue_token rt p act capId vh (gs_decision s) ?did ?nonce (clk 2)\<rparr>)"
    using assms by (auto simp: record_decision_def fresh_uuid_def Let_def)
  show "decisions w' = decisions w @ [d]"
    "tokens w' = tokens w @ issue_token rt p act capId vh (gs_decision s) ?did ?nonce (clk 2)"
    "executions w' = executions w" "tasks w' = tasks w" "calls w' = calls w" "files w' = files w" "policies w' = policies w"
    using w4 by simp_all
  show "proposals w' = update_where (\<lambda>r. p_id r = p_id p) (\<lambda>r. r\<lparr>p_status := proposal_status_of (gs_decision s)\<rparr>) (proposals w)"
    using w4 by (simp add: update_proposal_def)
  have "audits w4 = audits w" using w4 by simp
  then show "\<exists>r. audits w' = audits w @ [r] \<and> a_decisionId r = Some (d_id d) \<and> a_proposalId r = Some (p_id p)
        \<and> jget (a_actionDetails r) ''decision'' = Some (JStr (decision_name (d_decisionType d)))"
    using logAction_appends [of rt "clk 4" "governor_details p (p_id p) d vh" w4] w4(1)
    by (auto simp: governor_details_def log_entry_def obj_literal_def split: option.splits)
qed

lemma find_proposal_id: "find_proposal w pid = Some p \<Longrightarrow> p_id p = pid"
  by (auto simp: find_proposal_def)

text \<open>The three ways an evaluation of an existing proposal can go.\<close>

lemma evaluateProposal_cases:
  assumes "evaluateProposal rt cfg clk up pid w = (x, w')" and "find_proposal w pid = Some p"
  obtains
    (refused) e where "pre_checks rt pid (p_recommendedOption p) = Inl e" "x = Inl e" "w' = w"
  | (engine) act cap e where "pre_checks rt pid (p_recommendedOption p) = Inr (act, cap)"
      "evaluateOptions rt cfg (p_tenantId p) (Some (JStr act)) (jget (p_recommendedOption p) ''parameters'')
         (Some (or_else (Some (p_contextSignals p)) (JObj []))) w = (Inl e, w')" "x = Inl e"
  | (decided) act cap results vh w1 s w2 d where
      "pre_checks rt pid (p_recommendedOption p) = Inr (act, cap)"
      "evaluateOptions rt cfg (p_tenantId p) (Some (JStr act)) (jget (p_recommendedOption p) ''parameters'')
         (Some (or_else (Some (p_contextSignals p)) (JObj []))) w = (Inr (results, vh), w1)"
      "decide clk up (p_tenantId p) act cap (jget (p_recommendedOption p) ''parameters'') results w1 = (s, w2)"
      "record_decision rt clk p act (cap_id cap) vh s (ga_constraints (fold_results results gov_init))
         (ga_approvers (fold_results results gov_init)) w2 = (d, w')"
      "x = governor_answer pid (gs_results s) d"
  using assms
  by (auto simp: evaluateProposal_def Let_def split: sum.splits prod.splits)

lemma pre_checks_action:
  assumes "pre_checks rt pid v = Inr (act, cap)"
  shows "jget v ''actionType'' = Some (JStr act) \<and> getCapabilityForTool (Some (JStr act)) = Some cap"
proof -
  obtain a where a: "getCapabilityForTool (jget v ''actionType'') = Some cap" "act = opt_string (jget v ''actionType'')"
    using assms by (auto simp: pre_checks_def Let_def split: if_splits option.splits bool.splits)
  then obtain b where "jget v ''actionType'' = Some (JStr b)" using capability_string by blast
  then show ?thesis using a by (simp add: opt_string_def)
qed

lemma answer_Inr: "governor_answer pid rs d = Inr d' \<Longrightarrow> d' = d \<and> d_decisionType d \<noteq> D_REJECT_AND_REPLAN \<and> d_decisionType d \<noteq> D_BLOCK_AND_ESCALATE"
  by (auto simp: governor_answer_def Let_def split: if_splits)

lemma new_decision_simps [simp]:
  "d_id (new_decision rt p s cs n i j t) = i" "d_decisionType (new_decision rt p s cs n i j t) = gs_decision s"
  "d_proposalId (new_decision rt p s cs n i j t) = p_id p" "d_tenantId (new_decision rt p s cs n i j t) = p_tenantId p"
  "d_riskLevel (new_decision rt p s cs n i j t) = gs_risk s"
  "d_requiredApprovers (new_decision rt p s cs n i j t) = n" "d_approvalsCount (new_decision rt p s cs n i j t) = 0"
  "d_constraints (new_decision rt p s cs n i j t) = final_constraints cs"
  "d_approvedPayloadHash (new_decision rt p s cs n i j t) = Some (decision_hash rt p i j)"
  by (simp_all add: new_decision_def)

lemma spec_decision_range: "spec_decision rs \<noteq> D_HUMAN_OVERRIDE_APPROVED \<and> spec_decision rs \<noteq> D_OVERRIDE_IN_PROGRESS"
  by (simp add: spec_decision_def)

lemma decide_range:
  assumes "decide clk up tid act cap ps results w = (s, w')"
  shows "gs_decision s \<in> {D_APPROVE, D_APPROVE_WITH_CONSTRAINTS, D_REJECT_AND_REPLAN, D_BLOCK_AND_ESCALATE}"
    and "is_approve (gs_decision s) \<Longrightarrow> \<not> cap_human cap"
  using decide_decision [OF assms] spec_decision_range [of results]
  by (cases "spec_decision results"; auto simp: human_review_guard_def split: if_splits)+

text \<open>
  C6: no policy set can approve an action whose capability requires human review: when an
  evaluation returns an approving decision, the action is a database read, a query, a file
  operation, a Slack message or a Zendesk ticket; never a transfer, a database mutation or an
  HTTP request.
\<close>

theorem human_review_never_bypassed:
  assumes "evaluateProposal rt cfg clk up pid w = (Inr d, w')"
  shows "\<exists>p a. find_proposal w pid = Some p \<and> jget (p_recommendedOption p) ''actionType'' = Some (JStr a)
     \<and> a \<in> {''READ_DATABASE'', ''POSTGRESQL_QUERY'', ''FILE_SYSTEM_OPERATOR'', ''SLACK_OPERATOR'', ''ZENDESK_OPERATOR''}
     \<and> d_decisionType d \<in> {D_APPROVE, D_APPROVE_WITH_CONSTRAINTS}"
proof -
  obtain p where p: "find_proposal w pid = Some p"
    using assms by (auto simp: evaluateProposal_def split: option.splits)
  from assms p show ?thesis
  proof (cases rule: evaluateProposal_cases)
    case (decided act cap results vh w1 s w2 d')
    have d: "d' = d" "d_decisionType d \<notin> {D_REJECT_AND_REPLAN, D_BLOCK_AND_ESCALATE}"
      using answer_Inr [OF decided(5) [symmetric]] by auto
    then have "gs_decision s \<in> {D_APPROVE, D_APPROVE_WITH_CONSTRAINTS}"
      using decide_range(1) [OF decided(3)] record_decision_effect(1) [OF decided(4)] by auto
    moreover from this have "\<not> cap_human cap" using decide_range(2) [OF decided(3)] by auto
    moreover note pre_checks_action [OF decided(1)]
    ultimately show ?thesis
      using p d record_decision_effect(1) [OF decided(4)] by (auto elim!: capability_cases)
  qed simp_all
qed

lemma issue_token_cases:
  "issue_token rt p act capId vh dt i j t = [] \<or>
   (is_approve dt \<and> (\<exists>tp. tp = token_for p i act capId (decision_hash rt p i j) j (t + token_ttl)
      \<and> issue_token rt p act capId vh dt i j t = [token_row_of tp (signToken rt tp) vh]))"
  by (simp add: issue_token_def Let_def)

lemma issue_token_approve:
  "is_approve dt \<Longrightarrow> (\<And>m. rt_sign rt m \<noteq> []) \<Longrightarrow>
   issue_token rt p act capId vh dt i j t =
     [token_row_of (token_for p i act capId (decision_hash rt p i j) j (t + token_ttl))
        (signToken rt (token_for p i act capId (decision_hash rt p i j) j (t + token_ttl))) vh]"
  by (auto simp: issue_token_def Let_def signToken_def)

text \<open>The payload the operator rebuilds from a token row to check its signature.\<close>

definition reconstructed_payload :: "token_row \<Rightarrow> string \<Rightarrow> string \<Rightarrow> token_payload" where
  "reconstructed_payload k act capId =
     \<lparr>tp_decisionId = k_decisionId k, tp_tenantId = k_tenantId k, tp_taskId = k_taskId k, tp_proposalId = k_proposalId k,
      tp_operator = act, tp_allowedActions = [act], tp_payloadHash = k_payloadHash k, tp_capabilityIds = [capId],
      tp_nonce = k_nonce k, tp_expiresAt = k_expiresAt k\<rparr>"

lemma reconstruct_issued:
  "reconstructed_payload (token_row_of (token_for p i act capId h j e) sg vh) act capId = token_for p i act capId h j e"
  by (simp add: reconstructed_payload_def token_row_of_def token_for_def)

text \<open>What an approving evaluation leaves behind, in full.\<close>

lemma approval_effect:
  assumes run: "evaluateProposal rt cfg clk up pid w = (Inr d, w')" and nonempty: "\<And>m. rt_sign rt m \<noteq> []"
  obtains p act cap j vh where "find_proposal w pid = Some p" "p_id p = pid"
    "jget (p_recommendedOption p) ''actionType'' = Some (JStr act)" "getCapabilityForTool (Some (JStr act)) = Some cap"
    "d_decisionType d = D_APPROVE \<or> d_decisionType d = D_APPROVE_WITH_CONSTRAINTS" "d_proposalId d = pid"
    "d_tenantId d = p_tenantId p"
    "decisions w' = decisions w @ [d]" "executions w' = executions w" "calls w' = calls w"
    "proposals w' = update_where (\<lambda>r. p_id r = pid) (\<lambda>r. r\<lparr>p_status := P_APPROVED\<rparr>) (proposals w)"
    "tokens w' = tokens w @ [token_row_of (token_for p (d_id d) act (cap_id cap) (decision_hash rt p (d_id d) j) j (clk 2 + token_ttl))
       (signToken rt (token_for p (d_id d) act (cap_id cap) (decision_hash rt p (d_id d) j) j (clk 2 + token_ttl))) vh]"
proof -
  obtain p where p: "find_proposal w pid = Some p"
    using run by (auto simp: evaluateProposal_def split: option.splits)
  note pid = find_proposal_id [OF p]
  from run p show thesis
  proof (cases rule: evaluateProposal_cases)
    case (decided act cap results vh w1 s w2 d')
    note eff = record_decision_effect [OF decided(4)]
    have d: "d' = d" "is_approve (gs_decision s)"
      using answer_Inr [OF decided(5) [symmetric]] decide_range(1) [OF decided(3)] by (auto simp: eff(1))
    have fr: "tokens w2 = tokens w" "decisions w2 = decisions w" "proposals w2 = proposals w" "executions w2 = executions w"
      "calls w2 = calls w"
      using evaluateOptions_frame [OF decided(2)] decide_frame [OF decided(3)] by simp_all
    have did: "d_id d = rt_uuid rt (uuids_drawn w2)" using eff(1) d(1) by simp
    have st: "proposal_status_of (gs_decision s) = P_APPROVED" using d(2) by (simp add: proposal_status_of_def)
    show thesis
    proof (rule that [OF p pid])
      show "jget (p_recommendedOption p) ''actionType'' = Some (JStr act)" "getCapabilityForTool (Some (JStr act)) = Some cap"
        using pre_checks_action [OF decided(1)] by simp_all
      show "d_decisionType d = D_APPROVE \<or> d_decisionType d = D_APPROVE_WITH_CONSTRAINTS" "d_proposalId d = pid"
        "d_tenantId d = p_tenantId p"
        using d eff(1) pid by auto
      show "decisions w' = decisions w @ [d]" "executions w' = executions w" "calls w' = calls w"
        "proposals w' = update_where (\<lambda>r. p_id r = pid) (\<lambda>r. r\<lparr>p_status := P_APPROVED\<rparr>) (proposals w)"
        using eff(2,4,5,7) fr d(1) pid st by simp_all
      show "tokens w' = tokens w @ [token_row_of (token_for p (d_id d) act (cap_id cap)
             (decision_hash rt p (d_id d) (rt_uuid rt (Suc (uuids_drawn w2)))) (rt_uuid rt (Suc (uuids_drawn w2))) (clk 2 + token_ttl))
           (signToken rt (token_for p (d_id d) act (cap_id cap)
             (decision_hash rt p (d_id d) (rt_uuid rt (Suc (uuids_drawn w2)))) (rt_uuid rt (Suc (uuids_drawn w2))) (clk 2 + token_ttl))) vh]"
        using eff(3) fr(1) issue_token_approve [OF d(2) nonempty] by (simp add: did)
    qed
  qed simp_all
qed

lemma no_approval_no_token:
  assumes run: "evaluateProposal rt cfg clk up pid w = (Inl e, w')"
  shows "tokens w' = tokens w"
proof (cases "find_proposal w pid")
  case None
  then show ?thesis using run by (auto simp: evaluateProposal_def)
next
  case (Some p)
  from run Some show ?thesis
  proof (cases rule: evaluateProposal_cases)
    case (decided act cap results vh w1 s w2 d)
    have "\<not> is_approve (gs_decision s)"
    proof
      assume "is_approve (gs_decision s)"
      then have "governor_answer pid (gs_results s) d = Inr d"
        using record_decision_effect(1) [OF decided(4)] by (auto simp: governor_answer_def)
      then show False using decided(5) by simp
    qed
    then show ?thesis
      using record_decision_effect(3) [OF decided(4)] evaluateOptions_frame(6) [OF decided(2)] decide_frame(6) [OF decided(3)]
      by (auto simp: issue_token_def)
  qed (use evaluateOptions_frame(6) in auto)
qed

text \<open>
  C10: an approval comes with exactly one token, and no other evaluation issues any: the new
  row is unused, names the decision, expires fifteen minutes later, carries the hash of the
  recommended option under the ids of the proposal, and its signature verifies over the
  payload rebuilt from the row with the action and its capability.
\<close>

theorem approval_issues_valid_token:
  assumes run: "evaluateProposal rt cfg clk up pid w = (x, w')"
    and law: "signing_law rt" and nonempty: "\<And>m. rt_sign rt m \<noteq> []"
  shows "case x of
      Inl e \<Rightarrow> tokens w' = tokens w
    | Inr d \<Rightarrow> (\<exists>k p act cap. tokens w' = tokens w @ [k] \<and> find_proposal w pid = Some p
         \<and> jget (p_recommendedOption p) ''actionType'' = Some (JStr act)
         \<and> getCapabilityForTool (Some (JStr act)) = Some cap
         \<and> k_decisionId k = d_id d \<and> \<not> k_used k \<and> k_expiresAt k = clk 2 + 1000 * 60 * 15
         \<and> k_payloadHash k = generatePayloadHash rt (p_tenantId p) (p_taskId p) pid (d_id d) (p_recommendedOption p) (k_nonce k)
         \<and> verifyTokenSignature rt (reconstructed_payload k act (cap_id cap)) (k_signature k))"
proof (cases x)
  case (Inl e)
  then show ?thesis using no_approval_no_token run by simp
next
  case (Inr d)
  show ?thesis
    using run nonempty unfolding Inr sum.case
  proof (rule approval_effect)
    fix p act j vh and cap :: capability
    let ?tp = "token_for p (d_id d) act (cap_id cap) (decision_hash rt p (d_id d) j) j (clk 2 + token_ttl)"
    let ?k = "token_row_of ?tp (signToken rt ?tp) vh"
    assume p: "find_proposal w pid = Some p" "p_id p = pid" "jget (p_recommendedOption p) ''actionType'' = Some (JStr act)"
      "getCapabilityForTool (Some (JStr act)) = Some cap" and tok: "tokens w' = tokens w @ [?k]"
    have "verifyTokenSignature rt (reconstructed_payload ?k act (cap_id cap)) (k_signature ?k)"
      unfolding reconstruct_issued using verify_signed [OF law] by (simp add: token_row_of_def)
    moreover have "k_decisionId ?k = d_id d" "\<not> k_used ?k" "k_expiresAt ?k = clk 2 + 1000 * 60 * 15" "k_nonce ?k = j"
      "k_payloadHash ?k = generatePayloadHash rt (p_tenantId p) (p_taskId p) pid (d_id d) (p_recommendedOption p) j"
      using p(2) by (simp_all add: token_row_of_def token_for_def token_ttl_def decision_hash_def)
    ultimately show "\<exists>k p act cap. tokens w' = tokens w @ [k] \<and> find_proposal w pid = Some p
         \<and> jget (p_recommendedOption p) ''actionType'' = Some (JStr act)
         \<and> getCapabilityForTool (Some (JStr act)) = Some cap
         \<and> k_decisionId k = d_id d \<and> \<not> k_used k \<and> k_expiresAt k = clk 2 + 1000 * 60 * 15
         \<and> k_payloadHash k = generatePayloadHash rt (p_tenantId p) (p_taskId p) pid (d_id d) (p_recommendedOption p) (k_nonce k)
         \<and> verifyTokenSignature rt (reconstructed_payload k act (cap_id cap)) (k_signature k)"
      using tok p by metis
  qed
qed

subsection \<open>Bounds, velocity, recording\<close>

lemma first_error_head: "first_error (Some e # es) = Some e"
  by (simp add: first_error_def)

text \<open>
  C20: a transfer with a numeric amount that is not above 0 and at most 1000 is rejected before
  any policy is read, whatever the policies, and leaves nothing behind: no decision, no token,
  no audit entry.
\<close>

theorem transfer_amount_bounds:
  assumes run: "evaluateProposal rt cfg clk up pid w = (x, w')"
    and p: "find_proposal w pid = Some p" "jget (p_recommendedOption p) ''actionType'' = Some (JStr ''TRANSFER_FUNDS'')"
      "jget_opt (jget (p_recommendedOption p) ''parameters'') ''amount'' = Some (JNum a)"
    and out: "num_le a (Fin 0 0) \<or> num_lt (Fin 1000 0) a"
  shows "w' = w \<and> (\<exists>m. x = Inl (GovernorRejectionError pid m None))"
proof -
  let ?v = "p_recommendedOption p" and ?ps = "jget (p_recommendedOption p) ''parameters''"
  have v: "?v \<noteq> JNull" using p(2) by auto
  have tool: "find_tool (Some (JStr ''TRANSFER_FUNDS'')) = Some TransferFundsOperator"
    unfolding find_tool_iff by simp
  obtain cap where cap: "getCapabilityForTool (Some (JStr ''TRANSFER_FUNDS'')) = Some cap"
    using capability_iff_tool tool by blast
  then have lim: "cap_limits cap = Some [(''maxAmount'', jnat 1000), (''currency'', JStr ''USD'')]"
    by (rule capability_cases) simp_all
  have truthy: "\<exists>y. ?ps = Some y \<and> truthy y"
    using p(3) by (cases ?ps; cases "the ?ps") (auto simp: jget_opt_def)
  then have par: "jget_opt (Some (or_else ?ps (JObj []))) ''amount'' = Some (JNum a)"
    using p(3) by (auto simp: or_else_def)
  have "\<exists>m. amount_check pid cap [(''maxAmount'', jnat 1000), (''currency'', JStr ''USD'')]
      (Some (or_else ?ps (JObj []))) = Some (GovernorRejectionError pid m None)"
    using out by (cases "num_le a (Fin 0 0)") (simp_all add: amount_check_def par reject_def)
  then obtain m where "amount_check pid cap [(''maxAmount'', jnat 1000), (''currency'', JStr ''USD'')]
      (Some (or_else ?ps (JObj []))) = Some (GovernorRejectionError pid m None)" ..
  then have "scope_checks pid cap ?ps = Some (GovernorRejectionError pid m None)"
    by (simp add: scope_checks_def lim first_error_head)
  then have "pre_checks rt pid ?v = Inl (GovernorRejectionError pid m None)"
    using v tool cap p(2)
    by (simp add: pre_checks_def contract_rows_check_def first_error_def)
  then show ?thesis using run p(1) by (auto simp: evaluateProposal_def)
qed

text \<open>
  C18: an evaluation that gets past the scope checks and the policies is recorded whatever its
  outcome: one decision row, one audit entry that names it and its type, and the status of
  the proposal that the type implies; the decision row is the one the answer carries or the
  thrown error stands for.
\<close>

theorem evaluation_is_recorded:
  assumes run: "evaluateProposal rt cfg clk up pid w = (x, w')" and p: "find_proposal w pid = Some p"
    and pre: "pre_checks rt pid (p_recommendedOption p) = Inr ac"
    and params: "jget (p_recommendedOption p) ''parameters'' \<noteq> Some JNull"
  shows "\<exists>d r. decisions w' = decisions w @ [d] \<and> audits w' = audits w @ [r]
     \<and> d_proposalId d = pid \<and> a_decisionId r = Some (d_id d) \<and> a_proposalId r = Some pid
     \<and> jget (a_actionDetails r) ''decision'' = Some (JStr (decision_name (d_decisionType d)))
     \<and> find_proposal w' pid = Some (p\<lparr>p_status := proposal_status_of (d_decisionType d)\<rparr>)
     \<and> (case x of
          Inr d' \<Rightarrow> d' = d \<and> is_approve (d_decisionType d)
        | Inl e \<Rightarrow> (\<exists>m alt. d_decisionType d = D_REJECT_AND_REPLAN \<and> e = GovernorRejectionError pid m alt)
                \<or> (\<exists>m. d_decisionType d = D_BLOCK_AND_ESCALATE \<and> e = GovernorEscalationError pid m))"
  using run p
proof (cases rule: evaluateProposal_cases)
  case (refused e)
  then show ?thesis using pre by simp
next
  case (engine act cap e)
  then show ?thesis using evaluateOptions_no_throw [OF params] by blast
next
  case (decided act cap results vh w1 s w2 d)
  note eff = record_decision_effect [OF decided(4)]
  have fr: "decisions w2 = decisions w" "audits w2 = audits w" "proposals w2 = proposals w"
    using evaluateOptions_frame [OF decided(2)] decide_frame [OF decided(3)] by simp_all
  obtain r where r: "audits w' = audits w @ [r]" "a_decisionId r = Some (d_id d)" "a_proposalId r = Some pid"
    "jget (a_actionDetails r) ''decision'' = Some (JStr (decision_name (d_decisionType d)))"
    using eff(10) find_proposal_id [OF p] by (auto simp: fr(2))
  have st: "find_proposal w' pid = Some (p\<lparr>p_status := proposal_status_of (d_decisionType d)\<rparr>)"
    using p find_proposal_id [OF p]
    by (simp add: find_proposal_def eff(4) fr(3) find_first_update_key) (simp add: eff(1))
  have ans: "case x of
          Inr d' \<Rightarrow> d' = d \<and> is_approve (d_decisionType d)
        | Inl e \<Rightarrow> (\<exists>m alt. d_decisionType d = D_REJECT_AND_REPLAN \<and> e = GovernorRejectionError pid m alt)
                \<or> (\<exists>m. d_decisionType d = D_BLOCK_AND_ESCALATE \<and> e = GovernorEscalationError pid m)"
    using decide_range(1) [OF decided(3)]
    by (auto simp: decided(5) governor_answer_def eff(1) Let_def)
  have "decisions w' = decisions w @ [d]" using eff(2) fr(1) by simp
  moreover have "d_proposalId d = pid" using find_proposal_id [OF p] by (simp add: eff(1))
  ultimately show ?thesis using r st ans by blast
qed

lemma velocity_recipient_keeps_block:
  "gs_decision s = D_BLOCK_AND_ESCALATE \<Longrightarrow> gs_risk s = CRITICAL \<Longrightarrow>
   gs_decision (fst (velocity_recipient now up tid ps s w)) = D_BLOCK_AND_ESCALATE
   \<and> gs_risk (fst (velocity_recipient now up tid ps s w)) = CRITICAL"
  by (auto simp: velocity_recipient_def split: option.split prod.split)


end
