(* ===== verification/Default_Policies.thy ===== *)
theory Default_Policies
  imports Governor_Laws
begin

section \<open>The policy set shipped with the program (src/config/policies.json)\<close>

text \<open>
  The seven policies of the configuration file, and the decision table they give for every
  tool before the human review guard and the velocity controls.
\<close>

definition cond :: "string \<Rightarrow> cond_op \<Rightarrow> json \<Rightarrow> condition" where
  "cond p op v = \<lparr>c_parameter = p, c_operator = op, c_value = v\<rparr>"

definition POL_01 :: policy where
  "POL_01 = \<lparr>pol_id = ''POL_01_NO_DELETE'', pol_name = ''Destructive Action Prevention'',
     pol_description = ''Prevents any actions that delete or destroy records. Currently bounds PostgreSQL Queries.'',
     pol_targets = [''POSTGRESQL_QUERY''], pol_rule = DENY, pol_inject = None,
     pol_cond = Some (cond ''query'' CONTAINS (JArr [JStr ''DELETE'', JStr ''DROP'', JStr ''TRUNCATE'', JStr ''ALTER''])),
     pol_risk = CRITICAL\<rparr>"

definition POL_02 :: policy where
  "POL_02 = \<lparr>pol_id = ''POL_02_MAX_READ_LIMIT'', pol_name = ''Data Exfiltration Limit'',
     pol_description = ''Restricts any read operation to a maximum of 50 records to prevent mass data exfiltration.'',
     pol_targets = [''ZENDESK_OPERATOR'', ''POSTGRESQL_QUERY'', ''READ_DATABASE''], pol_rule = CONSTRAINT,
     pol_inject = Some [(''maxRecords'', jnat 50)], pol_cond = None, pol_risk = MEDIUM\<rparr>"

definition POL_03 :: policy where
  "POL_03 = \<lparr>pol_id = ''POL_03_REQUIRE_HUMAN_APPROVAL'', pol_name = ''High Value Transactions'',
     pol_description = ''Any financial transaction over $500 must be manually approved.'',
     pol_targets = [''TRANSFER_FUNDS''], pol_rule = ESCALATE_RULE, pol_inject = None,
     pol_cond = Some (cond ''amount'' GREATER_THAN (jnat 500)), pol_risk = HIGH\<rparr>"

definition POL_04 :: policy where
  "POL_04 = \<lparr>pol_id = ''POL_04_PROVENANCE_REQUIRED'', pol_name = ''Strict Provenance Enforcement'',
     pol_description = ''Financial routing targets must have verified system provenance, avoiding raw user text.'',
     pol_targets = [''TRANSFER_FUNDS''], pol_rule = DENY, pol_inject = None,
     pol_cond = Some (cond ''recipient'' UNTRUSTED_PROVENANCE (JStr ''SYSTEM_VERIFIED'')), pol_risk = CRITICAL\<rparr>"

definition POL_05 :: policy where
  "POL_05 = \<lparr>pol_id = ''POL_05_DUAL_APPROVAL_EXTRA_HIGH'', pol_name = ''Exceptional Value Transactions'',
     pol_description = ''Any financial transaction over $10000 requires two independent human approvals.'',
     pol_targets = [''TRANSFER_FUNDS''], pol_rule = DUAL_APPROVAL, pol_inject = None,
     pol_cond = Some (cond ''amount'' GREATER_THAN (jnat 10000)), pol_risk = CRITICAL\<rparr>"

definition POL_06 :: policy where
  "POL_06 = \<lparr>pol_id = ''POL_06_EXTERNAL_HTTP_OVERSIGHT'', pol_name = ''External Request Tracking'',
     pol_description = ''Any raw HTTP or Slack operator requests pass default unless blocked by Operator Contracts.'',
     pol_targets = [''HTTP_REQUEST'', ''SLACK_OPERATOR''], pol_rule = CONSTRAINT, pol_inject = None,
     pol_cond = None, pol_risk = LOW\<rparr>"

definition POL_07 :: policy where
  "POL_07 = \<lparr>pol_id = ''POL_07_FILESYSTEM_OVERSIGHT'', pol_name = ''Local Sandbox Control'',
     pol_description = ''Filesystem operator runs in constrained sandbox.'',
     pol_targets = [''FILE_SYSTEM_OPERATOR''], pol_rule = CONSTRAINT, pol_inject = None,
     pol_cond = None, pol_risk = LOW\<rparr>"

definition default_policies :: "policy list" where
  "default_policies = [POL_01, POL_02, POL_03, POL_04, POL_05, POL_06, POL_07]"

lemmas shipped = POL_01_def POL_02_def POL_03_def POL_04_def POL_05_def POL_06_def POL_07_def

text \<open>The fields the evaluation reads.\<close>

lemma shipped_fields [simp]:
  "pol_targets POL_01 = [''POSTGRESQL_QUERY'']" "pol_rule POL_01 = DENY"
  "pol_cond POL_01 = Some (cond ''query'' CONTAINS (JArr [JStr ''DELETE'', JStr ''DROP'', JStr ''TRUNCATE'', JStr ''ALTER'']))"
  "pol_inject POL_01 = None"
  "pol_targets POL_02 = [''ZENDESK_OPERATOR'', ''POSTGRESQL_QUERY'', ''READ_DATABASE'']" "pol_rule POL_02 = CONSTRAINT"
  "pol_cond POL_02 = None"
  "pol_inject POL_02 = Some [(''maxRecords'', jnat 50)]"
  "pol_targets POL_03 = [''TRANSFER_FUNDS'']" "pol_rule POL_03 = ESCALATE_RULE"
  "pol_cond POL_03 = Some (cond ''amount'' GREATER_THAN (jnat 500))"
  "pol_inject POL_03 = None"
  "pol_targets POL_04 = [''TRANSFER_FUNDS'']" "pol_rule POL_04 = DENY"
  "pol_cond POL_04 = Some (cond ''recipient'' UNTRUSTED_PROVENANCE (JStr ''SYSTEM_VERIFIED''))"
  "pol_inject POL_04 = None"
  "pol_targets POL_05 = [''TRANSFER_FUNDS'']" "pol_rule POL_05 = DUAL_APPROVAL"
  "pol_cond POL_05 = Some (cond ''amount'' GREATER_THAN (jnat 10000))"
  "pol_inject POL_05 = None"
  "pol_targets POL_06 = [''HTTP_REQUEST'', ''SLACK_OPERATOR'']" "pol_rule POL_06 = CONSTRAINT"
  "pol_cond POL_06 = None"
  "pol_inject POL_06 = None"
  "pol_targets POL_07 = [''FILE_SYSTEM_OPERATOR'']" "pol_rule POL_07 = CONSTRAINT"
  "pol_cond POL_07 = None"
  "pol_inject POL_07 = None"
  by (simp_all add: shipped)

lemma outcome_action:
  "r_action (policy_outcome pol) = (case pol_rule pol of DENY \<Rightarrow> REJECT | ESCALATE_RULE \<Rightarrow> ESCALATE
     | CONSTRAINT \<Rightarrow> INJECT_CONSTRAINT | DUAL_APPROVAL \<Rightarrow> REQUIRE_DUAL_APPROVAL)"
  by (simp add: policy_outcome_def split: rule_type.split)

definition default_decision :: "string \<Rightarrow> json option \<Rightarrow> json option \<Rightarrow> decision_type" where
  "default_decision act p c = spec_decision (spec_results default_policies (Some (JStr act)) p c)"

definition untrusted_recipient :: "json option \<Rightarrow> json option \<Rightarrow> bool" where
  "untrusted_recipient p c \<longleftrightarrow> jget_opt p ''recipient'' \<noteq> None
     \<and> (case jget_opt (jget_opt c ''provenance'') ''recipient'' of
          None \<Rightarrow> True | Some v \<Rightarrow> \<not> strict_eq v (JStr ''SYSTEM_VERIFIED''))"

lemma default_applicable:
  "filter (\<lambda>pol. targets_action (Some (JStr act)) pol \<and> policy_applies p c pol) default_policies =
     filter (policy_applies p c) (filter (targets_action (Some (JStr act))) default_policies)"
  by (simp add: conj_commute)

lemma default_results:
  "spec_results default_policies (Some (JStr act)) p c =
     (let ap = filter (targets_action (Some (JStr act))) default_policies in
      if ap = [] then [DEFAULT_DENY (Some (JStr act))] else map policy_outcome (filter (policy_applies p c) ap))"
  unfolding spec_results_def default_applicable
  by (simp add: Let_def filter_empty_conv) (simp add: default_policies_def)

lemma num_lt_500: "num_lt (Fin 10000 0) a \<Longrightarrow> num_lt (Fin 500 0) a"
  using num_lt_int [of 500 10000] num_lt_trans [of "Fin 500 0" "Fin 10000 0" a] by linarith

text \<open>
  The shipped rules on a transfer with a numeric amount: a recipient without verified
  provenance is rejected; otherwise an amount above 500 escalates; otherwise nothing stands
  against it (and the human review guard of the governor escalates it).
\<close>

theorem default_transfer_decision:
  assumes "jget_opt p ''amount'' = Some (JNum a)"
  shows "default_decision ''TRANSFER_FUNDS'' p c =
     (if untrusted_recipient p c then D_REJECT_AND_REPLAN
      else if num_lt (Fin 500 0) a then D_BLOCK_AND_ESCALATE else D_APPROVE)"
  unfolding default_decision_def default_results
  using assms num_lt_500 [of a]
  by (simp add: default_policies_def targets_action_def policy_applies_def condition_met_def cond_def
      untrusted_recipient_def outcome_action spec_decision_def Let_def split: option.split)

text \<open>
  The shipped rules on a query given as a string: rejected when its upper case contains
  DELETE, DROP, TRUNCATE or ALTER anywhere, and otherwise approved with the constraint of 50
  records.
\<close>

theorem default_query_decision:
  assumes "jget_opt p ''query'' = Some (JStr q)"
  shows "default_decision ''POSTGRESQL_QUERY'' p c =
     (if \<exists>x \<in> set [''DELETE'', ''DROP'', ''TRUNCATE'', ''ALTER'']. sublist x (js_upper q)
      then D_REJECT_AND_REPLAN else D_APPROVE_WITH_CONSTRAINTS)"
proof -
  have up: "js_upper ''DELETE'' = ''DELETE''" "js_upper ''DROP'' = ''DROP''" "js_upper ''TRUNCATE'' = ''TRUNCATE''"
    "js_upper ''ALTER'' = ''ALTER''"
    by (simp_all add: js_upper_def upper_char_def code_def)
  show ?thesis
    unfolding default_decision_def default_results
    by (simp add: default_policies_def targets_action_def policy_applies_def condition_met_def cond_def assms
        contains_met_def js_includes_def up outcome_action spec_decision_def Let_def)
qed

text \<open>
  The shipped rules on the other tools: a database mutation is covered by no rule and
  escalates; reads, tickets, HTTP requests, Slack messages and file operations are approved
  with constraints.
\<close>

theorem default_other_decisions:
  "default_decision ''MODIFY_DATABASE'' p c = D_BLOCK_AND_ESCALATE
   \<and> (\<forall>act \<in> set [''READ_DATABASE'', ''ZENDESK_OPERATOR'', ''HTTP_REQUEST'', ''SLACK_OPERATOR'', ''FILE_SYSTEM_OPERATOR''].
        default_decision act p c = D_APPROVE_WITH_CONSTRAINTS)"
  unfolding default_decision_def default_results
  by (simp add: default_policies_def targets_action_def policy_applies_def outcome_action
      spec_decision_def DEFAULT_DENY_def fixed_result_def Let_def)

end
