(* ===== verification/Sql_Guard.thy ===== *)
theory Sql_Guard
  imports Contracts
begin

section \<open>The query guard of the PostgreSQL operator (core/operator/tools/postgresql.operator.ts)\<close>

text \<open>
  The checks a query passes before the operator connects, and the rewriting after them. The
  keyword patterns of the source are one word between two word boundaries, case ignored;
  the comment patterns are a line comment up to the line end and a block comment up to the
  first closing mark.
\<close>

subsection \<open>Keywords as words\<close>

definition newline :: char where
  "newline = CHR 0x0A"

text \<open>The pattern matches at the front of the text, the character before being given.\<close>

definition word_here :: "char option \<Rightarrow> string \<Rightarrow> string \<Rightarrow> bool" where
  "word_here before kw s \<longleftrightarrow>
     (case before of None \<Rightarrow> True | Some c \<Rightarrow> \<not> word_char c)
     \<and> length kw \<le> length s \<and> js_upper (take (length kw) s) = kw
     \<and> (case drop (length kw) s of [] \<Rightarrow> True | c # _ \<Rightarrow> \<not> word_char c)"

fun word_from :: "char option \<Rightarrow> string \<Rightarrow> string \<Rightarrow> bool" where
  "word_from before kw [] = word_here before kw []"
| "word_from before kw (c # s) = (word_here before kw (c # s) \<or> word_from (Some c) kw s)"

definition contains_keyword :: "string \<Rightarrow> string \<Rightarrow> bool" where
  "contains_keyword kw s = word_from None kw s"

definition forbiddenKeywords :: "string list" where
  "forbiddenKeywords = [''INSERT'', ''UPDATE'', ''DELETE'', ''DROP'', ''ALTER'', ''TRUNCATE'', ''GRANT'',
     ''REVOKE'', ''EXEC'', ''COPY'']"

lemma word_from_split:
  "word_from before kw s \<longleftrightarrow>
     (\<exists>a b. s = a @ b \<and> word_here (if a = [] then before else Some (last a)) kw b)"
proof (induction s arbitrary: before)
  case (Cons c s)
  note IH = Cons.IH
  show ?case (is "?l \<longleftrightarrow> ?r")
  proof
    assume ?l
    then consider "word_here before kw (c # s)" | "word_from (Some c) kw s" by auto
    then show ?r
    proof cases
      case 1
      then show ?thesis by (intro exI [of _ "[]"] exI [of _ "c # s"]) simp
    next
      case 2
      then obtain a b where "s = a @ b" "word_here (if a = [] then Some c else Some (last a)) kw b"
        using Cons by blast
      then show ?thesis by (intro exI [of _ "c # a"] exI [of _ b]) (simp split: if_splits)
    qed
  next
    assume ?r
    then obtain a b where ab: "c # s = a @ b" "word_here (if a = [] then before else Some (last a)) kw b" by blast
    show ?l
    proof (cases a)
      case Nil
      with ab have "b = c # s" "word_here before kw b" by simp_all
      then show ?thesis by simp
    next
      case (Cons d a')
      with ab have "s = a' @ b" "word_here (if a' = [] then Some c else Some (last a')) kw b"
        by (simp_all split: if_splits)
      then have "word_from (Some c) kw s" unfolding IH by blast
      then show ?thesis by simp
    qed
  qed
qed simp

text \<open>The reference reading: the keyword stands in the text as a word of its own.\<close>

lemma contains_keyword_iff:
  "contains_keyword kw s \<longleftrightarrow>
     (\<exists>a w b. s = a @ w @ b \<and> length w = length kw \<and> js_upper w = kw
        \<and> (a = [] \<or> \<not> word_char (last a)) \<and> (b = [] \<or> \<not> word_char (hd b)))"
  (is "?l \<longleftrightarrow> ?r")
proof
  assume ?l
  then obtain a b where ab: "s = a @ b" "word_here (if a = [] then None else Some (last a)) kw b"
    unfolding contains_keyword_def word_from_split by blast
  let ?n = "length kw"
  have "s = a @ take ?n b @ drop ?n b" "length (take ?n b) = ?n" "js_upper (take ?n b) = kw"
    "a = [] \<or> \<not> word_char (last a)" "drop ?n b = [] \<or> \<not> word_char (hd (drop ?n b))"
    using ab by (auto simp: word_here_def split: list.splits if_splits)
  then show ?r by blast
next
  assume ?r
  then obtain a w b where "s = a @ (w @ b)" "length w = length kw" "js_upper w = kw"
    "a = [] \<or> \<not> word_char (last a)" "b = [] \<or> \<not> word_char (hd b)" by blast
  then have "word_here (if a = [] then None else Some (last a)) kw (w @ b)"
    by (auto simp: word_here_def split: list.splits)
  then show ?l unfolding contains_keyword_def word_from_split using \<open>s = a @ (w @ b)\<close> by blast
qed

subsection \<open>The guard\<close>

text \<open>The failure code of the first check a query fails, None when it passes.\<close>

definition sql_guard :: "string \<Rightarrow> string option" where
  "sql_guard query =
     (if \<not> starts_with (js_upper (js_trim query)) ''SELECT''
      then Some ''SQL_GUARD_VIOLATION: Only SELECT queries are permitted.''
      else if js_includes query '';''
           \<and> length (filter (\<lambda>p. p \<noteq> []) (map js_trim (js_split (CHR '';'') query))) > 1
      then Some ''SQL_GUARD_VIOLATION: Stacked queries are prohibited.''
      else map_option (\<lambda>kw. ''SQL_GUARD_VIOLATION: Forbidden keyword '' @ sq @ kw @ sq @ '' detected in read-only context.'')
             (find_first (\<lambda>kw. contains_keyword kw query) forbiddenKeywords))"

lemma sql_guard_pass:
  "sql_guard q = None \<longleftrightarrow>
     starts_with (js_upper (js_trim q)) ''SELECT''
     \<and> (js_includes q '';'' \<longrightarrow> length (filter (\<lambda>p. p \<noteq> []) (map js_trim (js_split (CHR '';'') q))) \<le> 1)
     \<and> (\<forall>kw \<in> set forbiddenKeywords. \<not> contains_keyword kw q)"
  by (auto simp: sql_guard_def find_first_None not_le)

lemma parts_le_1:
  "length (filter (\<lambda>p. p \<noteq> []) (map f ps)) \<le> 1
     \<longleftrightarrow> (\<exists>i. \<forall>j. j < length ps \<and> j \<noteq> i \<longrightarrow> f (ps ! j) = [])"
proof (induction ps)
  case (Cons p ps)
  show ?case (is "?l \<longleftrightarrow> ?r")
  proof (cases "f p = []")
    case True
    have "?r \<longleftrightarrow> (\<exists>i. \<forall>j. j < length ps \<and> j \<noteq> i \<longrightarrow> f (ps ! j) = [])"
    proof
      assume ?r
      then obtain i where i: "\<forall>j. j < length (p # ps) \<and> j \<noteq> i \<longrightarrow> f ((p # ps) ! j) = []" ..
      show "\<exists>i. \<forall>j. j < length ps \<and> j \<noteq> i \<longrightarrow> f (ps ! j) = []"
        by (rule exI [of _ "if i = 0 then length ps else i - 1"]) (use i in \<open>auto dest: spec [of _ "Suc _"]\<close>)
    next
      assume "\<exists>i. \<forall>j. j < length ps \<and> j \<noteq> i \<longrightarrow> f (ps ! j) = []"
      then obtain i where i: "\<forall>j. j < length ps \<and> j \<noteq> i \<longrightarrow> f (ps ! j) = []" ..
      show ?r
        by (rule exI [of _ "Suc i"]) (use i True in \<open>auto simp: nth_Cons split: nat.splits\<close>)
    qed
    then show ?thesis using Cons True by simp
  next
    case False
    have "?r \<longleftrightarrow> (\<forall>q \<in> set ps. f q = [])"
    proof
      assume ?r
      then obtain i where i: "\<forall>j. j < length (p # ps) \<and> j \<noteq> i \<longrightarrow> f ((p # ps) ! j) = []" ..
      then have "i = 0" using False by (metis length_greater_0_conv list.discI nth_Cons_0)
      then show "\<forall>q \<in> set ps. f q = []" using i by (fastforce simp: in_set_conv_nth)
    next
      assume "\<forall>q \<in> set ps. f q = []"
      then show ?r by (intro exI [of _ 0]) (auto simp: nth_Cons split: nat.splits)
    qed
    then show ?thesis using False by (auto simp: filter_empty_conv)
  qed
qed simp

subsection \<open>Stripping comments\<close>

function strip_line_comments :: "string \<Rightarrow> string" where
  "strip_line_comments [] = []"
| "strip_line_comments [c] = [c]"
| "strip_line_comments (c # d # s) =
     (if c = CHR ''-'' \<and> d = CHR ''-'' then strip_line_comments (dropWhile (\<lambda>x. x \<noteq> newline) s)
      else c # strip_line_comments (d # s))"
  by pat_completeness auto
termination
  by (relation "measure length") (auto simp: le_imp_less_Suc length_dropWhile_le le_SucI)

text \<open>The text after the first closing mark of a block comment.\<close>

fun after_close :: "string \<Rightarrow> string option" where
  "after_close (c # d # s) = (if c = CHR ''*'' \<and> d = CHR ''/'' then Some s else after_close (d # s))"
| "after_close _ = None"

lemma after_close_length: "after_close s = Some r \<Longrightarrow> length r < length s"
  by (induction s rule: after_close.induct) (auto split: if_splits)

function strip_block_comments :: "string \<Rightarrow> string" where
  "strip_block_comments [] = []"
| "strip_block_comments [c] = [c]"
| "strip_block_comments (c # d # s) =
     (if c = CHR ''/'' \<and> d = CHR ''*''
      then (case after_close s of
              Some r \<Rightarrow> strip_block_comments r
            | None \<Rightarrow> c # strip_block_comments (d # s))
      else c # strip_block_comments (d # s))"
  by pat_completeness auto
termination
  by (relation "measure length") (auto dest: after_close_length)

definition sanitize :: "string \<Rightarrow> string" where
  "sanitize query = js_trim (strip_block_comments (strip_line_comments (js_trim query)))"

text \<open>The query sent to the database: the sanitized text inside a bounded subquery.\<close>

definition bounded_query :: "string \<Rightarrow> string" where
  "bounded_query query =
     ''SELECT * FROM ('' @ sanitize query @ '') AS _bounded LIMIT ''
       @ num_str (Fin (ct_maxRowsAffected (tool_contract PostgreSQLOperator)) 0)"

lemma strip_line_none:
  assumes "\<not> sublist ''--'' s"
  shows "strip_line_comments s = s"
  using assms
proof (induction s rule: strip_line_comments.induct)
  case (3 c d s)
  then have no: "\<not> (c = CHR ''-'' \<and> d = CHR ''-'')" and "\<not> sublist ''--'' (d # s)"
    by (auto simp: sublist_Cons_right prefix_def)
  then show ?case using 3 by auto
qed auto

lemma strip_block_none:
  assumes "\<not> sublist ''/*'' s"
  shows "strip_block_comments s = s"
  using assms
proof (induction s rule: strip_block_comments.induct)
  case (3 c d s)
  then have no: "\<not> (c = CHR ''/'' \<and> d = CHR ''*'')" and "\<not> sublist ''/*'' (d # s)"
    by (auto simp: sublist_Cons_right prefix_def)
  then show ?case using 3 by auto
qed auto

text \<open>After stripping, no line comment is left.\<close>

lemma strip_line_hd:
  "strip_line_comments s \<noteq> [] \<Longrightarrow> s \<noteq> [] \<and> (hd (strip_line_comments s) = hd s \<or> hd (strip_line_comments s) = newline)"
proof (induction s rule: strip_line_comments.induct)
  case (3 c d s)
  let ?t = "dropWhile (\<lambda>x. x \<noteq> newline) s"
  show ?case
  proof (cases "c = CHR ''-'' \<and> d = CHR ''-''")
    case True
    then have "strip_line_comments ?t \<noteq> []" using 3(3) by simp
    moreover from this have "?t \<noteq> []" by (metis strip_line_comments.simps(1))
    then have "hd ?t = newline" using hd_dropWhile [of "\<lambda>x. x \<noteq> newline" s] by blast
    ultimately show ?thesis using 3(1) True by auto
  qed auto
qed auto

lemma strip_line_clean: "\<not> sublist ''--'' (strip_line_comments s)"
proof (induction s rule: strip_line_comments.induct)
  case (3 c d s)
  show ?case
  proof (cases "c = CHR ''-'' \<and> d = CHR ''-''")
    case True
    then show ?thesis using 3(1) by simp
  next
    case False
    then have IH: "\<not> sublist ''--'' (strip_line_comments (d # s))" using 3(2) by simp
    have "\<not> prefix ''--'' (c # strip_line_comments (d # s))"
    proof
      assume "prefix ''--'' (c # strip_line_comments (d # s))"
      then have c: "c = CHR ''-''" and "strip_line_comments (d # s) \<noteq> []"
        and "hd (strip_line_comments (d # s)) = CHR ''-''"
        by (auto simp: prefix_def Cons_eq_append_conv)
      then have "d = CHR ''-''" using strip_line_hd [of "d # s"] by (auto simp: newline_def)
      with c False show False by simp
    qed
    moreover have "strip_line_comments (c # d # s) = c # strip_line_comments (d # s)"
      using False by auto
    ultimately show ?thesis using IH by (simp add: sublist_Cons_right)
  qed
qed (auto simp: sublist_Cons_right)

subsection \<open>What the guard promises\<close>

text \<open>
  C30: a query passes the guard exactly when its trimmed text begins with SELECT (case
  ignored), at most one of its semicolon-separated parts is not blank, and none of the ten
  forbidden words occurs in it as a word of its own, case ignored.
\<close>

theorem sql_guard_accepts_iff:
  "sql_guard q = None \<longleftrightarrow>
     (\<exists>r. js_upper (js_trim q) = ''SELECT'' @ r)
     \<and> (\<exists>i. \<forall>j. j < length (js_split (CHR '';'') q) \<and> j \<noteq> i \<longrightarrow> js_trim (js_split (CHR '';'') q ! j) = [])
     \<and> \<not> (\<exists>kw \<in> set forbiddenKeywords. \<exists>a w b. q = a @ w @ b \<and> length w = length kw \<and> js_upper w = kw
            \<and> (a = [] \<or> \<not> word_char (last a)) \<and> (b = [] \<or> \<not> word_char (hd b)))"
  (is "_ \<longleftrightarrow> ?sel \<and> ?one \<and> ?free")
proof -
  let ?ps = "js_split (CHR '';'') q"
  have sel: "starts_with (js_upper (js_trim q)) ''SELECT'' \<longleftrightarrow> ?sel"
    by (auto simp: starts_with_def prefix_def)
  have free: "(\<forall>kw \<in> set forbiddenKeywords. \<not> contains_keyword kw q) \<longleftrightarrow> ?free"
    unfolding contains_keyword_iff by blast
  have one: "(js_includes q '';'' \<longrightarrow> length (filter (\<lambda>p. p \<noteq> []) (map js_trim ?ps)) \<le> 1) \<longleftrightarrow> ?one"
  proof (cases "js_includes q '';''")
    case False
    then have "CHR '';'' \<notin> set q" by (auto simp: js_includes_def sublist_def in_set_conv_decomp)
    then have "?ps = [q]" by (rule split_no_sep)
    then show ?thesis using False by auto
  next
    case True
    then show ?thesis using parts_le_1 [of js_trim ?ps] by simp
  qed
  show ?thesis unfolding sql_guard_pass sel free one ..
qed

theorem sql_guard_accepts_iff_witness:
  "sql_guard ''select a;'' = None \<and> (\<exists>r. js_upper (js_trim ''select a;'') = ''SELECT'' @ r)
   \<and> (\<exists>i. \<forall>j. j < length (js_split (CHR '';'') ''select a;'') \<and> j \<noteq> i
        \<longrightarrow> js_trim (js_split (CHR '';'') ''select a;'' ! j) = [])"
proof -
  have "sql_guard ''select a;'' = None" by code_simp
  then show ?thesis using sql_guard_accepts_iff [of "''select a;''"] by blast
qed

text \<open>
  The guard reads the query before its comments are stripped, so a forbidden word spliced
  by a block comment passes it and stands whole in the text sent to the database.
\<close>

theorem comment_splices_keyword:
  "sql_guard ''SELECT 1 DEL/**/ETE'' = None
   \<and> contains_keyword ''DELETE'' (sanitize ''SELECT 1 DEL/**/ETE'')"
  by code_simp

end
