(* ===== verification/Tools.thy ===== *)
theory Tools
  imports Sql_Guard
begin

section \<open>The tool adapters (core/operator/tools)\<close>

text \<open>
  Every adapter's \<open>execute\<close> and \<open>rollback\<close>, on the parameters as the proposal carries
  them. What the adapters ask of the outside during one call is a \<open>tool_env\<close>: the clock,
  the URL parser of the platform, the answers of the HTTP client and of the analytics
  database, symbolic links and directories of the file system, the platform's texts for a
  URL or an argument it refuses. Files are in the world.
  A thrown error is \<open>Inl\<close>. The locale \<open>tool_adapter\<close> is the contract the operator
  service relies on; every adapter interprets it.
\<close>

datatype tool_status = TS_SUCCESS | TS_PARTIAL_SUCCESS | TS_FAILED

record tool_result =
  tr_status :: tool_status
  tr_completedSteps :: "string list"
  tr_failedStep :: "string option"
  tr_failureCode :: "string option"
  tr_errorClassification :: "string option"
  tr_rollbackAvailable :: bool
  tr_data :: "json option"
  tr_error :: "string option"

record tool_context =
  tx_constraints :: "(string \<times> json) list option"
  tx_rollbackActive :: bool
  tx_rollbackData :: "json option"
  tx_providerIdempotencyKey :: "string option"

record tool_env =
  te_now :: int
  te_random :: int
  te_url :: "string \<Rightarrow> (string \<times> string) option"
  te_url_message :: "string \<Rightarrow> string"
  te_allowlist :: "string option"
  te_axios :: "json \<Rightarrow> string + json"
  te_pg_url :: "string option"
  te_pg :: "string \<Rightarrow> json \<Rightarrow> string + (json \<times> int option)"
  te_base :: string
  te_link :: "string \<Rightarrow> string"
  te_dir :: "string \<Rightarrow> bool"
  te_type_message :: "string \<Rightarrow> json option \<Rightarrow> string"

definition tool_ok :: "string list \<Rightarrow> bool \<Rightarrow> json option \<Rightarrow> tool_result" where
  "tool_ok steps rollback d = \<lparr>tr_status = TS_SUCCESS, tr_completedSteps = steps, tr_failedStep = None,
     tr_failureCode = None, tr_errorClassification = None, tr_rollbackAvailable = rollback, tr_data = d,
     tr_error = None\<rparr>"

definition tool_failed :: "string list \<Rightarrow> string \<Rightarrow> string \<Rightarrow> string option \<Rightarrow> tool_result" where
  "tool_failed steps step fcode cls = \<lparr>tr_status = TS_FAILED, tr_completedSteps = steps,
     tr_failedStep = Some step, tr_failureCode = Some fcode, tr_errorClassification = cls,
     tr_rollbackAvailable = False, tr_data = None, tr_error = None\<rparr>"

lemma tool_result_simps [simp]:
  "tr_status (tool_ok st r d) = TS_SUCCESS" "tr_completedSteps (tool_ok st r d) = st"
  "tr_failedStep (tool_ok st r d) = None" "tr_failureCode (tool_ok st r d) = None"
  "tr_errorClassification (tool_ok st r d) = None" "tr_rollbackAvailable (tool_ok st r d) = r"
  "tr_data (tool_ok st r d) = d" "tr_error (tool_ok st r d) = None"
  "tr_status (tool_failed st f c k) = TS_FAILED" "tr_completedSteps (tool_failed st f c k) = st"
  "tr_failedStep (tool_failed st f c k) = Some f" "tr_failureCode (tool_failed st f c k) = Some c"
  "tr_errorClassification (tool_failed st f c k) = k" "\<not> tr_rollbackAvailable (tool_failed st f c k)"
  "tr_data (tool_failed st f c k) = None" "tr_error (tool_failed st f c k) = None"
  by (simp_all add: tool_ok_def tool_failed_def)

text \<open>Destructuring undefined or null throws; of any other value it reads properties.\<close>

definition destructure :: "string \<Rightarrow> json option \<Rightarrow> exn option" where
  "destructure field v =
     (case v of
        None \<Rightarrow> Some (JsError (''Cannot destructure property '' @ sq @ field @ sq @ '' of '' @ sq @ ''parameters''
                  @ sq @ '' as it is undefined.''))
      | Some JNull \<Rightarrow> Some (JsError (''Cannot destructure property '' @ sq @ field @ sq @ '' of '' @ sq @ ''parameters''
                  @ sq @ '' as it is null.''))
      | _ \<Rightarrow> None)"

text \<open>A step of an adapter that may throw and may write files.\<close>

type_synonym adapter = "tool_env \<Rightarrow> json option \<Rightarrow> tool_context \<Rightarrow> world \<Rightarrow> (exn + tool_result) \<times> world"

definition guard_parameters :: "string \<Rightarrow> json option \<Rightarrow> world
    \<Rightarrow> (exn + tool_result) \<times> world \<Rightarrow> (exn + tool_result) \<times> world" where
  "guard_parameters field p w r = (case destructure field p of Some e \<Rightarrow> (Inl e, w) | None \<Rightarrow> r)"

subsection \<open>Reading and modifying the mock database\<close>

text \<open>\<open>Array.from\<close> of a length: truncated towards zero, nothing below zero or for NaN.\<close>

fun array_length :: "num \<Rightarrow> nat" where
  "array_length (Fin m e) = (if m \<le> 0 then 0 else nat (if 0 \<le> e then m * 10 ^ nat e else m div 10 ^ nat (- e)))"
| "array_length _ = 0"

definition num_min :: "num \<Rightarrow> num \<Rightarrow> num" where
  "num_min a b = (if a = NaN \<or> b = NaN then NaN else if num_lt b a then b else a)"

definition mock_rows :: "json option \<Rightarrow> json" where
  "mock_rows maxLimit = JArr (map (\<lambda>i. JObj [(''id'', jnat (int i))])
     [0..<array_length (num_min (Fin 10 0) (case maxLimit of None \<Rightarrow> NaN | Some v \<Rightarrow> js_number v))])"

definition read_database :: adapter where
  "read_database env p ctx w = guard_parameters ''query'' p w
     (let maxLimit = coalesce (case tx_constraints ctx of None \<Rightarrow> None | Some cs \<Rightarrow> map_of cs ''maxRecords'') (Some (jnat 1000))
      in if \<not> truthy_opt (jget_opt p ''query'')
         then (Inr (tool_failed [''initialize''] ''validate_parameters'' ''MISSING_QUERY'' None), w)
         else (Inr (tool_ok [''initialize'', ''validate_parameters'', ''execute_query''] False (Some (mock_rows maxLimit))), w))"

definition modify_database :: adapter where
  "modify_database env p ctx w = guard_parameters ''table'' p w
     (if \<not> truthy_opt (jget_opt p ''table'') \<or> \<not> truthy_opt (jget_opt p ''mutationType'') \<or> \<not> truthy_opt (jget_opt p ''payload'')
      then (Inr (tool_failed [''initialize''] ''validate_parameters'' ''MISSING_PARAMETERS'' None), w)
      else (Inr (tool_ok [''initialize'', ''validate_parameters'', ''execute_mutation''] True None), w))"

subsection \<open>PostgreSQL\<close>

definition postgresql_query :: adapter where
  "postgresql_query env p ctx w = guard_parameters ''query'' p w
     (case jget_opt p ''query'' of
        Some (JStr q) \<Rightarrow>
          if q = [] then (Inr (tool_failed [''initialize''] ''validate_parameters'' ''INVALID_QUERY_FORMAT'' None), w)
          else (case sql_guard q of
            Some fcode \<Rightarrow> (Inr (tool_failed [''initialize''] ''validate_parameters'' fcode None), w)
          | None \<Rightarrow>
              if (case te_pg_url env of None \<Rightarrow> True | Some u \<Rightarrow> u = [])
              then (Inl (JsError ''ANALYTICS_DATABASE_URL must be configured. The PostgreSQL operator must not connect to the application database.''), w)
              else if sanitize q = []
              then (Inr (tool_failed [''initialize''] ''validate_parameters'' ''EMPTY_QUERY_AFTER_SANITIZATION'' None), w)
              else (case te_pg env (bounded_query q)
                           (case jget_opt p ''values'' of Some v \<Rightarrow> if truthy v then v else JArr [] | None \<Rightarrow> JArr []) of
                  Inl m \<Rightarrow> (Inr (tool_failed [''initialize'', ''validate_parameters''] ''execute_postgres_query'' m None), w)
                | Inr (rows, rowCount) \<Rightarrow>
                    (case rowCount of
                       Some n \<Rightarrow>
                         if n > ct_maxRowsAffected (tool_contract PostgreSQLOperator)
                         then (Inr (tool_failed [''initialize'', ''validate_parameters''] ''execute_postgres_query''
                                (''Execution exceeded maxRowsAffected threshold. Limit: ''
                                  @ num_str (Fin (ct_maxRowsAffected (tool_contract PostgreSQLOperator)) 0)
                                  @ '', Actual: '' @ num_str (Fin n 0)) None), w)
                         else (Inr (tool_ok [''initialize'', ''validate_parameters'', ''execute_postgres_query''] False (Some rows)), w)
                     | None \<Rightarrow> (Inr (tool_ok [''initialize'', ''validate_parameters'', ''execute_postgres_query''] False (Some rows)), w))))
      | _ \<Rightarrow> (Inr (tool_failed [''initialize''] ''validate_parameters'' ''INVALID_QUERY_FORMAT'' None), w))"

subsection \<open>HTTP\<close>

definition forbiddenHostnames :: "string list" where
  "forbiddenHostnames = [''localhost'', ''127.0.0.1'', ''169.254.169.254'', ''0.0.0.0'', ''[::1]'']"

text \<open>The pattern of the private block 172.16 to 172.31.\<close>

definition private_172 :: "string \<Rightarrow> bool" where
  "private_172 h \<longleftrightarrow>
     (\<exists>x \<in> set ([''16'', ''17'', ''18'', ''19''] @ map (\<lambda>n. [CHR ''2'', digit n]) [0..<10] @ [''30'', ''31'']).
        starts_with h (''172.'' @ x @ ''.''))"

text \<open>The message of the first rule a parsed URL breaks.\<close>

definition ssrf_guard :: "string option \<Rightarrow> string \<Rightarrow> string \<Rightarrow> string option" where
  "ssrf_guard allowlistRaw protocol host =
     (let hostname = js_lower host in
      if protocol \<noteq> ''https:'' then Some ''SSRF_GUARD: Only HTTPS URLs are allowed.''
      else if hostname \<in> set forbiddenHostnames then Some ''SSRF_GUARD: Localhost and metadata URLs are forbidden.''
      else if starts_with hostname ''10.'' \<or> starts_with hostname ''192.168.'' \<or> private_172 hostname
        then Some ''SSRF_GUARD: Internal network IPs are forbidden.''
      else (case allowlistRaw of
              None \<Rightarrow> None
            | Some raw \<Rightarrow>
                if raw = [] \<or> hostname \<in> set (map (\<lambda>h. js_lower (js_trim h)) (js_split (CHR '','') raw)) then None
                else Some (''SSRF_GUARD: Hostname '' @ sq @ hostname @ sq @ '' is not in the TARGET_URL_ALLOWLIST.'')))"

definition http_config :: "json option \<Rightarrow> string \<Rightarrow> json" where
  "http_config p url = obj_literal
     [(''url'', Some (JStr url)),
      (''method'', Some (or_else (jget_opt p ''method'') (JStr ''GET''))),
      (''headers'', Some (or_else (jget_opt p ''headers'') (JObj []))),
      (''data'', jget_opt p ''data''),
      (''timeout'', Some (jnat (ct_maxExecutionTimeMs (tool_contract HTTPOperator)))),
      (''maxRedirects'', Some (jnat 0))]"

definition http_request :: adapter where
  "http_request env p ctx w = guard_parameters ''url'' p w
     (case jget_opt p ''url'' of
        Some (JStr url) \<Rightarrow>
          if url = [] then (Inr (tool_failed [''initialize''] ''validate_parameters'' ''MISSING_URL'' None), w)
          else (let failed = (\<lambda>m. (Inr (tool_failed [''initialize'', ''validate_parameters''] ''execute_http_request'' m None), w))
             in case te_url env url of
                  None \<Rightarrow> failed (te_url_message env url)
                | Some (protocol, host) \<Rightarrow>
                    (case ssrf_guard (te_allowlist env) protocol host of
                       Some m \<Rightarrow> failed m
                     | None \<Rightarrow>
                         (case te_axios env (http_config p url) of
                            Inl m \<Rightarrow> failed m
                          | Inr response \<Rightarrow>
                              (Inr (tool_ok [''initialize'', ''validate_parameters'', ''execute_http_request''] False
                                 (Some (obj_literal [(''status'', jget response ''status''), (''data'', jget response ''data'')]))), w))))
      | _ \<Rightarrow> (Inr (tool_failed [''initialize''] ''validate_parameters'' ''MISSING_URL'' None), w))"

subsection \<open>Slack and Zendesk\<close>

definition slack_operator :: adapter where
  "slack_operator env p ctx w = guard_parameters ''webhookUrl'' p w
     (if \<not> truthy_opt (jget_opt p ''webhookUrl'') \<or> \<not> truthy_opt (jget_opt p ''message'')
      then (Inl (JsError (''Missing required parameters: '' @ sq @ ''webhookUrl'' @ sq @ '', '' @ sq @ ''message'' @ sq)), w)
      else (case jget_opt p ''webhookUrl'' of
        Some (JStr url) \<Rightarrow>
          if \<not> starts_with url slack_prefix
          then (Inl (JsError (''Security Violation: Slack webhook URL must start with '' @ sq @ slack_prefix @ sq)), w)
          else (case te_axios env (JObj [(''url'', JStr url), (''method'', JStr ''post''),
                   (''data'', obj_literal [(''text'', jget_opt p ''message''),
                      (''channel'', if truthy_opt (jget_opt p ''channel'') then jget_opt p ''channel'' else None)])]) of
                  Inl m \<Rightarrow> (Inl (JsError m), w)
                | Inr response \<Rightarrow> (Inr (tool_ok [''validate_url'', ''post_webhook''] False None), w))
      | _ \<Rightarrow> (Inl (JsError ''webhookUrl.startsWith is not a function''), w)))"

definition zendesk_operator :: adapter where
  "zendesk_operator env p ctx w = guard_parameters ''operation'' p w
     (if \<not> truthy_opt (jget_opt p ''operation'')
      then (Inl (JsError (''Missing required parameter: '' @ sq @ ''operation'' @ sq @ '' (CREATE, RESOLVE)'')), w)
      else if jget_opt p ''operation'' = Some (JStr ''CREATE'')
      then (if \<not> truthy_opt (jget_opt p ''subject'') \<or> \<not> truthy_opt (jget_opt p ''description'')
            then (Inl (JsError (''CREATE requires '' @ sq @ ''subject'' @ sq @ '' and '' @ sq @ ''description'' @ sq)), w)
            else (Inr (tool_ok [''validate_payload'', ''mock_api_create''] False
                   (Some (JObj [(''ticketId'', JStr (''ZD-'' @ num_str (Fin (te_random env) 0)))]))), w))
      else if jget_opt p ''operation'' = Some (JStr ''RESOLVE'')
      then (if \<not> truthy_opt (jget_opt p ''ticketId'')
            then (Inl (JsError (''RESOLVE requires '' @ sq @ ''ticketId'' @ sq)), w)
            else (Inr (tool_ok [''validate_payload'', ''mock_api_resolve''] False None), w))
      else (Inl (JsError (''Unsupported operation: '' @ opt_string (jget_opt p ''operation'') @ ''. Allowed: CREATE, RESOLVE.'')), w))"

subsection \<open>Funds transfer\<close>

definition js_num_gt :: "num \<Rightarrow> json \<Rightarrow> bool" where
  "js_num_gt a v = js_gt (JNum a) v"

definition transfer_funds :: adapter where
  "transfer_funds env p ctx w = guard_parameters ''amount'' p w
     (let maxAmount = (case coalesce (case tx_constraints ctx of None \<Rightarrow> None | Some cs \<Rightarrow> map_of cs ''maxAmount'') None of
                         None \<Rightarrow> JNum PosInf | Some v \<Rightarrow> v)
      in case jget_opt p ''amount'' of
        Some (JNum amount) \<Rightarrow>
          if num_le amount (Fin 0 0)
          then (Inr (tool_failed [''initialize''] ''validate_parameters'' ''INVALID_AMOUNT'' None), w)
          else if \<not> truthy_opt (jget_opt p ''recipient'')
          then (Inr (tool_failed [''initialize''] ''validate_parameters'' ''MISSING_PARAMETERS'' None), w)
          else if js_num_gt amount maxAmount
          then (Inr (tool_failed [''initialize'', ''validate_parameters''] ''check_constraints'' ''EXCEEDS_MAX_AMOUNT'' (Some ''FATAL'')), w)
          else if js_num_gt amount (jnat 50000)
          then (Inr (tool_failed [''initialize'', ''validate_parameters'', ''check_constraints'', ''live_authorization_recheck'']
                  ''pre_flight_balance_check'' ''INSUFFICIENT_FUNDS_AT_EXECUTION'' (Some ''FATAL'')), w)
          else (Inr (tool_ok [''initialize'', ''validate_parameters'', ''check_constraints'', ''live_authorization_recheck'',
                   ''pre_flight_balance_check'', ''execute_transfer'', ''post_flight_confirmation''] True
                  (Some (JObj [(''transactionId'', JStr (''txn_'' @ num_str (Fin (te_now env) 0) @ ''_''
                     @ (case tx_providerIdempotencyKey ctx of None \<Rightarrow> ''undefined'' | Some k \<Rightarrow> k)))]))), w)
      | _ \<Rightarrow> (Inr (tool_failed [''initialize''] ''validate_parameters'' ''MISSING_PARAMETERS'' None), w))"

end
