(* ===== verification/File_System.thy ===== *)
theory File_System
  imports Tools
begin

section \<open>The sandboxed file operator (core/operator/tools/filesystem.operator.ts)\<close>

text \<open>
  Path resolution, the sandbox check, reading, writing and rolling back. Paths are absolute
  POSIX paths; \<open>te_link\<close> maps a path to what its symbolic links lead to, \<open>te_dir\<close> tells the
  directories (the sandbox itself exists after the mkdir of every call). A failure of the
  operating system other than a missing entry or a directory in place of a file is not
  modelled.
\<close>

subsection \<open>Paths\<close>

definition seg_step :: "string list \<Rightarrow> string \<Rightarrow> string list" where
  "seg_step acc s = (if s = [] \<or> s = ''.'' then acc else if s = ''..'' then butlast acc else acc @ [s])"

definition slash :: char where
  "slash = CHR ''/''"

definition path_of :: "string list \<Rightarrow> string" where
  "path_of segs = slash # js_join [slash] segs"

text \<open>\<open>path.resolve(base, name)\<close> for an absolute base.\<close>

definition path_resolve :: "string \<Rightarrow> string \<Rightarrow> string" where
  "path_resolve base name =
     path_of (foldl seg_step [] (js_split slash (if starts_with name [slash] then name else base @ [slash] @ name)))"

definition path_dirname :: "string \<Rightarrow> string" where
  "path_dirname p = path_of (butlast (filter (\<lambda>s. s \<noteq> []) (js_split slash p)))"

definition fs_exists :: "tool_env \<Rightarrow> world \<Rightarrow> string \<Rightarrow> bool" where
  "fs_exists env w p \<longleftrightarrow> te_link env p = te_base env \<or> te_dir env (te_link env p) \<or> files w (te_link env p) \<noteq> None"

definition ENOENT :: "string \<Rightarrow> string \<Rightarrow> string" where
  "ENOENT op p = ''ENOENT: no such file or directory, '' @ op @ '' '' @ sq @ p @ sq"

definition EISDIR :: "string \<Rightarrow> exn" where
  "EISDIR op = JsError (''EISDIR: illegal operation on a directory, '' @ op)"

definition is_directory :: "tool_env \<Rightarrow> string \<Rightarrow> bool" where
  "is_directory env p \<longleftrightarrow> te_link env p = te_base env \<or> te_dir env (te_link env p)"

definition resolveSafePath :: "tool_env \<Rightarrow> world \<Rightarrow> json option \<Rightarrow> exn + string" where
  "resolveSafePath env w filename =
     (case filename of
        Some (JStr name) \<Rightarrow>
          (let safePath = path_resolve (te_base env) name in
           if \<not> starts_with safePath (te_base env)
           then Inl (JsError (''Security Violation: Attempted to access path outside sandbox: '' @ name))
           else if fs_exists env w safePath
           then (if \<not> starts_with (te_link env safePath) (te_base env)
                 then Inl (JsError (''Security Violation: Symlink resolved outside sandbox: '' @ name))
                 else Inr (te_link env safePath))
           else (let parentDir = path_dirname safePath in
                 if \<not> fs_exists env w parentDir then Inl (JsError (ENOENT ''realpath'' parentDir))
                 else if \<not> starts_with (te_link env parentDir) (te_base env)
                 then Inl (JsError (''Security Violation: Symlink directory resolved outside sandbox: '' @ name))
                 else Inr safePath))
      | _ \<Rightarrow> Inl (JsError (te_type_message env ''paths[1]'' filename)))"

subsection \<open>Files\<close>

text \<open>The UTF-8 length of a text.\<close>

definition utf8_length :: "string \<Rightarrow> nat" where
  "utf8_length s = sum_list (map (\<lambda>c. if code c < 128 then 1 else 2) s)"

definition fs_write :: "tool_env \<Rightarrow> string \<Rightarrow> string \<Rightarrow> world \<Rightarrow> world" where
  "fs_write env p s w = w\<lparr>files := (files w)(te_link env p \<mapsto> s)\<rparr>"

definition max_file :: nat where
  "max_file = 5 * 1024 * 1024"

definition write_file :: "tool_env \<Rightarrow> json option \<Rightarrow> json option \<Rightarrow> string \<Rightarrow> world \<Rightarrow> (exn + tool_result) \<times> world" where
  "write_file env filename content safePath w =
     (case content of
        None \<Rightarrow> (Inl (JsError (''WRITE operation requires '' @ sq @ ''content'' @ sq @ '' parameter'')), w)
      | Some c \<Rightarrow>
          (let rollbackData =
             (case (if is_directory env safePath then None else files w (te_link env safePath)) of
                Some existing \<Rightarrow> obj_literal [(''operation'', Some (JStr ''RESTORE'')), (''filename'', filename),
                                          (''content'', Some (JStr existing))]
              | None \<Rightarrow> obj_literal [(''operation'', Some (JStr ''DELETE'')), (''filename'', filename)])
           in case c of
                JStr s \<Rightarrow>
                  if is_directory env safePath then (Inl (EISDIR (''open '' @ sq @ safePath @ sq)), w)
                  else (Inr (tool_ok [''resolve_path'', ''write_file''] True
                          (Some (JObj [(''rollbackData'', rollbackData)]))), fs_write env safePath s w)
              | _ \<Rightarrow> (Inl (JsError (te_type_message env ''data'' content)), w)))"

definition read_file :: "tool_env \<Rightarrow> json option \<Rightarrow> string \<Rightarrow> world \<Rightarrow> (exn + tool_result) \<times> world" where
  "read_file env filename safePath w =
     (if is_directory env safePath then (Inl (EISDIR ''read''), w)
      else (case files w (te_link env safePath) of
        None \<Rightarrow> (Inl (JsError (''File not found: '' @ opt_string filename)), w)
      | Some s \<Rightarrow>
          if utf8_length s > max_file
          then (Inl (JsError (''Security Violation: File size ('' @ num_str (Fin (int (utf8_length s)) 0)
                   @ '' bytes) exceeds maximum context window size of 5MB.'')), w)
          else (Inr (tool_ok [''resolve_path'', ''read_file''] False (Some (JObj [(''content'', JStr s)]))), w)))"

definition filesystem_operator :: adapter where
  "filesystem_operator env p ctx w = guard_parameters ''operation'' p w
     (let operation = jget_opt p ''operation''; filename = jget_opt p ''filename'' in
      if \<not> truthy_opt operation \<or> \<not> truthy_opt filename
      then (Inl (JsError (''Missing required parameters: '' @ sq @ ''operation'' @ sq @ '', '' @ sq @ ''filename'' @ sq)), w)
      else (case resolveSafePath env w filename of
        Inl e \<Rightarrow> (Inl e, w)
      | Inr safePath \<Rightarrow>
          if operation = Some (JStr ''WRITE'') then write_file env filename (jget_opt p ''content'') safePath w
          else if operation = Some (JStr ''READ'') then read_file env filename safePath w
          else (Inl (JsError (''Unsupported operation: '' @ opt_string operation @ ''. Allowed: READ, WRITE.'')), w)))"

definition filesystem_rollback :: "tool_env \<Rightarrow> json option \<Rightarrow> world \<Rightarrow> bool \<times> world" where
  "filesystem_rollback env rollbackData w =
     (if \<not> truthy_opt rollbackData then (False, w)
      else (case resolveSafePath env w (jget_opt rollbackData ''filename'') of
        Inl e \<Rightarrow> (False, w)
      | Inr safePath \<Rightarrow>
          if jget_opt rollbackData ''operation'' = Some (JStr ''DELETE'')
          then (if is_directory env safePath \<or> files w (te_link env safePath) = None then (False, w)
                else (True, w\<lparr>files := (files w)(safePath := None)\<rparr>))
          else if jget_opt rollbackData ''operation'' = Some (JStr ''RESTORE'')
          then (case jget_opt rollbackData ''content'' of
                  Some (JStr s) \<Rightarrow> if is_directory env safePath then (False, w) else (True, fs_write env safePath s w)
                | _ \<Rightarrow> (False, w))
          else (True, w)))"

subsection \<open>All adapters\<close>

fun tool_execute :: "tool \<Rightarrow> adapter" where
  "tool_execute ReadDatabaseTool = read_database"
| "tool_execute ModifyDatabaseTool = modify_database"
| "tool_execute PostgreSQLOperator = postgresql_query"
| "tool_execute HTTPOperator = http_request"
| "tool_execute FileSystemOperator = filesystem_operator"
| "tool_execute SlackOperator = slack_operator"
| "tool_execute ZendeskOperator = zendesk_operator"
| "tool_execute TransferFundsOperator = transfer_funds"

text \<open>
  The rollbacks; the answer tells whether the action was undone. The mock refund of a transfer
  only logs, reading the parameters it logs.
\<close>

type_synonym rollback = "tool_env \<Rightarrow> json option \<Rightarrow> tool_context \<Rightarrow> world \<Rightarrow> (exn + bool) \<times> world"

definition modify_rollback :: rollback where
  "modify_rollback env p ctx w = (Inr True, w)"

definition transfer_rollback :: rollback where
  "transfer_rollback env p ctx w =
     (case p of
        None \<Rightarrow> (Inl (JsError (''Cannot read properties of undefined (reading '' @ sq @ ''amount'' @ sq @ '')'')), w)
      | Some JNull \<Rightarrow> (Inl (JsError (''Cannot read properties of null (reading '' @ sq @ ''amount'' @ sq @ '')'')), w)
      | _ \<Rightarrow> (Inr True, w))"

definition slack_rollback :: rollback where
  "slack_rollback env p ctx w = (Inr False, w)"

definition zendesk_rollback :: rollback where
  "zendesk_rollback env p ctx w = (Inr False, w)"

fun tool_rollback :: "tool \<Rightarrow> rollback option" where
  "tool_rollback ModifyDatabaseTool = Some modify_rollback"
| "tool_rollback TransferFundsOperator = Some transfer_rollback"
| "tool_rollback FileSystemOperator = Some (\<lambda>env p ctx w. map_prod Inr id (filesystem_rollback env (tx_rollbackData ctx) w))"
| "tool_rollback SlackOperator = Some slack_rollback"
| "tool_rollback ZendeskOperator = Some zendesk_rollback"
| "tool_rollback _ = None"

subsection \<open>The contract of an adapter\<close>

text \<open>
  A failed result offers no rollback and names the step and the code; a result is a success
  or a failure, never partial; an adapter touches files only, and none when it throws or
  fails.
\<close>

locale tool_adapter =
  fixes exec :: adapter
  assumes failed_shape:
      "exec env p ctx w = (Inr r, w') \<Longrightarrow> tr_status r = TS_FAILED \<Longrightarrow>
         \<not> tr_rollbackAvailable r \<and> tr_failedStep r \<noteq> None \<and> tr_failureCode r \<noteq> None \<and> tr_data r = None \<and> w' = w"
    and ok_shape:
      "exec env p ctx w = (Inr r, w') \<Longrightarrow> tr_status r = TS_SUCCESS \<Longrightarrow>
         tr_failedStep r = None \<and> tr_failureCode r = None \<and> tr_errorClassification r = None"
    and never_partial: "exec env p ctx w = (Inr r, w') \<Longrightarrow> tr_status r \<noteq> TS_PARTIAL_SUCCESS"
    and no_layer_error: "exec env p ctx w = (Inr r, w') \<Longrightarrow> tr_error r = None"
    and throws_untouched: "exec env p ctx w = (Inl e, w') \<Longrightarrow> w' = w"
    and files_only: "exec env p ctx w = (x, w') \<Longrightarrow> \<exists>f. w' = w\<lparr>files := f\<rparr>"
begin

lemma rollback_only_after_success:
  "exec env p ctx w = (Inr r, w') \<Longrightarrow> tr_rollbackAvailable r \<Longrightarrow> tr_status r = TS_SUCCESS"
  using failed_shape never_partial by (cases "tr_status r") blast+

lemma changed_files_mean_success:
  assumes "exec env p ctx w = (x, w')" and "files w' \<noteq> files w"
  shows "\<exists>r. x = Inr r \<and> tr_status r = TS_SUCCESS"
proof (cases x)
  case (Inl e)
  then show ?thesis using assms throws_untouched by fastforce
next
  case (Inr r)
  then show ?thesis using assms failed_shape [of env p ctx w r w'] never_partial [of env p ctx w r w']
    by (cases "tr_status r") auto
qed

lemma status_cases:
  "exec env p ctx w = (Inr r, w') \<Longrightarrow> tr_status r = TS_SUCCESS \<or> (tr_status r = TS_FAILED \<and> w' = w)"
  using failed_shape never_partial by (cases "tr_status r") blast+

end

text \<open>One outcome in shape; every branch of an adapter is one of the four cases below.\<close>

definition shaped :: "world \<Rightarrow> (exn + tool_result) \<times> world \<Rightarrow> bool" where
  "shaped w xw = (case xw of
     (Inl e, w') \<Rightarrow> w' = w
   | (Inr r, w') \<Rightarrow> (w' = w \<and> (\<exists>st f c k. r = tool_failed st f c k)) \<or> ((\<exists>f. w' = w\<lparr>files := f\<rparr>) \<and> (\<exists>st b d. r = tool_ok st b d)))"

lemma shaped_throw [simp]: "shaped w (Inl e, w)"
  by (simp add: shaped_def)

lemma shaped_failed [simp]: "shaped w (Inr (tool_failed st f c k), w)"
  by (simp add: shaped_def) blast

lemma shaped_ok [simp]: "shaped w (Inr (tool_ok st b d), w)"
  by (simp add: shaped_def exI [of _ "files w"]) blast

lemma shaped_write [simp]: "shaped w (Inr (tool_ok st b d), fs_write env p s w)"
  by (simp add: shaped_def fs_write_def) blast

lemma shaped_guard [simp]: "shaped w r \<Longrightarrow> shaped w (guard_parameters f p w r)"
  by (simp add: guard_parameters_def split: option.split)

lemma tool_adapterI:
  assumes "\<And>env p ctx w. shaped w (exec env p ctx w)"
  shows "tool_adapter exec"
proof (unfold_locales)
  fix env p ctx w r w' e x
  note sh = assms [of w env p ctx]
  {
    assume eq: "exec env p ctx w = (Inr r, w')"
    have r: "(w' = w \<and> (\<exists>st f c k. r = tool_failed st f c k)) \<or> (\<exists>st b d. r = tool_ok st b d)"
      using sh by (auto simp: eq shaped_def)
    show "tr_status r = TS_FAILED \<Longrightarrow>
         \<not> tr_rollbackAvailable r \<and> tr_failedStep r \<noteq> None \<and> tr_failureCode r \<noteq> None \<and> tr_data r = None \<and> w' = w"
      using r by auto
    show "tr_status r = TS_SUCCESS \<Longrightarrow>
         tr_failedStep r = None \<and> tr_failureCode r = None \<and> tr_errorClassification r = None"
      using r by auto
    show "tr_status r \<noteq> TS_PARTIAL_SUCCESS" "tr_error r = None" using r by auto
  next
    assume "exec env p ctx w = (Inl e, w')"
    then show "w' = w" using sh by (simp add: shaped_def)
  next
    assume eq: "exec env p ctx w = (x, w')"
    have "\<exists>f. w = w\<lparr>files := f\<rparr>" by (rule exI [of _ "files w"]) simp
    then show "\<exists>f. w' = w\<lparr>files := f\<rparr>" using sh by (cases x) (auto simp: eq shaped_def)
  }
qed

interpretation reading: tool_adapter read_database
  by (rule tool_adapterI) (simp add: read_database_def Let_def)

interpretation modifying: tool_adapter modify_database
  by (rule tool_adapterI) (simp add: modify_database_def)

interpretation querying: tool_adapter postgresql_query
  by (rule tool_adapterI)
    (simp add: postgresql_query_def case_prod_beta split: option.split json.split sum.split)

interpretation requesting: tool_adapter http_request
  by (rule tool_adapterI)
    (simp add: http_request_def Let_def case_prod_beta split: option.split json.split sum.split)

interpretation posting: tool_adapter slack_operator
  by (rule tool_adapterI) (simp add: slack_operator_def split: option.split json.split sum.split)

interpretation ticketing: tool_adapter zendesk_operator
  by (rule tool_adapterI) (simp add: zendesk_operator_def)

interpretation transferring: tool_adapter transfer_funds
  by (rule tool_adapterI) (simp add: transfer_funds_def Let_def split: option.split json.split)

lemma shaped_write_file: "shaped w (write_file env fn c sp w)"
  by (simp add: write_file_def Let_def split: option.split json.split)

lemma shaped_read_file: "shaped w (read_file env fn sp w)"
  by (simp add: read_file_def split: option.split)

interpretation filing: tool_adapter filesystem_operator
  by (rule tool_adapterI)
    (simp add: filesystem_operator_def shaped_write_file shaped_read_file Let_def split: sum.split)

interpretation any_tool: tool_adapter "tool_execute t" for t
  by (cases t)
    (simp_all add: reading.tool_adapter_axioms modifying.tool_adapter_axioms querying.tool_adapter_axioms
       requesting.tool_adapter_axioms posting.tool_adapter_axioms ticketing.tool_adapter_axioms
       transferring.tool_adapter_axioms filing.tool_adapter_axioms)

subsection \<open>Writing and rolling back\<close>

lemma resolveSafePath_cases:
  assumes "resolveSafePath env w fn = Inr sp" and "\<forall>q. te_link env q = q"
  obtains name where "fn = Some (JStr name)" "sp = path_resolve (te_base env) name" "starts_with sp (te_base env)"
  using assms by (auto simp: resolveSafePath_def Let_def split: option.splits json.splits if_splits)

lemma resolve_existing:
  assumes "starts_with (path_resolve (te_base env) name) (te_base env)" and "\<forall>q. te_link env q = q"
    and "files w (path_resolve (te_base env) name) \<noteq> None"
  shows "resolveSafePath env w (Some (JStr name)) = Inr (path_resolve (te_base env) name)"
  using assms by (simp add: resolveSafePath_def Let_def fs_exists_def)

lemma filesystem_write_cases:
  assumes "filesystem_operator env p ctx w = (Inr r, w')" and "tr_rollbackAvailable r"
  obtains sp s where "resolveSafePath env w (jget_opt p ''filename'') = Inr sp" "\<not> is_directory env sp"
    "w' = fs_write env sp s w" "jget_opt p ''operation'' = Some (JStr ''WRITE'')"
    "tr_data r = Some (JObj [(''rollbackData'',
        (case files w (te_link env sp) of
           Some existing \<Rightarrow> obj_literal [(''operation'', Some (JStr ''RESTORE'')),
              (''filename'', jget_opt p ''filename''), (''content'', Some (JStr existing))]
         | None \<Rightarrow> obj_literal [(''operation'', Some (JStr ''DELETE'')), (''filename'', jget_opt p ''filename'')]))])"
proof -
  obtain sp where sp: "resolveSafePath env w (jget_opt p ''filename'') = Inr sp"
    "write_file env (jget_opt p ''filename'') (jget_opt p ''content'') sp w = (Inr r, w')"
    "jget_opt p ''operation'' = Some (JStr ''WRITE'')"
    using assms
    by (auto simp: filesystem_operator_def guard_parameters_def read_file_def Let_def
        split: option.splits if_splits sum.splits)
  from sp(2) obtain s where s: "jget_opt p ''content'' = Some (JStr s)"
    by (auto simp: write_file_def Let_def split: option.splits json.splits)
  show thesis
    using sp(2) by (intro that [OF sp(1) _ _ sp(3), of s]) (auto simp: write_file_def s Let_def split: if_splits option.splits)
qed


subsection \<open>The sandbox\<close>

definition seg_ok :: "string \<Rightarrow> bool" where
  "seg_ok s \<longleftrightarrow> s \<noteq> [] \<and> s \<noteq> ''.'' \<and> s \<noteq> ''..'' \<and> slash \<notin> set s"

text \<open>A directory path in normal form: what \<open>path.resolve\<close> returns.\<close>

definition normal_base :: "string \<Rightarrow> bool" where
  "normal_base b \<longleftrightarrow> (\<exists>segs. segs \<noteq> [] \<and> list_all seg_ok segs \<and> b = path_of segs)"

lemma seg_steps: "list_all seg_ok segs \<Longrightarrow> foldl seg_step acc segs = acc @ segs"
  by (induction segs arbitrary: acc) (auto simp: seg_step_def seg_ok_def)

lemma split_path_of:
  assumes "segs \<noteq> []" "list_all seg_ok segs"
  shows "js_split slash (path_of segs) = [] # segs"
proof -
  have "js_split slash (js_join [slash] segs) = segs"
    using assms by (intro split_join) (auto simp: list_all_iff seg_ok_def)
  then show ?thesis by (simp add: path_of_def)
qed

lemma resolve_name:
  assumes "segs \<noteq> []" "list_all seg_ok segs" and "slash \<notin> set name" "name \<noteq> []"
  shows "path_resolve (path_of segs) name = path_of (seg_step segs name)"
proof -
  have nostart: "\<not> starts_with name [slash]"
    using assms(3,4) by (cases name) (auto simp: starts_with_def)
  have "path_of segs @ [slash] @ name = path_of (segs @ [name])"
    using assms(1) by (simp add: path_of_def join_snoc)
  moreover have "js_split slash (path_of (segs @ [name])) = [] # segs @ [name]"
  proof -
    have "js_split slash (js_join [slash] (segs @ [name])) = segs @ [name]"
      using assms by (intro split_join) (auto simp: list_all_iff seg_ok_def)
    then show ?thesis by (simp add: path_of_def)
  qed
  ultimately show ?thesis
    using nostart seg_steps [OF assms(2), of "[]"] by (simp add: path_resolve_def seg_step_def)
qed

lemma path_of_snoc: "segs \<noteq> [] \<Longrightarrow> path_of (segs @ [s]) = path_of segs @ [slash] @ s"
  by (simp add: path_of_def join_snoc)

lemma filename_no_slash: "filename_ok fn \<Longrightarrow> slash \<notin> set fn"
  by (auto simp: filename_ok_def list_all_iff filename_char_def word_char_def is_digit_def slash_def code_def)

lemma parent_not_in_base:
  assumes "segs \<noteq> []" "list_all seg_ok segs"
  shows "\<not> starts_with (path_of (butlast segs)) (path_of segs)"
proof -
  obtain s init where segs: "segs = init @ [s]" using assms(1) by (cases segs rule: rev_cases) auto
  have "s \<noteq> []" using assms(2) by (simp add: segs seg_ok_def)
  then have "length (path_of init) < length (path_of (init @ [s]))"
    by (cases "init = []") (simp_all add: path_of_def join_snoc)
  then show ?thesis unfolding segs starts_with_def by (auto dest: prefix_length_le)
qed

lemma sandbox_target:
  assumes "normal_base (te_base env)" "filename_ok fn" "\<forall>q. te_link env q = q"
    and "resolveSafePath env w (Some (JStr fn)) = Inr sp"
  shows "sp = te_base env \<or> sp = te_base env @ [slash] @ fn"
proof -
  obtain segs where segs: "segs \<noteq> []" "list_all seg_ok segs" "te_base env = path_of segs"
    using assms(1) by (auto simp: normal_base_def)
  have "fn \<noteq> []" using assms(2) by (simp add: filename_ok_def)
  then have res: "path_resolve (te_base env) fn = path_of (seg_step segs fn)"
    using resolve_name [OF segs(1,2) filename_no_slash [OF assms(2)]] segs(3) by simp
  have sp: "sp = path_of (seg_step segs fn)" "starts_with sp (te_base env)"
    using resolveSafePath_cases [OF assms(4,3)] res by (metis json.inject(3) option.inject)+
  show ?thesis
    using sp parent_not_in_base [OF segs(1,2)] path_of_snoc [OF segs(1), of fn] segs(3)
    by (auto simp: seg_step_def split: if_splits)
qed


text \<open>
  The path check alone compares with the sandbox path without a separator, so a sibling
  directory whose name extends the sandbox's passes it (the filename pattern of the contract
  is what keeps such names out).
\<close>

theorem prefix_check_admits_sibling:
  "starts_with (path_resolve ''/srv/sandbox'' ''../sandbox_evil/x'') ''/srv/sandbox''
   \<and> \<not> starts_with (path_resolve ''/srv/sandbox'' ''../sandbox_evil/x'') ''/srv/sandbox/''"
  by code_simp

subsection \<open>What a success of the other guarded tools means\<close>

text \<open>
  A successful transfer moved a positive numeric amount to a present recipient, within
  the injected limit and the balance; the transaction id carries the provider's idempotency key.
\<close>

theorem transfer_success_iff:
  "(\<exists>r w'. transfer_funds env p ctx w = (Inr r, w') \<and> tr_status r = TS_SUCCESS) \<longleftrightarrow>
     (\<exists>a. jget_opt p ''amount'' = Some (JNum a) \<and> \<not> num_le a (Fin 0 0) \<and> \<not> num_lt (Fin 50000 0) a
        \<and> truthy_opt (jget_opt p ''recipient'')
        \<and> (case tx_constraints ctx of None \<Rightarrow> True
           | Some cs \<Rightarrow> (case map_of cs ''maxAmount'' of None \<Rightarrow> True
              | Some v \<Rightarrow> \<not> (v \<noteq> JNull \<and> js_num_gt a v))))"
proof -
  have inf: "\<not> num_lt PosInf a" for a by (cases a) auto
  show ?thesis
    by (cases p; cases "jget_opt p ''amount''"; cases "the (jget_opt p ''amount'')")
      (auto simp: transfer_funds_def guard_parameters_def destructure_def jget_opt_def Let_def coalesce_def
        nullish_def js_num_gt_def inf split: option.splits json.splits)
qed

text \<open>
  An HTTP request succeeds only on a URL that parses to the https scheme and to a host
  that is not on the forbidden list, not in a private block by its prefix, and on the
  allowlist when one is configured.
\<close>

theorem http_success_guarded:
  assumes "http_request env p ctx w = (Inr r, w')" and "tr_status r = TS_SUCCESS"
  shows "\<exists>url host. jget_opt p ''url'' = Some (JStr url) \<and> te_url env url = Some (''https:'', host)
     \<and> js_lower host \<notin> set forbiddenHostnames
     \<and> \<not> starts_with (js_lower host) ''10.'' \<and> \<not> starts_with (js_lower host) ''192.168.'' \<and> \<not> private_172 (js_lower host)
     \<and> (case te_allowlist env of None \<Rightarrow> True
        | Some raw \<Rightarrow> raw = [] \<or> js_lower host \<in> set (map (\<lambda>h. js_lower (js_trim h)) (js_split (CHR '','') raw)))"
proof -
  obtain url protocol host where u: "jget_opt p ''url'' = Some (JStr url)" "te_url env url = Some (protocol, host)"
    "ssrf_guard (te_allowlist env) protocol host = None"
    using assms
    by (auto simp: http_request_def guard_parameters_def Let_def split: option.splits json.splits if_splits)
  from u(3) have "protocol = ''https:''" unfolding ssrf_guard_def Let_def by (metis option.distinct(1))
  moreover have "js_lower host \<notin> set forbiddenHostnames"
    "\<not> starts_with (js_lower host) ''10.''" "\<not> starts_with (js_lower host) ''192.168.''" "\<not> private_172 (js_lower host)"
    using u(3) unfolding ssrf_guard_def Let_def by (metis option.distinct(1))+
  moreover have "case te_allowlist env of None \<Rightarrow> True
      | Some raw \<Rightarrow> raw = [] \<or> js_lower host \<in> set (map (\<lambda>h. js_lower (js_trim h)) (js_split (CHR '','') raw))"
    using u(3) by (auto simp: ssrf_guard_def Let_def split: option.splits if_splits)
  ultimately show ?thesis using u by blast
qed

text \<open>
  A successful query passed the guard, reached only the analytics database, inside the
  bounded subquery, and returned at most the contract's 1000 rows when the driver counts them.
\<close>

theorem postgres_success_guarded:
  assumes "postgresql_query env p ctx w = (Inr r, w')" and "tr_status r = TS_SUCCESS"
  shows "\<exists>q args rows n. jget_opt p ''query'' = Some (JStr q) \<and> sql_guard q = None \<and> sanitize q \<noteq> []
     \<and> te_pg_url env \<noteq> None \<and> te_pg env (bounded_query q) args = Inr (rows, n) \<and> tr_data r = Some rows
     \<and> (case n of None \<Rightarrow> True | Some k \<Rightarrow> k \<le> 1000)"
proof -
  obtain q where q: "jget_opt p ''query'' = Some (JStr q)" "sql_guard q = None" "sanitize q \<noteq> []" "te_pg_url env \<noteq> None"
    using assms
    by (auto simp: postgresql_query_def guard_parameters_def split: option.splits json.splits if_splits)
  let ?a = "case jget_opt p ''values'' of Some v \<Rightarrow> if truthy v then v else JArr [] | None \<Rightarrow> JArr []"
  obtain rows n where n: "te_pg env (bounded_query q) ?a = Inr (rows, n)"
    using assms q
    by (cases "te_pg env (bounded_query q) ?a")
      (auto simp: postgresql_query_def guard_parameters_def split: option.splits if_splits)
  have "(case n of None \<Rightarrow> True | Some k \<Rightarrow> k \<le> 1000) \<and> tr_data r = Some rows"
    using assms q n
    by (auto simp: postgresql_query_def guard_parameters_def split: option.splits if_splits)
  then show ?thesis using q n by blast
qed

end
