(* ===== verification/Operator.thy ===== *)
theory Operator
  imports File_System Governor_Laws
begin

section \<open>The operator service (core/operator/operator.service.ts)\<close>

text \<open>
  \<open>executeDecision\<close> and \<open>executeRollback\<close>. The body of the try block is split where it
  commits to the database: the checks of the approval token, the reservation and the lock of
  the execution record, the tool call inside the contract layer, the final state. \<open>clk i\<close> is
  the i-th reading of a clock, \<open>up\<close> tells whether Redis answers, \<open>late\<close> whether the
  contract's time runs out before the tool answers (its effects stand all the same). Every
  started tool call is recorded in \<open>calls\<close>.
\<close>

subsection \<open>The approval token\<close>

definition violation :: "string \<Rightarrow> exn" where
  "violation m = JsError (''Security Violation: '' @ m)"

definition executable :: "decision_type \<Rightarrow> bool" where
  "executable d \<longleftrightarrow> d = D_APPROVE \<or> d = D_APPROVE_WITH_CONSTRAINTS \<or> d = D_HUMAN_OVERRIDE_APPROVED"

definition token_of :: "world \<Rightarrow> string \<Rightarrow> token_row option" where
  "token_of w did = find_first (\<lambda>k. k_decisionId k = did) (tokens w)"

definition check_token :: "runtime \<Rightarrow> int \<Rightarrow> world \<Rightarrow> decision_row \<Rightarrow> json \<Rightarrow> exn + (token_row \<times> string)" where
  "check_token rt now w d option =
     (let a = jget option ''actionType'' in
      case token_of w (d_id d) of
        None \<Rightarrow> Inl (violation ''No Cryptographic Approval Token found for this decision. Operator Execution blocked.'')
      | Some k \<Rightarrow>
          if k_expiresAt k < now then Inl (violation ''Approval Token has expired.'')
          else if option = JNull
          then Inl (JsError (''Cannot read properties of null (reading '' @ sq @ ''actionType'' @ sq @ '')''))
          else (case getCapabilityForTool a of
            None \<Rightarrow> Inl (violation (''Tool '' @ sq @ opt_string a @ sq @ '' has no authorized Capability mapping.''))
          | Some cap \<Rightarrow>
              if \<not> verifyTokenSignature rt (reconstructed_payload k (opt_string a) (cap_id cap)) (k_signature k)
              then Inl (violation ''Approval Token signature is invalid. Possible tampering detected.'')
              else if generatePayloadHash rt (k_tenantId k) (k_taskId k) (k_proposalId k) (k_decisionId k) option (k_nonce k)
                      \<noteq> k_payloadHash k
              then Inl (violation ''Action payload was mutated after Covernor approval. Payload hashes do not match.'')
              else Inr (k, opt_string a)))"

subsection \<open>The execution record\<close>

definition idempotency_key :: "runtime \<Rightarrow> decision_row \<Rightarrow> proposal_row \<Rightarrow> string" where
  "idempotency_key rt d p = rt_sha256 rt (d_tenantId d @ ''|'' @ p_taskId p @ ''|'' @ d_id d)"

definition provider_key :: "runtime \<Rightarrow> decision_row \<Rightarrow> proposal_row \<Rightarrow> string" where
  "provider_key rt d p = rt_sha256 rt (''EXTERNAL|'' @ d_tenantId d @ ''|'' @ p_taskId p @ ''|'' @ d_id d)"

definition new_record :: "string \<Rightarrow> decision_row \<Rightarrow> proposal_row \<Rightarrow> string \<Rightarrow> string \<Rightarrow> execution_row" where
  "new_record i d p ik pk =
     \<lparr>e_id = i, e_decisionId = d_id d, e_tenantId = d_tenantId d, e_taskId = p_taskId p, e_idempotencyKey = ik,
      e_providerTransactionId = None, e_providerIdempotencyKey = Some pk, e_status = E_PENDING,
      e_errorClassification = None, e_rollbackData = None, e_attemptCount = 0, e_lastError = None,
      e_startedAt = None, e_completedAt = None, e_reconciledAt = None, e_reconciliationAttempts = 0\<rparr>"

text \<open>
  Find or create: a violation of the unique key of tenant and idempotency key is followed by
  one more lookup.
\<close>

definition reserve_execution :: "runtime \<Rightarrow> decision_row \<Rightarrow> proposal_row \<Rightarrow> world \<Rightarrow> (exn + execution_row) \<times> world" where
  "reserve_execution rt d p w =
     (case find_execution w (d_id d) of
        Some r \<Rightarrow> (Inr r, w)
      | None \<Rightarrow>
          if 0 < count_where (\<lambda>e. e_tenantId e = d_tenantId d \<and> e_idempotencyKey e = idempotency_key rt d p) (executions w)
          then (Inl UniqueViolation, w)
          else (case fresh_uuid rt w of (i, w1) \<Rightarrow>
            (let r = new_record i d p (idempotency_key rt d p) (provider_key rt d p)
             in (Inr r, w1\<lparr>executions := executions w1 @ [r]\<rparr>))))"

definition lockable :: "execution_row \<Rightarrow> bool" where
  "lockable e \<longleftrightarrow> e_status e = E_PENDING \<or> e_status e = E_FAILED"

definition start_execution :: "int \<Rightarrow> execution_row \<Rightarrow> execution_row" where
  "start_execution now e = e\<lparr>e_status := E_EXECUTING, e_attemptCount := e_attemptCount e + 1, e_startedAt := Some now\<rparr>"

interpretation execution_lock: guarded_update e_decisionId lockable "start_execution now" for now
  by unfold_locales (simp_all add: lockable_def start_execution_def)

text \<open>The transition to EXECUTING, atomic in the database: did this worker get it?\<close>

definition acquire_lock :: "int \<Rightarrow> string \<Rightarrow> world \<Rightarrow> bool \<times> world" where
  "acquire_lock now did w =
     (0 < count_where (\<lambda>e. e_decisionId e = did \<and> lockable e) (executions w),
      w\<lparr>executions := update_where (\<lambda>e. e_decisionId e = did \<and> lockable e) (start_execution now) (executions w)\<rparr>)"

subsection \<open>The tool call\<close>

definition contract_failure :: "string \<Rightarrow> tool_result" where
  "contract_failure m = \<lparr>tr_status = TS_FAILED, tr_completedSteps = [], tr_failedStep = Some ''execution_timeout'',
     tr_failureCode = Some ''CONTRACT_VIOLATION'', tr_errorClassification = None, tr_rollbackAvailable = False,
     tr_data = None, tr_error = Some m\<rparr>"

definition log_call :: "tool_call \<Rightarrow> world \<Rightarrow> world" where
  "log_call c w = w\<lparr>calls := calls w @ [c]\<rparr>"

text \<open>
  The contract layer: the idempotency key, the rate limit (an excess and an unreachable Redis
  end in the same handler), then the tool against the clock. \<open>Inl\<close> is the crash that leaves
  the state unknown.
\<close>

definition run_contract :: "bool \<Rightarrow> int \<Rightarrow> bool \<Rightarrow> tool_env \<Rightarrow> tool \<Rightarrow> decision_row \<Rightarrow> string \<Rightarrow> json option \<Rightarrow> world
    \<Rightarrow> (string + tool_result) \<times> world" where
  "run_contract up now late env t d pk ps w =
     (let ct = tool_contract t; act = tool_actionType t;
          ctx = \<lparr>tx_constraints = d_constraints d, tx_rollbackActive = False, tx_rollbackData = None,
                 tx_providerIdempotencyKey = Some pk\<rparr>;
          infra = ''Infrastructure Violation: Unable to verify rate limits for '' @ act
      in if ct_requiresIdempotencyKey ct \<and> pk = []
         then (Inl (''Operator Contract Violation: '' @ sq @ ''providerIdempotencyKey'' @ sq @ '' is required for '' @ act @ ''.''), w)
         else (let limited = ct_rateLimitPerMinute ct > 0;
                   (n, w1) = (if limited \<and> up
                              then window_incr now (''operator_ratelimit:'' @ d_tenantId d @ '':'' @ act) 60 w else (0, w))
               in if limited \<and> (\<not> up \<or> n > ct_rateLimitPerMinute ct) then (Inl infra, w1)
                  else (case tool_execute t env ps ctx
                              (log_call \<lparr>tc_action = act, tc_parameters = ps, tc_decisionId = d_id d, tc_providerKey = pk\<rparr> w1) of
                          (x, w2) \<Rightarrow>
                            (Inr (if late
                                  then contract_failure (''Operator Execution Timeout: Exceeded ''
                                         @ num_str (Fin (ct_maxExecutionTimeMs ct) 0) @ ''ms contract limit.'')
                                  else (case x of Inl e \<Rightarrow> contract_failure (exn_message e) | Inr r \<Rightarrow> r)), w2))))"

subsection \<open>The final state\<close>

definition str_or :: "string option \<Rightarrow> string option \<Rightarrow> string option" where
  "str_or a b = (case a of Some s \<Rightarrow> if s = [] then b else a | None \<Rightarrow> b)"

definition failed_reason :: "tool_result \<Rightarrow> string option" where
  "failed_reason r = (if tr_status r = TS_FAILED then str_or (tr_error r) (tr_failureCode r) else None)"

definition final_status :: "tool_result \<Rightarrow> exec_status" where
  "final_status r =
     (if tr_status r = TS_FAILED
      then (if tr_errorClassification r = Some ''UNKNOWN'' then E_RECONCILIATION_REQUIRED else E_FAILED)
      else E_COMPLETED)"

definition data_field :: "tool_result \<Rightarrow> string \<Rightarrow> json option" where
  "data_field r k = (case jget_opt (tr_data r) k of Some v \<Rightarrow> if truthy v then Some v else None | None \<Rightarrow> None)"

definition finish_execution :: "int \<Rightarrow> tool_result \<Rightarrow> execution_row \<Rightarrow> execution_row" where
  "finish_execution now r e =
     e\<lparr>e_status := final_status r,
       e_completedAt := (if final_status r = E_COMPLETED \<or> final_status r = E_RECONCILIATION_REQUIRED then Some now else None),
       e_lastError := failed_reason r,
       e_providerTransactionId := map_option js_string (data_field r ''transactionId''),
       e_errorClassification := str_or (tr_errorClassification r) None,
       e_rollbackData := (case data_field r ''rollbackData'' of Some v \<Rightarrow> Some v | None \<Rightarrow> e_rollbackData e)\<rparr>"

definition operator_details :: "decision_row \<Rightarrow> string \<Rightarrow> tool_result \<Rightarrow> audit_details" where
  "operator_details d act r =
     (log_entry (d_tenantId d) (obj_literal
        [(''actor'', Some (JStr ''Operator'')), (''action'', Some (JStr ''execute_decision'')),
         (''toolExecuted'', Some (JStr act)), (''status'', Some (JStr (exec_name (final_status r)))),
         (''completedSteps'', Some (JArr (map JStr (tr_completedSteps r)))),
         (''failureCode'', Some (case str_or (tr_failureCode r) (failed_reason r) of None \<Rightarrow> JNull | Some m \<Rightarrow> JStr m))]))
     \<lparr>l_decisionId := Some (d_id d)\<rparr>"

definition finalize :: "runtime \<Rightarrow> int \<Rightarrow> int \<Rightarrow> decision_row \<Rightarrow> string \<Rightarrow> tool_result \<Rightarrow> world \<Rightarrow> (exn + execution_row) \<times> world" where
  "finalize rt now later d act r w =
     (let w1 = update_execution (d_id d) (finish_execution now r) w;
          w2 = logAction rt later (operator_details d act r) w1
      in if final_status r = E_FAILED
         then (Inl (OperatorExecutionError (d_id d)
                 (case str_or (tr_failureCode r) None of None \<Rightarrow> ''UNKNOWN_ERROR'' | Some c \<Rightarrow> c)
                 (case str_or (tr_failedStep r) None of None \<Rightarrow> ''unknown_step'' | Some s \<Rightarrow> s)), w2)
         else (case find_execution w1 (d_id d) of
                 Some report \<Rightarrow> (Inr report, w2)
               | None \<Rightarrow> (Inl (JsError ''Record to update not found.''), w1)))"

subsection \<open>Executing a decision\<close>

definition crash :: "string \<Rightarrow> execution_row \<Rightarrow> execution_row" where
  "crash m e = e\<lparr>e_status := E_UNKNOWN, e_lastError := Some m\<rparr>"

text \<open>From the consumed token on.\<close>

definition locked_execution :: "runtime \<Rightarrow> (nat \<Rightarrow> int) \<Rightarrow> bool \<Rightarrow> bool \<Rightarrow> tool_env \<Rightarrow> decision_row \<Rightarrow> proposal_row \<Rightarrow> tool
    \<Rightarrow> world \<Rightarrow> (exn + execution_row) \<times> world" where
  "locked_execution rt clk up late env d p t w =
     (case reserve_execution rt d p w of
        (Inl e, w1) \<Rightarrow> (Inl e, w1)
      | (Inr record, w1) \<Rightarrow>
          if e_status record = E_COMPLETED then (Inr record, w1)
          else if e_status record = E_EXECUTING
          then (Inl (JsError ''Concurrency Violation: Decision is currently EXECUTING in another worker. Replay blocked.''), w1)
          else if e_status record = E_UNKNOWN
          then (Inl (JsError ''State Violation: Decision is in UNKNOWN state. Requires human or automated reconciliation.''), w1)
          else (case acquire_lock (clk 2) (d_id d) w1 of
            (False, w2) \<Rightarrow> (Inl (JsError ''Concurrency Violation: Failed to acquire EXECUTING lock. Another worker assumed control.''), w2)
          | (True, w2) \<Rightarrow>
              (case run_contract up (clk 3) late env t d (provider_key rt d p)
                      (jget (p_recommendedOption p) ''parameters'') w2 of
                 (Inl m, w3) \<Rightarrow>
                   (Inl (JsError (''Critical Operator Crash. State set to UNKNOWN. '' @ m)), update_execution (d_id d) (crash m) w3)
               | (Inr r, w3) \<Rightarrow> finalize rt (clk 4) (clk 5) d (tool_actionType t) r w3)))"

definition execute_body :: "runtime \<Rightarrow> (nat \<Rightarrow> int) \<Rightarrow> bool \<Rightarrow> bool \<Rightarrow> tool_env \<Rightarrow> string \<Rightarrow> world \<Rightarrow> (exn + execution_row) \<times> world" where
  "execute_body rt clk up late env decisionId w =
     (case find_decision w decisionId of
        None \<Rightarrow> (Inl (JsError ''Decision not found''), w)
      | Some d \<Rightarrow>
          (case find_proposal w (d_proposalId d) of
             None \<Rightarrow> (Inl (JsError ''Inconsistent query result: Field proposal is required to return data''), w)
           | Some p \<Rightarrow>
               if \<not> executable (d_decisionType d) then (Inl (JsError ''Cannot execute a non-approved decision.''), w)
               else (case check_token rt (clk 0) w d (p_recommendedOption p) of
                 Inl e \<Rightarrow> (Inl e, w)
               | Inr (k, act) \<Rightarrow>
                   (case consumeToken (clk 1) (k_nonce k) w of
                      (False, w1) \<Rightarrow>
                        (Inl (violation ''Replay Attack Detected. This Approval Token has already been used or expired.''), w1)
                    | (True, w1) \<Rightarrow>
                        (case find_tool (Some (JStr act)) of
                           None \<Rightarrow> (Inl (JsError (''Execution failed: Unsupported actionType '' @ sq @ act @ sq)), w1)
                         | Some t \<Rightarrow> locked_execution rt clk up late env d p t w1)))))"

text \<open>The outer handler: any error fails the task.\<close>

definition fail_task :: "string \<Rightarrow> world \<Rightarrow> world" where
  "fail_task decisionId w =
     (case find_decision w decisionId of
        None \<Rightarrow> w
      | Some d \<Rightarrow>
          (case find_proposal w (d_proposalId d) of
             None \<Rightarrow> w
           | Some p \<Rightarrow> if p_taskId p = [] then w else update_task (p_taskId p) (\<lambda>t. t\<lparr>t_status := T_FAILED\<rparr>) w))"

definition executeDecision :: "runtime \<Rightarrow> (nat \<Rightarrow> int) \<Rightarrow> bool \<Rightarrow> bool \<Rightarrow> tool_env \<Rightarrow> string \<Rightarrow> world \<Rightarrow> (exn + execution_row) \<times> world" where
  "executeDecision rt clk up late env decisionId w =
     (case execute_body rt clk up late env decisionId w of
        (Inl e, w1) \<Rightarrow> (Inl e, fail_task decisionId w1)
      | (Inr r, w1) \<Rightarrow> (Inr r, w1))"

subsection \<open>Rolling back\<close>

definition rollback_details :: "execution_row \<Rightarrow> json option \<Rightarrow> bool \<Rightarrow> audit_details" where
  "rollback_details e a ok =
     (log_entry (e_tenantId e) (obj_literal
        [(''actor'', Some (JStr ''Operator'')), (''action'', Some (JStr ''execute_rollback'')),
         (''toolExecuted'', a), (''rollbackSuccess'', Some (JBool ok))]))
     \<lparr>l_decisionId := Some (e_decisionId e)\<rparr>"

definition update_record :: "string \<Rightarrow> (execution_row \<Rightarrow> execution_row) \<Rightarrow> world \<Rightarrow> world" where
  "update_record i f w = w\<lparr>executions := update_where (\<lambda>e. e_id e = i) f (executions w)\<rparr>"

definition executeRollback :: "runtime \<Rightarrow> int \<Rightarrow> tool_env \<Rightarrow> string \<Rightarrow> world \<Rightarrow> (exn + bool) \<times> world" where
  "executeRollback rt now env reportId w =
     (case find_first (\<lambda>e. e_id e = reportId) (executions w) of
        None \<Rightarrow> (Inl (JsError ''Execution record not found''), w)
      | Some report \<Rightarrow>
          if e_status report \<noteq> E_COMPLETED \<and> e_status report \<noteq> E_PARTIAL_SUCCESS
          then (Inl (JsError ''Rollback is not available for this action state.''), w)
          else (case find_decision w (e_decisionId report) of
            None \<Rightarrow> (Inl (JsError ''Inconsistent query result: Field decision is required to return data''), w)
          | Some d \<Rightarrow>
              (case find_proposal w (d_proposalId d) of
                 None \<Rightarrow> (Inl (JsError ''Inconsistent query result: Field proposal is required to return data''), w)
               | Some p \<Rightarrow>
                   (let a = jget (p_recommendedOption p) ''actionType'' in
                    case (case find_tool a of None \<Rightarrow> None | Some t \<Rightarrow> tool_rollback t) of
                      None \<Rightarrow> (Inl (JsError (''Rollback failed: Tool missing or does not support rollback for '' @ sq @ opt_string a @ sq)), w)
                    | Some rb \<Rightarrow>
                        (case rb env (jget (p_recommendedOption p) ''parameters'')
                                \<lparr>tx_constraints = None, tx_rollbackActive = True, tx_rollbackData = e_rollbackData report,
                                 tx_providerIdempotencyKey = None\<rparr> w of
                           (Inl e, w1) \<Rightarrow> (Inl e, w1)
                         | (Inr ok, w1) \<Rightarrow>
                             (Inr ok, logAction rt now (rollback_details report a ok)
                               (update_record reportId (\<lambda>e. e\<lparr>e_status := (if ok then E_UNKNOWN else E_FAILED),
                                                             e_lastError := Some ''Rollback invoked''\<rparr>) w1)))))))"

end
