(* ===== verification/Operator_Laws.thy ===== *)
theory Operator_Laws
  imports Operator
begin

section \<open>What the operator guarantees\<close>

text \<open>
  Authorization of every tool call, single execution of a decision under any sequence of
  requests, the states an execution can end in, and what happens on replay, on a tampered
  payload, on an excess of the rate limit and on a timeout.
\<close>

subsection \<open>Frames\<close>

lemma check_token_Inr:
  assumes "check_token rt now w d v = Inr (k, act)"
  obtains cap where "token_of w (d_id d) = Some k" "now \<le> k_expiresAt k" "jget v ''actionType'' = Some (JStr act)"
    "getCapabilityForTool (Some (JStr act)) = Some cap"
    "verifyTokenSignature rt (reconstructed_payload k act (cap_id cap)) (k_signature k)"
    "generatePayloadHash rt (k_tenantId k) (k_taskId k) (k_proposalId k) (k_decisionId k) v (k_nonce k) = k_payloadHash k"
proof -
  obtain cap where c: "token_of w (d_id d) = Some k" "now \<le> k_expiresAt k" "act = opt_string (jget v ''actionType'')"
    "getCapabilityForTool (jget v ''actionType'') = Some cap"
    "verifyTokenSignature rt (reconstructed_payload k act (cap_id cap)) (k_signature k)"
    "generatePayloadHash rt (k_tenantId k) (k_taskId k) (k_proposalId k) (k_decisionId k) v (k_nonce k) = k_payloadHash k"
    using assms by (auto simp: check_token_def Let_def not_less split: option.splits if_splits)
  moreover obtain a where "jget v ''actionType'' = Some (JStr a)" using capability_string c(4) by blast
  ultimately show thesis using that by (simp add: opt_string_def)
qed

text \<open>
  Everything after the token is consumed leaves these tables alone. A step is \<open>quiet\<close> when
  it does, and adds at most the one call it is allowed to.
\<close>

definition quiet :: "world \<Rightarrow> world \<Rightarrow> bool" where
  "quiet w w' \<longleftrightarrow> tokens w' = tokens w \<and> decisions w' = decisions w \<and> proposals w' = proposals w
     \<and> policies w' = policies w \<and> roles w' = roles w \<and> settings w' = settings w \<and> tasks w' = tasks w
     \<and> prefix (audits w) (audits w')"

lemma quiet_refl [simp]: "quiet w w"
  by (simp add: quiet_def)

lemma quiet_trans: "quiet a b \<Longrightarrow> quiet b c \<Longrightarrow> quiet a c"
  by (auto simp: quiet_def intro: prefix_order.trans)

lemma quiet_log: "quiet w (logAction rt now dt w)"
  using logAction_appends [of rt now dt w] by (auto simp: quiet_def)

lemma quiet_update_execution [simp]: "quiet w (update_execution i f w)"
  by (simp add: quiet_def)

lemma quiet_update_record [simp]: "quiet w (update_record i f w)"
  by (simp add: quiet_def update_record_def)

lemma quiet_reserve: "reserve_execution rt d p w = (x, w') \<Longrightarrow> quiet w w' \<and> calls w' = calls w"
  by (auto simp: reserve_execution_def fresh_uuid_def Let_def quiet_def split: option.splits if_splits)

lemma quiet_acquire: "acquire_lock now did w = (b, w') \<Longrightarrow> quiet w w' \<and> calls w' = calls w"
  by (auto simp: acquire_lock_def quiet_def)

lemma tool_quiet: "tool_execute t env ps ctx w = (x, w') \<Longrightarrow> quiet w w' \<and> calls w' = calls w \<and> executions w' = executions w"
  using any_tool.files_only [of t env ps ctx w x w'] by (auto simp: quiet_def)

definition call_of :: "tool \<Rightarrow> decision_row \<Rightarrow> string \<Rightarrow> json option \<Rightarrow> tool_call" where
  "call_of t d pk ps = \<lparr>tc_action = tool_actionType t, tc_parameters = ps, tc_decisionId = d_id d, tc_providerKey = pk\<rparr>"

lemma run_contract_cases:
  assumes "run_contract up now late env t d pk ps w = (x, w')"
  shows "quiet w w' \<and> executions w' = executions w \<and>
    ((\<exists>m. x = Inl m \<and> calls w' = calls w) \<or> (\<exists>r. x = Inr r \<and> calls w' = calls w @ [call_of t d pk ps]))"
proof -
  let ?ct = "tool_contract t"
  let ?lim = "ct_rateLimitPerMinute ?ct > 0"
  obtain n w1 where w1: "(if ?lim \<and> up then window_incr now (''operator_ratelimit:'' @ d_tenantId d @ '':'' @ tool_actionType t) 60 w
      else (0, w)) = (n, w1)" by fastforce
  have q1: "quiet w w1 \<and> calls w1 = calls w \<and> executions w1 = executions w"
    using w1 by (auto simp: quiet_def dest: window_incr_frame split: if_splits)
  let ?ctx = "\<lparr>tx_constraints = d_constraints d, tx_rollbackActive = False, tx_rollbackData = None,
                 tx_providerIdempotencyKey = Some pk\<rparr>"
  obtain y w2 where w2: "tool_execute t env ps ?ctx (log_call (call_of t d pk ps) w1) = (y, w2)" by fastforce
  have lc: "quiet w1 (log_call (call_of t d pk ps) w1) \<and> calls (log_call (call_of t d pk ps) w1) = calls w1 @ [call_of t d pk ps]
      \<and> executions (log_call (call_of t d pk ps) w1) = executions w1"
    by (simp add: log_call_def quiet_def)
  have q2: "quiet w w2 \<and> calls w2 = calls w @ [call_of t d pk ps] \<and> executions w2 = executions w"
    using tool_quiet [OF w2] lc q1 quiet_trans by metis
  consider "ct_requiresIdempotencyKey ?ct \<and> pk = []" | "\<not> (ct_requiresIdempotencyKey ?ct \<and> pk = [])" "?lim \<and> (\<not> up \<or> n > ct_rateLimitPerMinute ?ct)"
    | "\<not> (ct_requiresIdempotencyKey ?ct \<and> pk = [])" "\<not> (?lim \<and> (\<not> up \<or> n > ct_rateLimitPerMinute ?ct))" by blast
  then show ?thesis
  proof cases
    case 1
    then show ?thesis using assms by (auto simp: run_contract_def Let_def)
  next
    case 2
    then have "w' = w1 \<and> (\<exists>m. x = Inl m)"
      using assms w1 by (auto simp: run_contract_def Let_def split: prod.splits)
    then show ?thesis using q1 by auto
  next
    case 3
    then have "w' = w2 \<and> (\<exists>r. x = Inr r)"
      using assms w1 w2 unfolding run_contract_def Let_def call_of_def by (auto split: prod.splits)
    then show ?thesis using q2 by auto
  qed
qed

lemma finalize_quiet: "finalize rt now later d act r w = (x, w') \<Longrightarrow> quiet w w' \<and> calls w' = calls w"
  using quiet_log [of "update_execution (d_id d) (finish_execution now r) w" rt later "operator_details d act r"]
  by (auto simp: finalize_def Let_def quiet_def split: if_splits option.splits)

lemma locked_execution_quiet:
  assumes "locked_execution rt clk up late env d p t w = (x, w')"
  shows "quiet w w' \<and> (calls w' = calls w \<or>
     calls w' = calls w @ [call_of t d (provider_key rt d p) (jget (p_recommendedOption p) ''parameters'')])"
proof (cases "reserve_execution rt d p w")
  case (Pair y w1)
  note q1 = quiet_reserve [OF Pair]
  show ?thesis
  proof (cases "(\<exists>e. y = Inl e) \<or> (\<exists>r. y = Inr r \<and> e_status r \<in> {E_COMPLETED, E_EXECUTING, E_UNKNOWN})")
    case True
    then have "w' = w1" using assms Pair by (auto simp: locked_execution_def)
    then show ?thesis using q1 by simp
  next
    case False
    then obtain r where r: "y = Inr r" "e_status r \<notin> {E_COMPLETED, E_EXECUTING, E_UNKNOWN}" by (cases y) auto
    obtain b w2 where w2: "acquire_lock (clk 2) (d_id d) w1 = (b, w2)" by fastforce
    note q2 = quiet_acquire [OF w2]
    obtain z w3 where w3: "run_contract up (clk 3) late env t d (provider_key rt d p)
        (jget (p_recommendedOption p) ''parameters'') w2 = (z, w3)" by fastforce
    note q3 = run_contract_cases [OF w3]
    have st: "e_status r \<noteq> E_COMPLETED" "e_status r \<noteq> E_EXECUTING" "e_status r \<noteq> E_UNKNOWN" using r(2) by auto
    note exe = assms [unfolded locked_execution_def, unfolded Pair r(1), simplified st if_False prod.case sum.case, unfolded w2]
    show ?thesis
    proof (cases b)
      case False
      then have "w' = w2" using exe by simp
      moreover have "quiet w w2" using q1 q2 quiet_trans by blast
      ultimately show ?thesis using q1 q2 by simp
    next
      case True
      show ?thesis
      proof (cases z)
        case (Inl m)
        then have w': "w' = update_execution (d_id d) (crash m) w3" using exe w3 True by simp
        have "quiet w w3" using q1 q2 q3 quiet_trans by blast
        then show ?thesis
          using q1 q2 q3 Inl quiet_trans [OF _ quiet_update_execution] unfolding w' by simp
      next
        case (Inr s)
        then have "finalize rt (clk 4) (clk 5) d (tool_actionType t) s w3 = (x, w')" using exe w3 True by simp
        note q4 = finalize_quiet [OF this]
        have "quiet w w3" using q1 q2 q3 quiet_trans by blast
        then have "quiet w w'" using q4 quiet_trans by blast
        then show ?thesis using q1 q2 q3 q4 by auto
      qed
    qed
  qed
qed

text \<open>The three ways the body goes: stopped before the token, at the token, past it.\<close>

lemma execute_body_cases:
  assumes "execute_body rt clk up late env did w = (x, w')"
  obtains
    (stopped) e where "x = Inl e" "w' = w"
  | (replay) d p k act e where "find_decision w did = Some d" "find_proposal w (d_proposalId d) = Some p"
      "check_token rt (clk 0) w d (p_recommendedOption p) = Inr (k, act)"
      "consumeToken (clk 1) (k_nonce k) w = (False, w')" "x = Inl e"
  | (run) d p k act t w1 where "find_decision w did = Some d" "find_proposal w (d_proposalId d) = Some p"
      "executable (d_decisionType d)" "check_token rt (clk 0) w d (p_recommendedOption p) = Inr (k, act)"
      "consumeToken (clk 1) (k_nonce k) w = (True, w1)" "act = tool_actionType t"
      "locked_execution rt clk up late env d p t w1 = (x, w')"
proof -
  consider "\<exists>e. x = Inl e \<and> w' = w"
    | d p k act where "find_decision w did = Some d" "find_proposal w (d_proposalId d) = Some p"
        "executable (d_decisionType d)" "check_token rt (clk 0) w d (p_recommendedOption p) = Inr (k, act)"
    using assms by (auto simp: execute_body_def split: option.splits if_splits sum.splits)
  then show thesis
  proof cases
    case 1
    then show thesis using stopped by blast
  next
    case 2
    obtain b w1 where c: "consumeToken (clk 1) (k_nonce k) w = (b, w1)" by fastforce
    obtain cap where "getCapabilityForTool (Some (JStr act)) = Some cap"
      using check_token_Inr [OF 2(4)] by blast
    then obtain t where t: "find_tool (Some (JStr act)) = Some t" using capability_iff_tool by blast
    then have act: "act = tool_actionType t" by (simp add: find_tool_iff)
    show thesis
    proof (cases b)
      case True
      then have "locked_execution rt clk up late env d p t w1 = (x, w')"
        using assms 2 c t by (simp add: execute_body_def)
      then show thesis using run [OF 2 _ act] c True by simp
    next
      case False
      then have "w' = w1" "\<exists>e. x = Inl e" using assms 2 c by (auto simp: execute_body_def)
      then show thesis using replay [OF 2(1,2,4)] c False by auto
    qed
  qed
qed

lemma find_decision_id: "find_decision w did = Some d \<Longrightarrow> d_id d = did"
  by (auto simp: find_decision_def)

lemma fail_task_frame [simp]:
  "proposals (fail_task did w) = proposals w" "decisions (fail_task did w) = decisions w"
  "executions (fail_task did w) = executions w" "audits (fail_task did w) = audits w"
  "tokens (fail_task did w) = tokens w" "calls (fail_task did w) = calls w" "files (fail_task did w) = files w"
  "policies (fail_task did w) = policies w" "roles (fail_task did w) = roles w" "settings (fail_task did w) = settings w"
  "redis (fail_task did w) = redis w"
  by (simp_all add: fail_task_def split: option.split)

subsection \<open>Authorization\<close>

lemma body_calls_Inl:
  assumes "executeDecision rt clk up late env did w = (x, w')"
  obtains w1 where "execute_body rt clk up late env did w = (x, w1)" "w' = w1 \<or> w' = fail_task did w1"
  using assms by (auto simp: executeDecision_def split: prod.splits sum.splits)

lemma authorized_call:
  assumes "executeDecision rt clk up late env did w = (x, w')" and "calls w' \<noteq> calls w"
  shows "\<exists>d p k t cap. find_decision w did = Some d \<and> find_proposal w (d_proposalId d) = Some p
     \<and> executable (d_decisionType d) \<and> token_of w did = Some k \<and> clk 0 \<le> k_expiresAt k
     \<and> jget (p_recommendedOption p) ''actionType'' = Some (JStr (tool_actionType t))
     \<and> getCapabilityForTool (Some (JStr (tool_actionType t))) = Some cap
     \<and> verifyTokenSignature rt (reconstructed_payload k (tool_actionType t) (cap_id cap)) (k_signature k)
     \<and> generatePayloadHash rt (k_tenantId k) (k_taskId k) (k_proposalId k) (k_decisionId k) (p_recommendedOption p) (k_nonce k)
         = k_payloadHash k
     \<and> fst (consumeToken (clk 1) (k_nonce k) w)
     \<and> calls w' = calls w @ [call_of t d (provider_key rt d p) (jget (p_recommendedOption p) ''parameters'')]"
proof -
  obtain w1 where b: "execute_body rt clk up late env did w = (x, w1)" "calls w' = calls w1"
    using body_calls_Inl [OF assms(1)] by (metis fail_task_frame(6))
  from b(1) show ?thesis
  proof (cases rule: execute_body_cases)
    case (stopped e)
    then show ?thesis using assms(2) b(2) by simp
  next
    case (replay d p k act e)
    then show ?thesis using assms(2) b(2) consumeToken_frame(11) [OF replay(4)] by simp
  next
    case (run d p k act t w2)
    have c: "calls w2 = calls w" using consumeToken_frame(11) [OF run(5)] .
    then have "calls w1 = calls w @ [call_of t d (provider_key rt d p) (jget (p_recommendedOption p) ''parameters'')]"
      using locked_execution_quiet [OF run(7)] assms(2) b(2) by auto
    moreover obtain cap where "token_of w (d_id d) = Some k" "clk 0 \<le> k_expiresAt k"
      "jget (p_recommendedOption p) ''actionType'' = Some (JStr act)"
      "getCapabilityForTool (Some (JStr act)) = Some cap"
      "verifyTokenSignature rt (reconstructed_payload k act (cap_id cap)) (k_signature k)"
      "generatePayloadHash rt (k_tenantId k) (k_taskId k) (k_proposalId k) (k_decisionId k) (p_recommendedOption p) (k_nonce k) = k_payloadHash k"
      using check_token_Inr [OF run(4)] by blast
    ultimately show ?thesis
      using run(1,2,3,5,6) find_decision_id [OF run(1)] b(2) by auto
  qed
qed

text \<open>
  C3: a tool is called only under a complete authorization. Whenever an execution request adds
  a tool call, the decision is an approval, its token had not expired, was signed over this
  decision, action and capability, carries the hash of the very option the proposal holds, and
  was consumed by this request; the call is the action of the proposal with its parameters and
  the decision's provider key, and it is the only one added.
\<close>

theorem tool_call_authorized:
  assumes "executeDecision rt clk up late env did w = (x, w')" and "calls w' \<noteq> calls w"
  shows "\<exists>d p k t cap. find_decision w did = Some d \<and> find_proposal w (d_proposalId d) = Some p
     \<and> executable (d_decisionType d) \<and> token_of w did = Some k \<and> clk 0 \<le> k_expiresAt k
     \<and> jget (p_recommendedOption p) ''actionType'' = Some (JStr (tool_actionType t))
     \<and> getCapabilityForTool (Some (JStr (tool_actionType t))) = Some cap
     \<and> verifyTokenSignature rt (reconstructed_payload k (tool_actionType t) (cap_id cap)) (k_signature k)
     \<and> generatePayloadHash rt (k_tenantId k) (k_taskId k) (k_proposalId k) (k_decisionId k) (p_recommendedOption p) (k_nonce k)
         = k_payloadHash k
     \<and> fst (consumeToken (clk 1) (k_nonce k) w)
     \<and> calls w' = calls w @ [call_of t d (provider_key rt d p) (jget (p_recommendedOption p) ''parameters'')]"
  using assms by (rule authorized_call)

text \<open>
  C4: approving one payload and executing another is blocked: when the token of a decision
  carries the hash of an option v, the digest does not collide on the two texts involved and
  the ids are free of the separator, then every tool call made for that decision is made with
  a proposal that holds v up to the order of object keys.
\<close>

theorem executed_payload_is_approved_payload:
  assumes run: "executeDecision rt clk up late env did w = (x, w')" and called: "calls w' \<noteq> calls w"
    and k: "token_of w did = Some k"
      "k_payloadHash k = generatePayloadHash rt (k_tenantId k) (k_taskId k) (k_proposalId k) (k_decisionId k) v (k_nonce k)"
    and p: "find_decision w did = Some d" "find_proposal w (d_proposalId d) = Some p"
    and ids: "list_all bar_free [k_tenantId k, k_taskId k, k_proposalId k, k_decisionId k, k_nonce k]"
    and wf: "wf_json v" "wf_json (p_recommendedOption p)"
    and nocollision: "inj_on (rt_sha256 rt)
       {payload_raw (k_tenantId k) (k_taskId k) (k_proposalId k) (k_decisionId k) v (k_nonce k),
        payload_raw (k_tenantId k) (k_taskId k) (k_proposalId k) (k_decisionId k) (p_recommendedOption p) (k_nonce k)}"
  shows "sort_keys (p_recommendedOption p) = sort_keys v"
proof -
  have "generatePayloadHash rt (k_tenantId k) (k_taskId k) (k_proposalId k) (k_decisionId k) (p_recommendedOption p) (k_nonce k)
      = k_payloadHash k"
    using authorized_call [OF run called] k(1) p by auto
  then have eq: "rt_sha256 rt (payload_raw (k_tenantId k) (k_taskId k) (k_proposalId k) (k_decisionId k) (p_recommendedOption p) (k_nonce k))
      = rt_sha256 rt (payload_raw (k_tenantId k) (k_taskId k) (k_proposalId k) (k_decisionId k) v (k_nonce k))"
    using k(2) by (simp add: generatePayloadHash_def)
  have raw: "payload_raw (k_tenantId k) (k_taskId k) (k_proposalId k) (k_decisionId k) (p_recommendedOption p) (k_nonce k)
      = payload_raw (k_tenantId k) (k_taskId k) (k_proposalId k) (k_decisionId k) v (k_nonce k)"
    using eq by (rule inj_onD [OF nocollision]) simp_all
  have bf: "bar_free (k_tenantId k)" "bar_free (k_taskId k)" "bar_free (k_proposalId k)" "bar_free (k_decisionId k)" "bar_free (k_nonce k)"
    using ids by simp_all
  show ?thesis using payload_raw_inj [OF bf bf wf(2,1) raw] by blast
qed

subsection \<open>Single execution\<close>

text \<open>A sequence of execution requests, each with its own clock, answers and decision.\<close>

record exec_request =
  rq_clk :: "nat \<Rightarrow> int"
  rq_up :: bool
  rq_late :: bool
  rq_env :: tool_env
  rq_did :: string

definition exec_step :: "runtime \<Rightarrow> exec_request \<Rightarrow> world \<Rightarrow> world" where
  "exec_step rt q w = snd (executeDecision rt (rq_clk q) (rq_up q) (rq_late q) (rq_env q) (rq_did q) w)"

definition exec_all :: "runtime \<Rightarrow> exec_request list \<Rightarrow> world \<Rightarrow> world" where
  "exec_all rt qs w = fold (exec_step rt) qs w"

definition calls_for :: "string \<Rightarrow> world \<Rightarrow> nat" where
  "calls_for did w = count_where (\<lambda>c. tc_decisionId c = did) (calls w)"

text \<open>What an execution request does to tokens and calls.\<close>

lemma find_first_update_where:
  assumes "\<And>r. q (f r) = q r"
  shows "find_first q (update_where p f rows) = map_option (\<lambda>r. if p r then f r else r) (find_first q rows)"
  using assms by (induction rows) auto

lemma token_of_consume:
  assumes "consumeToken now n w = (b, w')" and "token_of w did = Some k"
  shows "\<exists>k'. token_of w' did = Some k' \<and> k_nonce k' = k_nonce k \<and> (k_used k \<longrightarrow> k_used k')
     \<and> (b \<and> n = k_nonce k \<and> distinct (map k_nonce (tokens w)) \<longrightarrow> k_used k')"
proof -
  have t: "tokens w' = update_where (\<lambda>k. k_nonce k = n \<and> token_consumable now k) (token_spend now) (tokens w)"
    using assms(1) by (auto simp: consumeToken_def)
  have f: "token_of w' did = Some (if k_nonce k = n \<and> token_consumable now k then token_spend now k else k)"
    using assms(2) unfolding token_of_def t by (subst find_first_update_where) (simp_all add: token_spend_def)
  show ?thesis
  proof (cases "k_nonce k = n \<and> token_consumable now k")
    case True
    then show ?thesis using f by (simp add: token_spend_def)
  next
    case False
    have "k_used k" if "b" "n = k_nonce k" "distinct (map k_nonce (tokens w))"
    proof -
      have "token_spent n w'" using consumeToken_spends [of w now n w'] that(1,3) assms(1) by simp
      moreover have "k \<in> set (tokens w')"
        using f False find_first_in [of "\<lambda>k. k_decisionId k = did" "tokens w'"] by (simp add: token_of_def)
      ultimately show ?thesis using that(2) by (auto simp: token_spent_def)
    qed
    then show ?thesis using f False by auto
  qed
qed

lemma token_of_None_consume:
  assumes "consumeToken now n w = (b, w')" and "token_of w did = None"
  shows "token_of w' did = None"
proof -
  have t: "tokens w' = update_where (\<lambda>k. k_nonce k = n \<and> token_consumable now k) (token_spend now) (tokens w)"
    using assms(1) by (auto simp: consumeToken_def)
  show ?thesis
    using assms(2) unfolding token_of_def t by (subst find_first_update_where) (simp_all add: token_spend_def)
qed

lemma nonces_consume:
  "consumeToken now n w = (b, w') \<Longrightarrow> map k_nonce (tokens w') = map k_nonce (tokens w)"
  unfolding consumeToken_def using token.keys_kept by auto

text \<open>The invariant: one call at most, and then the token is used.\<close>

definition single_use :: "string \<Rightarrow> world \<Rightarrow> bool" where
  "single_use did w \<longleftrightarrow> distinct (map k_nonce (tokens w))
     \<and> (calls_for did w = 0 \<or> (calls_for did w = 1 \<and> (case token_of w did of None \<Rightarrow> True | Some k \<Rightarrow> k_used k)))"

lemma used_not_consumable:
  assumes "distinct (map k_nonce (tokens w))" "token_of w did = Some k" "k_used k"
  shows "\<not> fst (consumeToken now (k_nonce k) w)"
proof -
  have "k \<in> set (tokens w)" using assms(2) by (auto simp: token_of_def)
  then have "r = k" if "r \<in> set (tokens w)" "k_nonce r = k_nonce k" for r
    using that assms(1) by (metis distinct_map inj_on_def)
  then have "token_spent (k_nonce k) w" using assms(3) by (auto simp: token_spent_def)
  then show ?thesis using token_spent_refuses by blast
qed

lemma single_use_keep:
  assumes inv: "single_use did w" and step: "consumeToken now n w = (b, w1)"
    and w': "tokens w' = tokens w1" "calls_for did w' = calls_for did w"
  shows "single_use did w'"
proof -
  have tok: "token_of w' did = token_of w1 did" using w'(1) by (simp add: token_of_def)
  have d: "distinct (map k_nonce (tokens w'))" using inv nonces_consume [OF step] w'(1) by (simp add: single_use_def)
  show ?thesis
  proof (cases "token_of w did")
    case None
    then show ?thesis using inv token_of_None_consume [OF step None] d w'(2) tok by (auto simp: single_use_def)
  next
    case (Some k)
    then obtain k' where "token_of w1 did = Some k'" "k_used k \<longrightarrow> k_used k'" using token_of_consume [OF step] by blast
    then show ?thesis using inv Some d w'(2) tok by (auto simp: single_use_def)
  qed
qed

lemma exec_step_single_use:
  assumes inv: "single_use did w"
  shows "single_use did (exec_step rt q w)"
proof -
  obtain x w' where run: "executeDecision rt (rq_clk q) (rq_up q) (rq_late q) (rq_env q) (rq_did q) w = (x, w')"
    by fastforce
  obtain w1 where b: "execute_body rt (rq_clk q) (rq_up q) (rq_late q) (rq_env q) (rq_did q) w = (x, w1)"
    "w' = w1 \<or> w' = fail_task (rq_did q) w1"
    using body_calls_Inl [OF run] .
  have same: "tokens w' = tokens w1" "calls w' = calls w1" using b(2) by auto
  from b(1) have "single_use did w'"
  proof (cases rule: execute_body_cases)
    case (stopped e)
    then show ?thesis using inv same by (simp add: single_use_def token_of_def calls_for_def)
  next
    case (replay d p k act e)
    have "calls_for did w' = calls_for did w"
      using same(2) consumeToken_frame(11) [OF replay(4)] by (simp add: calls_for_def)
    then show ?thesis using single_use_keep [OF inv replay(4) same(1)] by blast
  next
    case (run d p k act t w2)
    note q = locked_execution_quiet [OF run(7)]
    have tok: "tokens w' = tokens w2" using q same(1) by (simp add: quiet_def)
    have did: "d_id d = rq_did q" using find_decision_id [OF run(1)] .
    show ?thesis
    proof (cases "calls w1 = calls w2 \<or> rq_did q \<noteq> did")
      case True
      then have "calls_for did w' = calls_for did w"
        using q same(2) consumeToken_frame(11) [OF run(5)] did by (auto simp: calls_for_def call_of_def)
      then show ?thesis using single_use_keep [OF inv run(5) tok] by blast
    next
      case False
      then have one: "calls_for did w' = calls_for did w + 1"
        using q same(2) consumeToken_frame(11) [OF run(5)] did by (auto simp: calls_for_def call_of_def)
      have k: "token_of w did = Some k" using check_token_Inr [OF run(4)] did False by auto
      have dist: "distinct (map k_nonce (tokens w))" using inv by (simp add: single_use_def)
      have "\<not> k_used k" using used_not_consumable [OF dist k, of "rq_clk q 1"] run(5) by auto
      then have "calls_for did w = 0" using inv k by (auto simp: single_use_def)
      moreover obtain k' where "token_of w2 did = Some k'" "k_used k'"
        using token_of_consume [OF run(5) k] dist by blast
      ultimately show ?thesis
        using one tok nonces_consume [OF run(5)] dist by (simp add: single_use_def token_of_def)
    qed
  qed
  then show ?thesis using run by (simp add: exec_step_def)
qed

text \<open>
  A decision is executed at most once, by any number of execution requests in any order,
  for this and other decisions, with any clocks, Redis answers, timeouts and tool outcomes:
  starting with no call made for it, at most one tool call is ever made for it.
\<close>

theorem decision_executed_at_most_once:
  assumes "distinct (map k_nonce (tokens w))" and "calls_for did w = 0"
  shows "calls_for did (exec_all rt qs w) \<le> 1"
proof -
  have "single_use did w" using assms by (simp add: single_use_def)
  then have "single_use did (exec_all rt qs w)"
    unfolding exec_all_def by (induction qs arbitrary: w) (simp_all add: exec_step_single_use)
  then show ?thesis by (auto simp: single_use_def)
qed

subsection \<open>Where an execution ends\<close>

lemma reserve_found:
  "reserve_execution rt d p w = (Inr r, w') \<Longrightarrow> find_execution w' (d_id d) = Some r"
  by (auto simp: reserve_execution_def find_execution_def fresh_uuid_def Let_def find_first_append new_record_def
      split: option.splits if_splits)

lemma acquire_found:
  assumes "acquire_lock now did w = (True, w')" and "find_execution w did = Some r"
  shows "\<exists>r'. find_execution w' did = Some r'"
proof -
  have e: "executions w' = update_where (\<lambda>e. e_decisionId e = did \<and> lockable e) (start_execution now) (executions w)"
    using assms(1) by (auto simp: acquire_lock_def)
  show ?thesis
    using assms(2) unfolding find_execution_def e
    by (subst find_first_update_where) (simp_all add: start_execution_def)
qed

lemma finish_key [simp]: "e_decisionId (finish_execution now r e) = e_decisionId e"
  by (simp add: finish_execution_def)

lemma finalize_found:
  assumes "finalize rt now later d act r w = (x, w')" and "find_execution w (d_id d) = Some e"
  shows "find_execution w' (d_id d) = Some (finish_execution now r e)"
    and "final_status r \<noteq> E_FAILED \<Longrightarrow> x = Inr (finish_execution now r e)"
    and "final_status r = E_FAILED \<Longrightarrow> \<exists>c s. x = Inl (OperatorExecutionError (d_id d) c s)"
proof -
  let ?w1 = "update_execution (d_id d) (finish_execution now r) w"
  have f: "find_execution ?w1 (d_id d) = Some (finish_execution now r e)"
    using assms(2) by (simp add: find_execution_update)
  moreover have "executions (logAction rt later (operator_details d act r) ?w1) = executions ?w1" by simp
  ultimately show "find_execution w' (d_id d) = Some (finish_execution now r e)"
    using assms(1) by (auto simp: finalize_def Let_def find_execution_def split: if_splits option.splits)
  show "final_status r \<noteq> E_FAILED \<Longrightarrow> x = Inr (finish_execution now r e)"
    "final_status r = E_FAILED \<Longrightarrow> \<exists>c s. x = Inl (OperatorExecutionError (d_id d) c s)"
    using assms(1) f by (auto simp: finalize_def Let_def)
qed

lemma locked_execution_settles:
  assumes "locked_execution rt clk up late env d p t w = (x, w')" and "calls w' \<noteq> calls w"
  shows "\<exists>e r. find_execution w' (d_id d) = Some e \<and> e_status e = final_status r
     \<and> (if final_status r = E_FAILED then \<exists>c s. x = Inl (OperatorExecutionError (d_id d) c s) else x = Inr e)"
proof (cases "reserve_execution rt d p w")
  case (Pair y w1)
  note q1 = quiet_reserve [OF Pair]
  obtain rec where r: "y = Inr rec" "e_status rec \<noteq> E_COMPLETED" "e_status rec \<noteq> E_EXECUTING" "e_status rec \<noteq> E_UNKNOWN"
    using assms Pair q1 by (cases y) (auto simp: locked_execution_def split: if_splits)
  note f1 = reserve_found [OF Pair [unfolded r(1)]]
  obtain b w2 where w2: "acquire_lock (clk 2) (d_id d) w1 = (b, w2)" by fastforce
  note q2 = quiet_acquire [OF w2]
  obtain z w3 where w3: "run_contract up (clk 3) late env t d (provider_key rt d p)
        (jget (p_recommendedOption p) ''parameters'') w2 = (z, w3)" by fastforce
  note q3 = run_contract_cases [OF w3]
  note exe = assms(1) [unfolded locked_execution_def, unfolded Pair r(1), simplified r if_False prod.case sum.case, unfolded w2]
  have b: "b" using exe q1 q2 assms(2) by (cases b) auto
  obtain s where s: "z = Inr s"
    using exe q1 q2 q3 assms(2) w3 b by (cases z) auto
  have fin: "finalize rt (clk 4) (clk 5) d (tool_actionType t) s w3 = (x, w')" using exe b w3 s by simp
  obtain e where "find_execution w2 (d_id d) = Some e" using acquire_found [OF _ f1, of "clk 2" w2] w2 b by auto
  then have e: "find_execution w3 (d_id d) = Some e" using q3 by (simp add: find_execution_def)
  show ?thesis
    using finalize_found [OF fin e]
    by (intro exI [of _ "finish_execution (clk 4) s e"] exI [of _ s]) (simp add: finish_execution_def)
qed

text \<open>
  C27: an execution that calls its tool settles: its record is COMPLETED, FAILED or needs
  reconciliation, never left PENDING or EXECUTING; the request answers with the record unless
  it FAILED, and then it throws the operator's error.
\<close>

theorem execution_settles:
  assumes "executeDecision rt clk up late env did w = (x, w')" and "calls w' \<noteq> calls w"
  shows "\<exists>e. find_execution w' did = Some e \<and> e_status e \<in> {E_COMPLETED, E_FAILED, E_RECONCILIATION_REQUIRED}
     \<and> (if e_status e = E_FAILED then \<exists>c s. x = Inl (OperatorExecutionError did c s) else x = Inr e)"
proof -
  obtain w1 where b: "execute_body rt clk up late env did w = (x, w1)" "w' = w1 \<or> w' = fail_task did w1"
    using body_calls_Inl [OF assms(1)] .
  have same: "calls w' = calls w1" "find_execution w' did = find_execution w1 did"
    using b(2) by (auto simp: find_execution_def)
  from b(1) show ?thesis
  proof (cases rule: execute_body_cases)
    case (run d p k act t w2)
    have "calls w1 \<noteq> calls w2" using assms(2) same consumeToken_frame(11) [OF run(5)] by simp
    from locked_execution_settles [OF run(7) this] obtain e r where
      "find_execution w1 (d_id d) = Some e" "e_status e = final_status r"
      "if final_status r = E_FAILED then \<exists>c s. x = Inl (OperatorExecutionError (d_id d) c s) else x = Inr e"
      by blast
    moreover have "final_status r \<in> {E_COMPLETED, E_FAILED, E_RECONCILIATION_REQUIRED}"
      by (simp add: final_status_def)
    ultimately show ?thesis using same(2) find_decision_id [OF run(1)] by auto
  qed (use assms(2) same consumeToken_frame(11) in auto)
qed

subsection \<open>Replay, rate limit, timeout\<close>

text \<open>
  Asking again for a decision that was executed throws at the spent token, before the
  branch that would return the completed record, and the handler then marks the task as
  failed: the execution record stays COMPLETED, its task becomes FAILED.
\<close>

theorem replay_fails_completed_task:
  assumes run: "executeDecision rt clk up late env did w = (x, w')"
    and d: "find_decision w did = Some d" "find_proposal w (d_proposalId d) = Some p" "p_taskId p \<noteq> []"
    and t: "find_task w (p_taskId p) = Some t"
    and k: "distinct (map k_nonce (tokens w))" "token_of w did = Some k" "k_used k"
    and e: "find_execution w did = Some e" "e_status e = E_COMPLETED"
  shows "(\<exists>er. x = Inl er) \<and> find_task w' (p_taskId p) = Some (t\<lparr>t_status := T_FAILED\<rparr>)
     \<and> find_execution w' did = Some e \<and> calls w' = calls w"
proof -
  obtain y w0 where yw: "execute_body rt clk up late env did w = (y, w0)" by fastforce
  from yw have "(\<exists>er. y = Inl er) \<and> tasks w0 = tasks w \<and> proposals w0 = proposals w \<and> decisions w0 = decisions w
      \<and> executions w0 = executions w \<and> calls w0 = calls w"
  proof (cases rule: execute_body_cases)
    case (replay d' p' k' act er)
    then show ?thesis using consumeToken_frame [OF replay(4)] by auto
  next
    case (run d' p' k' act t' w2)
    have "k' = k" using check_token_Inr [OF run(4)] k(2) find_decision_id [OF run(1)] by auto
    then have False using used_not_consumable [OF k] run(5) by (metis fst_conv)
    then show ?thesis ..
  qed auto
  then obtain er where y: "y = Inl er" and same: "tasks w0 = tasks w" "proposals w0 = proposals w" "decisions w0 = decisions w"
      "executions w0 = executions w" "calls w0 = calls w" by blast
  have x: "x = Inl er" "w' = fail_task did w0" using run yw y by (auto simp: executeDecision_def)
  have ft: "fail_task did w0 = update_task (p_taskId p) (\<lambda>t. t\<lparr>t_status := T_FAILED\<rparr>) w0"
    using d same by (simp add: fail_task_def find_decision_def find_proposal_def)
  have "find_task w' (p_taskId p) = Some (t\<lparr>t_status := T_FAILED\<rparr>)"
    unfolding x(2) ft using t same(1) by (simp add: find_task_update) (simp add: find_task_def)
  then show ?thesis using x same e by (simp add: find_execution_def)
qed

text \<open>
  A tool call over its rate limit does not start, but it is answered as an outage of the
  limiter: the message, and so the UNKNOWN state it leads to, is the one of an unreachable Redis.
\<close>

theorem rate_limit_excess_reported_as_outage:
  assumes "window_at (''operator_ratelimit:'' @ d_tenantId d @ '':'' @ tool_actionType t) n e w" "now < e"
    and "ct_rateLimitPerMinute (tool_contract t) \<le> n"
  shows "fst (run_contract True now late env t d pk ps w) = fst (run_contract False now late env t d pk ps w)
     \<and> calls (snd (run_contract True now late env t d pk ps w)) = calls w"
proof -
  obtain w1 where w1: "window_incr now (''operator_ratelimit:'' @ d_tenantId d @ '':'' @ tool_actionType t) 60 w = (n + 1, w1)"
    using window_counts [OF assms(1,2)] by blast
  have lim: "ct_rateLimitPerMinute (tool_contract t) > 0" by (cases t) simp_all
  have "calls w1 = calls w" using window_incr_frame(11) [OF w1] .
  then show ?thesis using w1 lim assms(3) by (simp add: run_contract_def Let_def)
qed

text \<open>
  When the contract's time runs out the call is classified as plain FAILED, for every
  tool and whatever the tool did: the effects of the call stand, and the record neither
  becomes UNKNOWN nor asks for reconciliation.
\<close>

theorem timeout_is_plain_failure:
  assumes "run_contract up now True env t d pk ps w = (Inr r, w')"
  shows "final_status r = E_FAILED
     \<and> w' = snd (run_contract up now False env t d pk ps w) \<and> calls w' = calls w @ [call_of t d pk ps]"
proof -
  have "calls w' = calls w @ [call_of t d pk ps]" using run_contract_cases [OF assms] by auto
  moreover have "final_status r = E_FAILED \<and> w' = snd (run_contract up now False env t d pk ps w)"
    using assms
    by (auto simp: run_contract_def Let_def final_status_def contract_failure_def split: if_splits prod.splits)
  ultimately show ?thesis by blast
qed

subsection \<open>From approval to execution\<close>

lemma run_contract_starts:
  assumes "pk \<noteq> []" and "fst (window_incr now (''operator_ratelimit:'' @ d_tenantId d @ '':'' @ tool_actionType t) 60 w)
      \<le> ct_rateLimitPerMinute (tool_contract t)"
  shows "\<exists>r w'. run_contract True now late env t d pk ps w = (Inr r, w') \<and> calls w' = calls w @ [call_of t d pk ps]"
proof -
  obtain n w1 where w1: "window_incr now (''operator_ratelimit:'' @ d_tenantId d @ '':'' @ tool_actionType t) 60 w = (n, w1)"
    by fastforce
  have "\<exists>r. fst (run_contract True now late env t d pk ps w) = Inr r"
    using w1 assms by (auto simp: run_contract_def Let_def case_prod_beta)
  then obtain r w' where "run_contract True now late env t d pk ps w = (Inr r, w')" by (metis prod.collapse)
  then show ?thesis using run_contract_cases [of True now late env t d pk ps w "Inr r" w'] by auto
qed

lemma locked_execution_starts:
  assumes fresh: "find_execution w (d_id d) = None"
      "\<forall>e \<in> set (executions w). \<not> (e_tenantId e = d_tenantId d \<and> e_idempotencyKey e = idempotency_key rt d p)"
    and key: "provider_key rt d p \<noteq> []"
    and limit: "\<And>v. redis v = redis w \<Longrightarrow>
        fst (window_incr (clk 3) (''operator_ratelimit:'' @ d_tenantId d @ '':'' @ tool_actionType t) 60 v)
          \<le> ct_rateLimitPerMinute (tool_contract t)"
    and run: "locked_execution rt clk True late env d p t w = (x, w')"
  shows "calls w' = calls w @ [call_of t d (provider_key rt d p) (jget (p_recommendedOption p) ''parameters'')]"
proof -
  obtain r w1 where res: "reserve_execution rt d p w = (Inr r, w1)" and r: "e_status r = E_PENDING" "e_decisionId r = d_id d"
      "r \<in> set (executions w1)" "redis w1 = redis w" "calls w1 = calls w"
    using fresh by (auto simp: reserve_execution_def fresh_uuid_def Let_def count_where_0 new_record_def)
  have "0 < count_where (\<lambda>e. e_decisionId e = d_id d \<and> lockable e) (executions w1)"
    using r by (auto simp: count_where_pos lockable_def)
  then obtain w2 where acq: "acquire_lock (clk 2) (d_id d) w1 = (True, w2)" "redis w2 = redis w" "calls w2 = calls w"
    using r(4,5) by (auto simp: acquire_lock_def)
  obtain s w3 where rc: "run_contract True (clk 3) late env t d (provider_key rt d p) (jget (p_recommendedOption p) ''parameters'') w2
        = (Inr s, w3)" "calls w3 = calls w2 @ [call_of t d (provider_key rt d p) (jget (p_recommendedOption p) ''parameters'')]"
    using run_contract_starts [OF key limit [OF acq(2)]] by blast
  have "finalize rt (clk 4) (clk 5) d (tool_actionType t) s w3 = (x, w')"
    using run res r(1) acq(1) rc(1) by (simp add: locked_execution_def)
  then show ?thesis using finalize_quiet rc(2) acq(3) by metis
qed

text \<open>A decision whose token checks, is still unspent and whose record does not exist yet calls its tool.\<close>

lemma checked_runs:
  assumes found: "find_decision w did = Some d" "find_proposal w (d_proposalId d) = Some p" "executable (d_decisionType d)"
    and check: "check_token rt (clk 0) w d (p_recommendedOption p) = Inr (k, act)" "find_tool (Some (JStr act)) = Some t"
    and spend: "k \<in> set (tokens w)" "token_consumable (clk 1) k"
    and fresh: "find_execution w (d_id d) = None"
      "\<forall>e \<in> set (executions w). \<not> (e_tenantId e = d_tenantId d \<and> e_idempotencyKey e = idempotency_key rt d p)"
    and key: "provider_key rt d p \<noteq> []"
    and limit: "\<And>v. redis v = redis w \<Longrightarrow>
        fst (window_incr (clk 3) (''operator_ratelimit:'' @ d_tenantId d @ '':'' @ tool_actionType t) 60 v)
          \<le> ct_rateLimitPerMinute (tool_contract t)"
    and exe: "executeDecision rt clk True late env did w = (x, w')"
  shows "calls w' = calls w @ [call_of t d (provider_key rt d p) (jget (p_recommendedOption p) ''parameters'')]"
proof -
  have "0 < count_where (\<lambda>r. k_nonce r = k_nonce k \<and> token_consumable (clk 1) r) (tokens w)"
    unfolding count_where_pos using spend by blast
  then obtain w1 where con: "consumeToken (clk 1) (k_nonce k) w = (True, w1)"
    by (simp add: consumeToken_def)
  note fr = consumeToken_frame [OF con]
  obtain y w2 where lx: "locked_execution rt clk True late env d p t w1 = (y, w2)" by fastforce
  have "calls w2 = calls w1 @ [call_of t d (provider_key rt d p) (jget (p_recommendedOption p) ''parameters'')]"
  proof (rule locked_execution_starts [OF _ _ key _ lx])
    show "find_execution w1 (d_id d) = None" using fresh(1) fr(4) by (simp add: find_execution_def)
    show "\<forall>e\<in>set (executions w1). \<not> (e_tenantId e = d_tenantId d \<and> e_idempotencyKey e = idempotency_key rt d p)"
      using fresh(2) fr(4) by simp
    show "\<And>v. redis v = redis w1 \<Longrightarrow>
        fst (window_incr (clk 3) (''operator_ratelimit:'' @ d_tenantId d @ '':'' @ tool_actionType t) 60 v)
          \<le> ct_rateLimitPerMinute (tool_contract t)"
      using limit fr(10) by simp
  qed
  moreover have "execute_body rt clk True late env did w = (y, w2)"
    using found check con lx by (auto simp: execute_body_def)
  then have "calls w' = calls w2" using exe by (auto simp: executeDecision_def split: sum.splits)
  ultimately show ?thesis using fr(11) by simp
qed

lemma approved_runs:
  assumes eval: "evaluateProposal rt cfg clk up pid w = (Inr d, w1)"
    and keys: "signing_law rt" "\<And>m. rt_sign rt m \<noteq> []" "\<And>m. rt_sha256 rt m \<noteq> []"
    and fresh: "find_decision w (d_id d) = None" "token_of w (d_id d) = None" "find_execution w (d_id d) = None"
      "\<And>p. \<forall>e \<in> set (executions w). \<not> (e_tenantId e = d_tenantId d \<and> e_idempotencyKey e = idempotency_key rt d p)"
    and time: "clk' 0 \<le> clk 2 + 900000" "clk' 1 \<le> clk 2 + 900000"
    and limit: "\<And>t v. redis v = redis w1 \<Longrightarrow>
        fst (window_incr (clk' 3) (''operator_ratelimit:'' @ d_tenantId d @ '':'' @ tool_actionType t) 60 v)
          \<le> ct_rateLimitPerMinute (tool_contract t)"
    and exe: "executeDecision rt clk' True late env (d_id d) w1 = (x, w2)"
  shows "\<exists>p t. find_proposal w pid = Some p
     \<and> jget (p_recommendedOption p) ''actionType'' = Some (JStr (tool_actionType t))
     \<and> calls w2 = calls w @ [call_of t d (provider_key rt d p) (jget (p_recommendedOption p) ''parameters'')]"
  using eval keys(2)
proof (rule approval_effect)
  fix p act j vh and cap :: capability
  let ?tp = "token_for p (d_id d) act (cap_id cap) (decision_hash rt p (d_id d) j) j (clk 2 + token_ttl)"
  let ?k = "token_row_of ?tp (signToken rt ?tp) vh"
  let ?p = "p\<lparr>p_status := P_APPROVED\<rparr>"
  assume p: "find_proposal w pid = Some p" "p_id p = pid" "jget (p_recommendedOption p) ''actionType'' = Some (JStr act)"
    "getCapabilityForTool (Some (JStr act)) = Some cap"
    and d: "d_decisionType d = D_APPROVE \<or> d_decisionType d = D_APPROVE_WITH_CONSTRAINTS" "d_proposalId d = pid"
    and ex: "executions w1 = executions w" and ca: "calls w1 = calls w"
    and ds: "decisions w1 = decisions w @ [d]"
    and ps: "proposals w1 = update_where (\<lambda>r. p_id r = pid) (\<lambda>r. r\<lparr>p_status := P_APPROVED\<rparr>) (proposals w)"
    and ts: "tokens w1 = tokens w @ [?k]"
  obtain t where t: "act = tool_actionType t" "find_tool (Some (JStr act)) = Some t"
    using capability_iff_tool [of "Some (JStr act)"] p(4) find_tool_iff by auto
  have fd: "find_decision w1 (d_id d) = Some d"
    using fresh(1) by (simp add: find_decision_def ds find_first_append)
  have fp: "find_proposal w1 pid = Some ?p"
    using p(1) by (simp add: find_proposal_def ps find_first_update_key)
  have tk: "token_of w1 (d_id d) = Some ?k"
    using fresh(2) by (simp add: token_of_def ts find_first_append token_row_of_def token_for_def)
  have ck: "check_token rt (clk' 0) w1 d (p_recommendedOption ?p) = Inr (?k, act)"
  proof -
    have "verifyTokenSignature rt (reconstructed_payload ?k act (cap_id cap)) (k_signature ?k)"
      unfolding reconstruct_issued using verify_signed [OF keys(1)] by (simp add: token_row_of_def)
    moreover have "p_recommendedOption p \<noteq> JNull" using p(3) by auto
    moreover have "\<not> k_expiresAt ?k < clk' 0" using time(1) by (simp add: token_row_of_def token_for_def token_ttl_def)
    moreover have "generatePayloadHash rt (k_tenantId ?k) (k_taskId ?k) (k_proposalId ?k) (k_decisionId ?k) (p_recommendedOption p) (k_nonce ?k)
        = k_payloadHash ?k"
      by (simp add: token_row_of_def token_for_def decision_hash_def)
    ultimately show ?thesis using tk p(3,4) by (simp add: check_token_def opt_string_def)
  qed
  have "calls w2 = calls w1 @ [call_of t d (provider_key rt d ?p) (jget (p_recommendedOption ?p) ''parameters'')]"
  proof (rule checked_runs [OF fd _ _ ck t(2) _ _ _ _ _ _ exe])
    show "token_consumable (clk' 1) ?k"
      using time(2) by (simp add: token_consumable_def token_row_of_def token_for_def token_ttl_def)
    show "find_execution w1 (d_id d) = None" using fresh(3) ex by (simp add: find_execution_def)
    show "\<forall>e\<in>set (executions w1). \<not> (e_tenantId e = d_tenantId d \<and> e_idempotencyKey e = idempotency_key rt d ?p)"
      using fresh(4) ex by simp
    show "provider_key rt d ?p \<noteq> []" using keys(3) by (simp add: provider_key_def)
  qed (use fp d limit ts in \<open>auto simp: executable_def\<close>)
  then have "calls w2 = calls w @ [call_of t d (provider_key rt d p) (jget (p_recommendedOption p) ''parameters'')]"
    using ca by (simp add: provider_key_def)
  then show ?thesis using p(1,3) t(1) by auto
qed


end
