(* ===== verification/Demo.thy ===== *)
theory Demo
  imports Default_Policies Operator_Laws
begin

section \<open>A small concrete world\<close>

text \<open>
  One tenant, one task, one proposal to read the database, a runtime whose digest and
  signature are plain prefixes: the inputs at which the properties are instantiated.
\<close>

definition demo_rt :: runtime where
  "demo_rt = \<lparr>rt_sha256 = (\<lambda>s. CHR ''h'' # s), rt_sign = (\<lambda>m. CHR ''s'' # m), rt_verify = (\<lambda>m s. s = CHR ''s'' # m),
     rt_uuid = (\<lambda>n. replicate n (CHR ''u'')), rt_schema_message = (\<lambda>s v. [])\<rparr>"

definition demo_proposal :: "json \<Rightarrow> proposal_row" where
  "demo_proposal v = \<lparr>p_id = ''p'', p_tenantId = ''a'', p_taskId = ''t'', p_parentProposalId = None,
     p_recommendedOption = v, p_fallbackOptions = JArr [], p_contextSignals = JObj [], p_status = P_PENDING\<rparr>"

definition demo_read :: json where
  "demo_read = JObj [(''actionType'', JStr ''READ_DATABASE''), (''parameters'', JObj [(''query'', JStr ''q'')])]"

definition demo_task :: task_row where
  "demo_task = \<lparr>t_id = ''t'', t_tenantId = ''a'', t_idempotencyKey = None, t_objective = ''o'', t_status = T_PROCESSING,
     t_expiresAt = None, t_version = 1, t_createdAt = 0\<rparr>"

definition demo_world :: "json \<Rightarrow> world" where
  "demo_world v = empty_world\<lparr>tasks := [demo_task], proposals := [demo_proposal v]\<rparr>"

text \<open>A policy file of one rule that constrains every action.\<close>

definition demo_policy :: policy where
  "demo_policy = \<lparr>pol_id = ''P'', pol_name = ''n'', pol_description = ''d'', pol_targets = [''*''], pol_rule = CONSTRAINT,
     pol_inject = Some [(''maxRecords'', jnat 5)], pol_cond = None, pol_risk = MEDIUM\<rparr>"

definition demo_cfg :: policy_file where
  "demo_cfg = Some (''f'', [demo_policy])"

definition demo_eval :: "json \<Rightarrow> (exn + decision_row) \<times> world" where
  "demo_eval v = evaluateProposal demo_rt demo_cfg (\<lambda>i. 0) (\<lambda>i. True) ''p'' (demo_world v)"

lemma demo_find [simp]: "find_proposal (demo_world v) ''p'' = Some (demo_proposal v)"
  by (simp add: find_proposal_def demo_world_def demo_proposal_def)

lemma demo_proposal_simps [simp]:
  "p_id (demo_proposal v) = ''p''" "p_tenantId (demo_proposal v) = ''a''" "p_taskId (demo_proposal v) = ''t''"
  "p_recommendedOption (demo_proposal v) = v" "p_contextSignals (demo_proposal v) = JObj []"
  by (simp_all add: demo_proposal_def)

lemma demo_world_simps [simp]:
  "tokens (demo_world v) = []" "decisions (demo_world v) = []" "executions (demo_world v) = []" "calls (demo_world v) = []"
  "policies (demo_world v) = []" "audits (demo_world v) = []" "uuids_drawn (demo_world v) = 0" "redis (demo_world v) = Map.empty"
  "tasks (demo_world v) = [demo_task]"
  by (simp_all add: demo_world_def empty_world_def)

lemma demo_rt_simps [simp]:
  "rt_sha256 demo_rt s = CHR ''h'' # s" "rt_sign demo_rt m = CHR ''s'' # m"
  "rt_verify demo_rt m s \<longleftrightarrow> s = CHR ''s'' # m" "rt_uuid demo_rt n = replicate n (CHR ''u'')"
  by (simp_all add: demo_rt_def)

lemma demo_signing [simp]: "signing_law demo_rt"
  by (simp add: signing_law_def)

lemma demo_pre: "\<exists>cap. pre_checks demo_rt ''p'' demo_read = Inr (''READ_DATABASE'', cap) \<and> \<not> cap_human cap"
  by (simp add: pre_checks_def demo_read_def getCapabilityForTool_def CAPABILITY_REGISTRY_def find_tool_def tool_map_eq
      registered_tools_def contract_rows_check_def scope_checks_def first_error_def amount_check_def rows_check_def
      currency_check_def requested_rows_def jget_opt_def coalesce_def nullish_def or_else_def opt_string_def)

lemma demo_options:
  "\<exists>w'. evaluateOptions demo_rt demo_cfg ''a'' (Some (JStr ''READ_DATABASE'')) (jget demo_read ''parameters'') c (demo_world v)
     = (Inr ([policy_outcome demo_policy], CHR ''h'' # ''f''), w') \<and> uuids_drawn w' = 1"
  by (simp add: evaluateOptions_def load_policies_def active_policy_def demo_cfg_def seed_policy_def fresh_uuid_def
      evaluate_rules_def targets_action_def demo_policy_def policy_applies_def demo_read_def)

lemma demo_read_approved:
  obtains d w' where "demo_eval demo_read = (Inr d, w')" "d_id d = ''u''"
proof -
  obtain cap where cap: "pre_checks demo_rt ''p'' demo_read = Inr (''READ_DATABASE'', cap)" "\<not> cap_human cap"
    using demo_pre by blast
  obtain w1 where w1: "evaluateOptions demo_rt demo_cfg ''a'' (Some (JStr ''READ_DATABASE'')) (jget demo_read ''parameters'')
      (Some (or_else (Some (JObj [])) (JObj []))) (demo_world demo_read) = (Inr ([policy_outcome demo_policy], CHR ''h'' # ''f''), w1)"
      "uuids_drawn w1 = 1"
    using demo_options [of "Some (or_else (Some (JObj [])) (JObj []))" demo_read] by (elim exE conjE) (rule that)
  have dec: "\<exists>s. decide (\<lambda>i. 0) (\<lambda>i. True) ''a'' ''READ_DATABASE'' cap (jget demo_read ''parameters'') [policy_outcome demo_policy] w1
      = (s, w1) \<and> gs_decision s = D_APPROVE_WITH_CONSTRAINTS"
    using cap(2)
    by (simp add: decide_def velocity_controls_def fold_from_start human_review_guard_def spec_decision_def policy_outcome_def
        demo_policy_def Let_def del: fold_results.simps)
  then obtain s where s: "decide (\<lambda>i. 0) (\<lambda>i. True) ''a'' ''READ_DATABASE'' cap (jget demo_read ''parameters'') [policy_outcome demo_policy] w1
      = (s, w1)" "gs_decision s = D_APPROVE_WITH_CONSTRAINTS" by blast
  let ?acc = "fold_results [policy_outcome demo_policy] gov_init"
  obtain d w' where d: "record_decision demo_rt (\<lambda>i. 0) (demo_proposal demo_read) ''READ_DATABASE'' (cap_id cap) (CHR ''h'' # ''f'') s
      (ga_constraints ?acc) (ga_approvers ?acc) w1 = (d, w')" by fastforce
  have "d_decisionType d = D_APPROVE_WITH_CONSTRAINTS" "d_id d = ''u''"
    using record_decision_effect(1) [OF d] s(2) w1(2) by simp_all
  moreover have "demo_eval demo_read = (governor_answer ''p'' (gs_results s) d, w')"
    using cap(1) w1(1) s(1) d by (simp add: demo_eval_def evaluateProposal_def Let_def)
  ultimately show thesis using that by (simp add: governor_answer_def)
qed

text \<open>The approved read, executed with a clock at 0, Redis up and the tool in time.\<close>

definition demo_env :: tool_env where
  "demo_env = \<lparr>te_now = 0, te_random = 0, te_url = (\<lambda>u. Some (''https:'', ''example.com'')), te_url_message = (\<lambda>u. []),
     te_allowlist = None, te_axios = (\<lambda>c. Inr (JObj [(''status'', jnat 200)])), te_pg_url = Some ''db'',
     te_pg = (\<lambda>q v. Inr (JArr [], Some 0)), te_base = ''/srv/sandbox'', te_link = (\<lambda>p. p), te_dir = (\<lambda>p. False),
     te_type_message = (\<lambda>a v. [])\<rparr>"

definition demo_exec :: "string \<Rightarrow> world \<Rightarrow> (exn + execution_row) \<times> world" where
  "demo_exec did w = executeDecision demo_rt (\<lambda>i. 0) True False demo_env did w"

lemma evaluate_redis:
  assumes "demo_eval demo_read = (Inr d, w')"
  shows "redis w' = Map.empty"
  using assms [unfolded demo_eval_def] demo_find
proof (cases rule: evaluateProposal_cases)
  case (decided act cap results vh w1 s w2 d')
  have act: "act = ''READ_DATABASE''"
    using pre_checks_action [OF decided(1)] by (simp add: demo_read_def)
  have "redis w1 = Map.empty" using evaluateOptions_frame(9) [OF decided(2)] by simp
  moreover have "w2 = w1" using decided(3) by (simp add: decide_def velocity_controls_def act Let_def)
  moreover have "redis w' = redis w2" using decided(4) by (auto simp: record_decision_def fresh_uuid_def Let_def)
  ultimately show ?thesis by simp
qed simp_all

lemma demo_executes:
  obtains d w1 x w2 c where "demo_eval demo_read = (Inr d, w1)" "demo_exec (d_id d) w1 = (x, w2)" "calls w1 = []" "calls w2 = [c]"
proof -
  obtain d w1 where d: "demo_eval demo_read = (Inr d, w1)" by (rule demo_read_approved)
  obtain x w2 where x: "demo_exec (d_id d) w1 = (x, w2)" by fastforce
  have ev: "evaluateProposal demo_rt demo_cfg (\<lambda>i. 0) (\<lambda>i. True) ''p'' (demo_world demo_read) = (Inr d, w1)"
    using d by (simp add: demo_eval_def)
  have rate: "1 \<le> ct_rateLimitPerMinute (tool_contract t)" for t by (cases t) simp_all
  have "\<exists>p t. find_proposal (demo_world demo_read) ''p'' = Some p
     \<and> jget (p_recommendedOption p) ''actionType'' = Some (JStr (tool_actionType t))
     \<and> calls w2 = calls (demo_world demo_read) @ [call_of t d (provider_key demo_rt d p) (jget (p_recommendedOption p) ''parameters'')]"
    by (rule approved_runs [OF ev, where clk' = "\<lambda>i. 0" and late = False and env = demo_env and x = x])
      (use x rate evaluate_redis [OF d] in \<open>auto simp: find_decision_def token_of_def find_execution_def demo_exec_def
          window_incr_def redis_live_def\<close>)
  moreover have "calls w1 = []" using approval_effect [OF ev] by (metis demo_rt_simps(2) demo_world_simps(4) list.distinct(1))
  ultimately show thesis using that d x by auto
qed

lemma demo_token_row:
  assumes "demo_eval demo_read = (Inr d, w')"
  shows "\<exists>k. token_of w' (d_id d) = Some k \<and> find_decision w' (d_id d) = Some d \<and> d_proposalId d = ''p''
     \<and> find_proposal w' ''p'' = Some (demo_proposal demo_read\<lparr>p_status := P_APPROVED\<rparr>)
     \<and> list_all bar_free [k_tenantId k, k_taskId k, k_proposalId k, k_decisionId k, k_nonce k]
     \<and> k_payloadHash k = generatePayloadHash demo_rt (k_tenantId k) (k_taskId k) (k_proposalId k) (k_decisionId k) demo_read (k_nonce k)"
  using assms [unfolded demo_eval_def] demo_find
proof (cases rule: evaluateProposal_cases)
  case (decided act cap results vh w1 s w2 d')
  note eff = record_decision_effect [OF decided(4)]
  have d: "d' = d" "is_approve (gs_decision s)"
    using answer_Inr [OF decided(5) [symmetric]] decide_range(1) [OF decided(3)] by (auto simp: eff(1))
  have fr: "tokens w2 = []" "decisions w2 = []" "proposals w2 = [demo_proposal demo_read]"
    using evaluateOptions_frame [OF decided(2)] decide_frame [OF decided(3)]
    by (simp_all add: demo_world_def empty_world_def)
  have sign: "\<And>m. rt_sign demo_rt m \<noteq> []" by simp
  have st: "proposal_status_of (gs_decision s) = P_APPROVED" using d(2) by (simp add: proposal_status_of_def)
  let ?j = "rt_uuid demo_rt (Suc (uuids_drawn w2))" and ?i = "rt_uuid demo_rt (uuids_drawn w2)"
  let ?tp = "token_for (demo_proposal demo_read) ?i act (cap_id cap) (decision_hash demo_rt (demo_proposal demo_read) ?i ?j) ?j (0 + token_ttl)"
  let ?k = "token_row_of ?tp (signToken demo_rt ?tp) vh"
  have tok: "tokens w' = [?k]" using eff(3) fr(1) issue_token_approve [OF d(2) sign] by simp
  have did: "d_id d = ?i" using eff(1) d(1) by simp
  have "bar_free (replicate n (CHR ''u''))" for n by (auto simp: bar_free_def)
  moreover have "bar_free ''a''" "bar_free ''t''" "bar_free ''p''" by (simp_all add: bar_free_def)
  ultimately have "list_all bar_free [k_tenantId ?k, k_taskId ?k, k_proposalId ?k, k_decisionId ?k, k_nonce ?k]"
    by (simp add: token_row_of_def token_for_def del: replicate.simps)
  moreover have "token_of w' (d_id d) = Some ?k"
    by (simp add: token_of_def tok did token_row_of_def token_for_def)
  moreover have "k_payloadHash ?k = generatePayloadHash demo_rt (k_tenantId ?k) (k_taskId ?k) (k_proposalId ?k) (k_decisionId ?k) demo_read (k_nonce ?k)"
    by (simp add: token_row_of_def token_for_def decision_hash_def)
  moreover have "find_decision w' (d_id d) = Some d" using eff(2) fr(2) d(1) by (simp add: find_decision_def)
  moreover have "d_proposalId d = ''p''" using eff(1) d(1) by simp
  moreover have "find_proposal w' ''p'' = Some (demo_proposal demo_read\<lparr>p_status := P_APPROVED\<rparr>)"
    using eff(4) fr(3) st by (simp add: find_proposal_def)
  ultimately show ?thesis by blast
qed simp_all

end
