(* ===== verification/Witnesses.thy ===== *)
theory Witnesses
  imports Demo
begin

section \<open>The properties at concrete inputs\<close>

text \<open>
  Every property with a hypothesis, applied where its hypotheses hold: the demonstration
  world, its approved read and small literal inputs.
\<close>

subsection \<open>Tokens and audit\<close>

definition demo_token :: token_row where
  "demo_token = \<lparr>k_nonce = ''n'', k_decisionId = ''d'', k_tenantId = ''a'', k_taskId = ''t'', k_proposalId = ''p'',
     k_payloadHash = [], k_signature = [], k_used = False, k_usedAt = None, k_expiresAt = 9, k_policyVersionHash = None\<rparr>"

theorem token_consumed_at_most_once_witness:
  "length (filter (\<lambda>r. r = (''n'', True)) (consume_all [(0, ''n''), (1, ''n''), (2, ''m'')] (empty_world\<lparr>tokens := [demo_token]\<rparr>))) \<le> 1"
  by (rule token_consumed_at_most_once) simp

definition demo_entries :: "(int \<times> audit_details) list" where
  "demo_entries = [(1, log_entry ''a'' (JStr ''x'')), (2, log_entry ''b'' (JStr ''y'')), (3, log_entry ''a'' (JStr ''z''))]"


subsection \<open>Tools\<close>

definition demo_ctx :: tool_context where
  "demo_ctx = \<lparr>tx_constraints = None, tx_rollbackActive = False, tx_rollbackData = None, tx_providerIdempotencyKey = None\<rparr>"

definition demo_write :: json where
  "demo_write = JObj [(''operation'', JStr ''WRITE''), (''filename'', JStr ''f''), (''content'', JStr ''x'')]"

lemma demo_base: "normal_base (te_base demo_env)"
  unfolding normal_base_def demo_env_def
  by (rule exI [of _ "[''srv'', ''sandbox'']"]) (simp add: seg_ok_def slash_def path_of_def)

lemma demo_path: "path_resolve (te_base demo_env) ''f'' = ''/srv/sandbox/f''"
  by code_simp

lemma demo_link [simp]: "te_link demo_env q = q"
  by (simp add: demo_env_def)

lemma demo_resolve: "resolveSafePath demo_env empty_world (Some (JStr ''f'')) = Inr ''/srv/sandbox/f''"
proof -
  have "path_dirname ''/srv/sandbox/f'' = te_base demo_env" by code_simp
  moreover have "starts_with ''/srv/sandbox/f'' (te_base demo_env)" by code_simp
  moreover have "\<not> fs_exists demo_env empty_world ''/srv/sandbox/f''"
    by (simp add: fs_exists_def demo_env_def empty_world_def)
  moreover have "starts_with (te_base demo_env) (te_base demo_env)" by (simp add: starts_with_def)
  moreover have "fs_exists demo_env empty_world (te_base demo_env)" by (simp add: fs_exists_def)
  ultimately show ?thesis unfolding resolveSafePath_def by (simp add: demo_path Let_def)
qed

lemma demo_write_runs:
  "filesystem_operator demo_env (Some demo_write) demo_ctx empty_world
   = (Inr (tool_ok [''resolve_path'', ''write_file''] True
       (Some (JObj [(''rollbackData'', JObj [(''operation'', JStr ''DELETE''), (''filename'', JStr ''f'')])]))),
      fs_write demo_env ''/srv/sandbox/f'' ''x'' empty_world)"
proof -
  have "\<not> is_directory demo_env ''/srv/sandbox/f''" by (simp add: is_directory_def demo_env_def)
  moreover have "files empty_world = Map.empty" by (simp add: empty_world_def)
  ultimately show ?thesis
    by (simp add: filesystem_operator_def guard_parameters_def destructure_def demo_write_def jget_opt_def truthy_opt_def
        demo_resolve write_file_def obj_literal_def Let_def)
qed



theorem http_success_guarded_witness:
  "\<exists>url host. jget_opt (Some (JObj [(''url'', JStr ''https://example.com/'')])) ''url'' = Some (JStr url)
     \<and> te_url demo_env url = Some (''https:'', host)
     \<and> js_lower host \<notin> set forbiddenHostnames
     \<and> \<not> starts_with (js_lower host) ''10.'' \<and> \<not> starts_with (js_lower host) ''192.168.'' \<and> \<not> private_172 (js_lower host)
     \<and> (case te_allowlist demo_env of None \<Rightarrow> True
        | Some raw \<Rightarrow> raw = [] \<or> js_lower host \<in> set (map (\<lambda>h. js_lower (js_trim h)) (js_split (CHR '','') raw)))"
proof -
  have "ssrf_guard None ''https:'' ''example.com'' = None" by code_simp
  then have run: "\<exists>r. http_request demo_env (Some (JObj [(''url'', JStr ''https://example.com/'')])) demo_ctx empty_world
      = (Inr r, empty_world) \<and> tr_status r = TS_SUCCESS"
    by (simp add: http_request_def guard_parameters_def destructure_def jget_opt_def demo_env_def Let_def)
  then obtain r where "http_request demo_env (Some (JObj [(''url'', JStr ''https://example.com/'')])) demo_ctx empty_world
      = (Inr r, empty_world)" "tr_status r = TS_SUCCESS" by blast
  then show ?thesis by (rule http_success_guarded)
qed

theorem postgres_success_guarded_witness:
  "\<exists>q args rows n. jget_opt (Some (JObj [(''query'', JStr ''SELECT 1'')])) ''query'' = Some (JStr q) \<and> sql_guard q = None
     \<and> sanitize q \<noteq> [] \<and> te_pg_url demo_env \<noteq> None \<and> te_pg demo_env (bounded_query q) args = Inr (rows, n)
     \<and> Some (JArr []) = Some rows \<and> (case n of None \<Rightarrow> True | Some k \<Rightarrow> k \<le> 1000)"
proof -
  have "sql_guard ''SELECT 1'' = None" "sanitize ''SELECT 1'' \<noteq> []" by code_simp+
  then have "\<exists>r. postgresql_query demo_env (Some (JObj [(''query'', JStr ''SELECT 1'')])) demo_ctx empty_world
      = (Inr r, empty_world) \<and> tr_status r = TS_SUCCESS \<and> tr_data r = Some (JArr [])"
    by (simp add: postgresql_query_def guard_parameters_def destructure_def jget_opt_def demo_env_def)
  then obtain r where r: "postgresql_query demo_env (Some (JObj [(''query'', JStr ''SELECT 1'')])) demo_ctx empty_world
      = (Inr r, empty_world)" "tr_status r = TS_SUCCESS" "tr_data r = Some (JArr [])" by blast
  show ?thesis using postgres_success_guarded [OF r(1,2)] unfolding r(3) .
qed

subsection \<open>Governor\<close>

definition demo_result :: policy_result where
  "demo_result = \<lparr>r_policyId = ''x'', r_passed = True, r_action = INJECT_CONSTRAINT, r_reason = [],
     r_injected = Some [(''k'', jnat 1)], r_risk = LOW, r_suggested = None, r_required = None\<rparr>"

theorem constraints_last_writer_wins_witness:
  "map_of (ga_constraints (fold_results [demo_result] gov_init)) ''k'' =
     (case find_first (\<lambda>r. ''k'' \<in> fst ` set (injected_of r)) (rev (upto_reject [demo_result])) of
        None \<Rightarrow> None | Some r \<Rightarrow> map_of (injected_of r) ''k'')"
  by (rule constraints_last_writer_wins) (simp add: demo_result_def injected_of_def)

theorem human_review_never_bypassed_witness:
  "\<exists>d w' p a. demo_eval demo_read = (Inr d, w') \<and> find_proposal (demo_world demo_read) ''p'' = Some p
     \<and> jget (p_recommendedOption p) ''actionType'' = Some (JStr a)
     \<and> a \<in> {''READ_DATABASE'', ''POSTGRESQL_QUERY'', ''FILE_SYSTEM_OPERATOR'', ''SLACK_OPERATOR'', ''ZENDESK_OPERATOR''}"
proof -
  obtain d w' where d: "demo_eval demo_read = (Inr d, w')" by (rule demo_read_approved)
  from human_review_never_bypassed [OF d [unfolded demo_eval_def]] obtain p a where
    "find_proposal (demo_world demo_read) ''p'' = Some p" "jget (p_recommendedOption p) ''actionType'' = Some (JStr a)"
    "a \<in> {''READ_DATABASE'', ''POSTGRESQL_QUERY'', ''FILE_SYSTEM_OPERATOR'', ''SLACK_OPERATOR'', ''ZENDESK_OPERATOR''}"
    by (elim exE conjE)
  with d show ?thesis by (intro exI conjI)
qed

theorem approval_issues_valid_token_witness:
  "\<exists>d w' k. demo_eval demo_read = (Inr d, w') \<and> tokens w' = [k] \<and> k_decisionId k = d_id d \<and> \<not> k_used k
     \<and> verifyTokenSignature demo_rt (reconstructed_payload k ''READ_DATABASE'' ''database.read'') (k_signature k)"
proof -
  obtain d w' where d: "demo_eval demo_read = (Inr d, w')" by (rule demo_read_approved)
  have "\<exists>k p act cap. tokens w' = [k] \<and> find_proposal (demo_world demo_read) ''p'' = Some p
         \<and> jget (p_recommendedOption p) ''actionType'' = Some (JStr act)
         \<and> getCapabilityForTool (Some (JStr act)) = Some cap
         \<and> k_decisionId k = d_id d \<and> \<not> k_used k
         \<and> verifyTokenSignature demo_rt (reconstructed_payload k act (cap_id cap)) (k_signature k)"
    using approval_issues_valid_token [OF d [unfolded demo_eval_def] demo_signing] by auto
  then obtain k p act cap where k: "tokens w' = [k]" "find_proposal (demo_world demo_read) ''p'' = Some p"
    "jget (p_recommendedOption p) ''actionType'' = Some (JStr act)" "getCapabilityForTool (Some (JStr act)) = Some cap"
    "k_decisionId k = d_id d" "\<not> k_used k"
    "verifyTokenSignature demo_rt (reconstructed_payload k act (cap_id cap)) (k_signature k)" by blast
  have "p = demo_proposal demo_read" using k(2) by simp
  then have "act = ''READ_DATABASE''" using k(3) by (simp add: demo_read_def)
  moreover from this have "cap_id cap = ''database.read''" using k(4) by (auto elim: capability_cases)
  ultimately show ?thesis using d k by auto
qed

definition demo_transfer :: json where
  "demo_transfer = JObj [(''actionType'', JStr ''TRANSFER_FUNDS''), (''parameters'', JObj [(''amount'', jnat 5000)])]"

theorem transfer_amount_bounds_witness:
  "snd (demo_eval demo_transfer) = demo_world demo_transfer
   \<and> (\<exists>m. fst (demo_eval demo_transfer) = Inl (GovernorRejectionError ''p'' m None))"
proof -
  have "num_lt (Fin 1000 0) (Fin 5000 0)" unfolding num_lt_int by simp
  then show ?thesis
    using transfer_amount_bounds [where w = "demo_world demo_transfer" and pid = "''p''" and a = "Fin 5000 0"
        and p = "demo_proposal demo_transfer", OF prod.collapse [symmetric] demo_find]
    unfolding demo_eval_def by (simp add: demo_transfer_def jget_opt_def)
qed

theorem evaluation_is_recorded_witness:
  "\<exists>d r. decisions (snd (demo_eval demo_read)) = [d] \<and> audits (snd (demo_eval demo_read)) = [r]
     \<and> a_decisionId r = Some (d_id d)"
proof -
  obtain cap where cap: "pre_checks demo_rt ''p'' (p_recommendedOption (demo_proposal demo_read)) = Inr (''READ_DATABASE'', cap)"
    using demo_pre by auto
  have "jget (p_recommendedOption (demo_proposal demo_read)) ''parameters'' \<noteq> Some JNull" by (simp add: demo_read_def)
  from evaluation_is_recorded [OF prod.collapse [symmetric] demo_find cap this, of demo_cfg "\<lambda>i. 0" "\<lambda>i. True"]
  show ?thesis unfolding demo_eval_def by auto
qed


theorem default_transfer_decision_witness:
  "default_decision ''TRANSFER_FUNDS'' (Some (JObj [(''amount'', jnat 600)])) None = D_BLOCK_AND_ESCALATE"
proof -
  have "num_lt (Fin 500 0) (Fin 600 0)" unfolding num_lt_int by simp
  then show ?thesis
    using default_transfer_decision [of "Some (JObj [(''amount'', jnat 600)])" "Fin 600 0" None]
    by (simp add: jget_opt_def untrusted_recipient_def)
qed

theorem default_query_decision_witness:
  "default_decision ''POSTGRESQL_QUERY'' (Some (JObj [(''query'', JStr ''SELECT 1'')])) None =
     (if \<exists>x \<in> set [''DELETE'', ''DROP'', ''TRUNCATE'', ''ALTER'']. sublist x (js_upper ''SELECT 1'')
      then D_REJECT_AND_REPLAN else D_APPROVE_WITH_CONSTRAINTS)"
  by (rule default_query_decision) (simp add: jget_opt_def)

theorem default_other_decisions_witness:
  "default_decision ''HTTP_REQUEST'' None None = D_APPROVE_WITH_CONSTRAINTS"
  using default_other_decisions [of None None] by simp

subsection \<open>Operator\<close>

theorem tool_call_authorized_witness:
  "\<exists>d w1 d' k. demo_eval demo_read = (Inr d, w1) \<and> find_decision w1 (d_id d) = Some d' \<and> executable (d_decisionType d')
     \<and> token_of w1 (d_id d) = Some k \<and> fst (consumeToken 0 (k_nonce k) w1)"
proof -
  obtain d w1 x w2 c where r: "demo_eval demo_read = (Inr d, w1)" "demo_exec (d_id d) w1 = (x, w2)" "calls w1 = []" "calls w2 = [c]"
    by (rule demo_executes)
  then have "calls w2 \<noteq> calls w1" by simp
  from tool_call_authorized [OF r(2) [unfolded demo_exec_def] this] show ?thesis using r(1) by blast
qed

theorem executed_payload_is_approved_payload_witness:
  "\<exists>d w1 w2 x. demo_eval demo_read = (Inr d, w1) \<and> demo_exec (d_id d) w1 = (x, w2) \<and> calls w2 \<noteq> calls w1
     \<and> sort_keys (p_recommendedOption (demo_proposal demo_read\<lparr>p_status := P_APPROVED\<rparr>)) = sort_keys demo_read"
proof -
  obtain d w1 x w2 c where r: "demo_eval demo_read = (Inr d, w1)" "demo_exec (d_id d) w1 = (x, w2)" "calls w1 = []" "calls w2 = [c]"
    by (rule demo_executes)
  then have called: "calls w2 \<noteq> calls w1" by simp
  obtain k where k: "token_of w1 (d_id d) = Some k" "find_decision w1 (d_id d) = Some d" "d_proposalId d = ''p''"
     "find_proposal w1 ''p'' = Some (demo_proposal demo_read\<lparr>p_status := P_APPROVED\<rparr>)"
     "list_all bar_free [k_tenantId k, k_taskId k, k_proposalId k, k_decisionId k, k_nonce k]"
     "k_payloadHash k = generatePayloadHash demo_rt (k_tenantId k) (k_taskId k) (k_proposalId k) (k_decisionId k) demo_read (k_nonce k)"
    using demo_token_row [OF r(1)] by (elim exE conjE) (rule that)
  have p: "find_proposal w1 (d_proposalId d) = Some (demo_proposal demo_read\<lparr>p_status := P_APPROVED\<rparr>)" using k(3,4) by simp
  have wf: "wf_json demo_read" by (simp add: demo_read_def)
  have "sort_keys (p_recommendedOption (demo_proposal demo_read\<lparr>p_status := P_APPROVED\<rparr>)) = sort_keys demo_read"
    by (rule executed_payload_is_approved_payload [OF r(2) [unfolded demo_exec_def] called k(1) k(6) k(2) p k(5) wf])
      (simp_all add: wf)
  with r(1,2) called show ?thesis by (intro exI conjI)
qed

theorem execution_settles_witness:
  "\<exists>d w1 e. demo_eval demo_read = (Inr d, w1) \<and> find_execution (snd (demo_exec (d_id d) w1)) (d_id d) = Some e
     \<and> e_status e \<in> {E_COMPLETED, E_FAILED, E_RECONCILIATION_REQUIRED}"
proof -
  obtain d w1 x w2 c where r: "demo_eval demo_read = (Inr d, w1)" "demo_exec (d_id d) w1 = (x, w2)" "calls w1 = []" "calls w2 = [c]"
    by (rule demo_executes)
  then have "calls w2 \<noteq> calls w1" by simp
  from execution_settles [OF r(2) [unfolded demo_exec_def] this] show ?thesis using r(1,2) by auto
qed

theorem decision_executed_at_most_once_witness:
  "calls_for ''d'' (exec_all demo_rt [\<lparr>rq_clk = (\<lambda>i. 0), rq_up = True, rq_late = False, rq_env = demo_env, rq_did = ''d''\<rparr>]
     (empty_world\<lparr>tokens := [demo_token]\<rparr>)) \<le> 1"
  by (rule decision_executed_at_most_once) (simp_all add: calls_for_def empty_world_def)


definition demo_decision :: decision_row where
  "demo_decision = \<lparr>d_id = ''d'', d_tenantId = ''a'', d_proposalId = ''p'', d_decisionType = D_APPROVE, d_riskLevel = LOW,
     d_policyResults = [], d_constraints = None, d_requiredApprovers = 1, d_approvalsCount = 0, d_approverIdentities = None,
     d_approvedPayloadHash = None, d_createdAt = 0\<rparr>"

definition demo_done :: world where
  "demo_done = (demo_world demo_read)\<lparr>decisions := [demo_decision], tokens := [demo_token\<lparr>k_used := True\<rparr>],
     executions := [(new_record ''e'' demo_decision (demo_proposal demo_read) ''i'' ''j'')\<lparr>e_status := E_COMPLETED\<rparr>]\<rparr>"

theorem replay_fails_completed_task_witness:
  "find_task (snd (demo_exec ''d'' demo_done)) ''t'' = Some (demo_task\<lparr>t_status := T_FAILED\<rparr>)"
proof -
  obtain x w' where r: "demo_exec ''d'' demo_done = (x, w')" by fastforce
  have "find_task w' (p_taskId (demo_proposal demo_read)) = Some (demo_task\<lparr>t_status := T_FAILED\<rparr>)"
    using replay_fails_completed_task [OF r [unfolded demo_exec_def], of demo_decision "demo_proposal demo_read" demo_task
        "demo_token\<lparr>k_used := True\<rparr>" "(new_record ''e'' demo_decision (demo_proposal demo_read) ''i'' ''j'')\<lparr>e_status := E_COMPLETED\<rparr>"]
    by (simp add: demo_done_def find_decision_def find_proposal_def find_task_def token_of_def find_execution_def demo_decision_def
        demo_world_def demo_proposal_def demo_task_def demo_token_def new_record_def)
  then show ?thesis using r by simp
qed

theorem rate_limit_excess_reported_as_outage_witness:
  "fst (run_contract True 0 False demo_env TransferFundsOperator demo_decision ''k'' None
         (redis_set (''operator_ratelimit:a:TRANSFER_FUNDS'') (Some (10, Some 60000)) empty_world))
   = fst (run_contract False 0 False demo_env TransferFundsOperator demo_decision ''k'' None
         (redis_set (''operator_ratelimit:a:TRANSFER_FUNDS'') (Some (10, Some 60000)) empty_world))"
  using rate_limit_excess_reported_as_outage [where d = demo_decision and t = TransferFundsOperator and n = 10 and e = 60000
      and now = 0 and w = "redis_set (''operator_ratelimit:a:TRANSFER_FUNDS'') (Some (10, Some 60000)) empty_world"
      and late = False and env = demo_env and pk = "''k''" and ps = None]
  by (simp add: window_at_def demo_decision_def)

theorem timeout_is_plain_failure_witness:
  "\<exists>r w'. run_contract True 0 True demo_env FileSystemOperator demo_decision ''k'' (Some demo_write) empty_world = (Inr r, w')
     \<and> final_status r = E_FAILED"
proof -
  obtain r w' where r: "run_contract True 0 True demo_env FileSystemOperator demo_decision ''k'' (Some demo_write) empty_world = (Inr r, w')"
    using run_contract_starts [of "''k''" 0 demo_decision FileSystemOperator empty_world True demo_env "Some demo_write"]
    by (auto simp: window_incr_def redis_live_def empty_world_def)
  then show ?thesis using timeout_is_plain_failure [OF r] by blast
qed

end
