(* ===== verification/Override.thy ===== *)
theory Override
  imports Operator_Laws
begin

section \<open>Human override of an escalated decision (api/controllers.ts, overrideDecision)\<close>

text \<open>
  The handler in four phases, cut where it commits to the database: it reads the decision and
  checks the request, casts the vote with a compare-and-set on the number of approvals, locks
  the decision when enough votes are in, and then creates the override decision with its token,
  logs and executes it. \<open>overrideDecision\<close> runs the phases one after the other; the step
  relation \<open>ov_step\<close> interleaves the phases of any number of concurrent requests.
\<close>

datatype reply = Reply int json | Executed execution_row

definition error_reply :: "int \<Rightarrow> string \<Rightarrow> reply" where
  "error_reply st m = Reply st (JObj [(''error'', JStr m)])"

subsection \<open>Reading and checking\<close>

definition approvers :: "decision_row \<Rightarrow> string list" where
  "approvers d = (case d_approverIdentities d of
     None \<Rightarrow> [] | Some s \<Rightarrow> if s = [] then [] else js_split (CHR '','') s)"

definition four_hours :: int where
  "four_hours = 1000 * 60 * 60 * 4"

text \<open>The refusal, or the decision as read.\<close>

definition override_read :: "int \<Rightarrow> string \<Rightarrow> string \<Rightarrow> string \<Rightarrow> world \<Rightarrow> reply + decision_row" where
  "override_read now decisionId tenantId userId w =
     (case find_first (\<lambda>d. d_id d = decisionId \<and> d_tenantId d = tenantId) (decisions w) of
        None \<Rightarrow> Inl (error_reply 404 ''Decision not found'')
      | Some d \<Rightarrow>
          if d_decisionType d \<noteq> D_BLOCK_AND_ESCALATE
          then Inl (error_reply 400 ''Decision is not in ESCALATED state awaiting human override.'')
          else if (case find_first (\<lambda>x. d_proposalId x = d_proposalId d \<and> d_decisionType x = D_HUMAN_OVERRIDE_APPROVED) (decisions w) of
                     None \<Rightarrow> False
                   | Some ov \<Rightarrow> (case find_execution w (d_id ov) of None \<Rightarrow> False | Some e \<Rightarrow> e_status e = E_COMPLETED))
          then Inl (error_reply 403 ''Security Violation: Escalation has already been overridden and executed. Anti-Replay enforced.'')
          else if userId \<in> set (approvers d)
          then Inl (error_reply 403 ''Security Violation: You have already provided your signature for this decision. Another unique administrator must approve.'')
          else if now - d_createdAt d > four_hours
          then Inl (error_reply 403 ''Security Violation: This decision has expired waiting for human approval. The Advisor must replan.'')
          else Inr d)"

subsection \<open>The vote\<close>

definition votable :: "int \<Rightarrow> decision_row \<Rightarrow> bool" where
  "votable n d \<longleftrightarrow> d_decisionType d = D_BLOCK_AND_ESCALATE \<and> d_approvalsCount d = n"

definition add_vote :: "string \<Rightarrow> decision_row \<Rightarrow> decision_row" where
  "add_vote identities d = d\<lparr>d_approvalsCount := d_approvalsCount d + 1, d_approverIdentities := Some identities\<rparr>"

interpretation vote: guarded_update d_id "votable n" "add_vote ids" for n ids
  by unfold_locales (simp_all add: votable_def add_vote_def)

definition vote_string :: "string \<Rightarrow> decision_row \<Rightarrow> string" where
  "vote_string userId d = js_join '','' (approvers d @ [userId])"

definition cast_vote :: "string \<Rightarrow> decision_row \<Rightarrow> world \<Rightarrow> bool \<times> world" where
  "cast_vote userId d w =
     (let p = (\<lambda>x. d_id x = d_id d \<and> votable (d_approvalsCount d) x)
      in (0 < count_where p (decisions w),
          w\<lparr>decisions := update_where p (add_vote (vote_string userId d)) (decisions w)\<rparr>))"

definition vote_count :: "decision_row \<Rightarrow> int" where
  "vote_count d = d_approvalsCount d + 1"

subsection \<open>The lock\<close>

definition escalated :: "decision_row \<Rightarrow> bool" where
  "escalated d \<longleftrightarrow> d_decisionType d = D_BLOCK_AND_ESCALATE"

definition lock_row :: "decision_row \<Rightarrow> decision_row" where
  "lock_row d = d\<lparr>d_decisionType := D_OVERRIDE_IN_PROGRESS\<rparr>"

interpretation override_lock: guarded_update d_id escalated lock_row
  by unfold_locales (simp_all add: escalated_def lock_row_def)

definition lock_decision :: "string \<Rightarrow> world \<Rightarrow> bool \<times> world" where
  "lock_decision decisionId w =
     (0 < count_where (\<lambda>x. d_id x = decisionId \<and> escalated x) (decisions w),
      w\<lparr>decisions := update_where (\<lambda>x. d_id x = decisionId \<and> escalated x) lock_row (decisions w)\<rparr>)"

subsection \<open>The override decision and its execution\<close>

definition override_details :: "string \<Rightarrow> string \<Rightarrow> decision_row \<Rightarrow> string \<Rightarrow> string \<Rightarrow> audit_details" where
  "override_details tenantId userId d newId ids =
     (log_entry tenantId (obj_literal
        [(''actor'', Some (JStr ''HumanOverride'')), (''action'', Some (JStr ''approve_override'')),
         (''originalDecisionId'', Some (JStr (d_id d))), (''approverIdentities'', Some (JStr ids)),
         (''approvalsCount'', Some (jnat (vote_count d))), (''requiredApprovers'', Some (jnat (d_requiredApprovers d))),
         (''performedBy'', Some (JStr userId))]))
     \<lparr>l_proposalId := Some (d_proposalId d), l_decisionId := Some newId, l_approverIdentities := Some ids\<rparr>"

definition override_row :: "runtime \<Rightarrow> proposal_row \<Rightarrow> decision_row \<Rightarrow> string \<Rightarrow> string \<Rightarrow> string \<Rightarrow> int \<Rightarrow> decision_row" where
  "override_row rt p d newId nonce ids now =
     d\<lparr>d_id := newId, d_decisionType := D_HUMAN_OVERRIDE_APPROVED, d_approvalsCount := vote_count d,
       d_approverIdentities := Some ids,
       d_approvedPayloadHash := Some (generatePayloadHash rt (d_tenantId d) (p_taskId p) (d_proposalId d) newId (p_recommendedOption p) nonce),
       d_createdAt := now\<rparr>"

text \<open>
  The governor only escalates proposals whose action is a registered tool, so the action is a string here.
\<close>

definition override_token :: "runtime \<Rightarrow> proposal_row \<Rightarrow> decision_row \<Rightarrow> string \<Rightarrow> string \<Rightarrow> int \<Rightarrow> token_row" where
  "override_token rt p d newId nonce now =
     (let a = jget (p_recommendedOption p) ''actionType''; act = opt_string a;
          capId = (case getCapabilityForTool a of Some cap \<Rightarrow> cap_id cap | None \<Rightarrow> act);
          tp = \<lparr>tp_decisionId = newId, tp_tenantId = d_tenantId d, tp_taskId = p_taskId p, tp_proposalId = d_proposalId d,
                tp_operator = act, tp_allowedActions = [act],
                tp_payloadHash = generatePayloadHash rt (d_tenantId d) (p_taskId p) (d_proposalId d) newId (p_recommendedOption p) nonce,
                tp_capabilityIds = [capId], tp_nonce = nonce, tp_expiresAt = now + 1000 * 60 * 15\<rparr>
      in \<lparr>k_nonce = nonce, k_decisionId = newId, k_tenantId = tp_tenantId tp, k_taskId = tp_taskId tp,
          k_proposalId = tp_proposalId tp, k_payloadHash = tp_payloadHash tp, k_signature = signToken rt tp,
          k_used = False, k_usedAt = None, k_expiresAt = tp_expiresAt tp, k_policyVersionHash = None\<rparr>)"

text \<open>Everything recorded before the execution; the id of the override decision.\<close>

definition record_override :: "runtime \<Rightarrow> (nat \<Rightarrow> int) \<Rightarrow> string \<Rightarrow> string \<Rightarrow> proposal_row \<Rightarrow> decision_row \<Rightarrow> world \<Rightarrow> string \<times> world" where
  "record_override rt clk tenantId userId p d w =
     (case fresh_uuid rt w of (newId, w1) \<Rightarrow>
      case fresh_uuid rt w1 of (nonce, w2) \<Rightarrow>
       (let ids = vote_string userId d;
            w3 = w2\<lparr>decisions := decisions w2 @ [override_row rt p d newId nonce ids (clk 2)],
                    tokens := tokens w2 @ [override_token rt p d newId nonce (clk 1)]\<rparr>;
            w4 = update_proposal (d_proposalId d) (\<lambda>r. r\<lparr>p_status := P_APPROVED\<rparr>) w3
        in (newId, logAction rt (clk 3) (override_details tenantId userId d newId ids) w4)))"

definition complete_task :: "string \<Rightarrow> world \<Rightarrow> world" where
  "complete_task taskId w = update_task taskId (\<lambda>t. t\<lparr>t_status := T_COMPLETED, t_version := t_version t + 1\<rparr>) w"

definition execute_override :: "runtime \<Rightarrow> (nat \<Rightarrow> int) \<Rightarrow> bool \<Rightarrow> bool \<Rightarrow> tool_env \<Rightarrow> string \<Rightarrow> string \<Rightarrow> decision_row \<Rightarrow> world \<Rightarrow> reply \<times> world" where
  "execute_override rt clk up late env tenantId userId d w =
     (case find_proposal w (d_proposalId d) of
        None \<Rightarrow> (error_reply 500 ''Operator Execution Failed'', w)
      | Some p \<Rightarrow>
          if p_recommendedOption p = JNull
          then (error_reply 500 ''Operator Execution Failed'', snd (fresh_uuid rt (snd (fresh_uuid rt w))))
          else (case record_override rt clk tenantId userId p d w of (newId, w1) \<Rightarrow>
             (case executeDecision rt (\<lambda>i. clk (i + 4)) up late env newId w1 of
                (Inl e, w2) \<Rightarrow> (error_reply 500 ''Operator Execution Failed'', w2)
              | (Inr report, w2) \<Rightarrow> (Executed report, complete_task (p_taskId p) w2))))"

definition need_more :: "string \<Rightarrow> decision_row \<Rightarrow> reply" where
  "need_more userId d = Reply 200 (JObj
     [(''message'', JStr (''Approval recorded. '' @ num_str (Fin (vote_count d) 0) @ '' of ''
         @ num_str (Fin (d_requiredApprovers d) 0) @ '' obtained. Action is still PENDING.'')),
      (''approvalsCount'', jnat (vote_count d)), (''requiredApprovers'', jnat (d_requiredApprovers d)),
      (''approverIdentities'', JArr (map JStr (approvers d @ [userId])))])"

definition overrideDecision :: "runtime \<Rightarrow> (nat \<Rightarrow> int) \<Rightarrow> bool \<Rightarrow> bool \<Rightarrow> tool_env \<Rightarrow> string \<Rightarrow> string \<Rightarrow> string \<Rightarrow> world \<Rightarrow> reply \<times> world" where
  "overrideDecision rt clk up late env decisionId tenantId userId w =
     (case override_read (clk 0) decisionId tenantId userId w of
        Inl r \<Rightarrow> (r, w)
      | Inr d \<Rightarrow>
          (case cast_vote userId d w of
             (False, w1) \<Rightarrow> (error_reply 409 ''Concurrent approval detected. Please retry.'', w1)
           | (True, w1) \<Rightarrow>
               if vote_count d < d_requiredApprovers d then (need_more userId d, w1)
               else (case lock_decision decisionId w1 of
                 (False, w2) \<Rightarrow> (error_reply 409 ''Override already in progress by another approver. Please wait.'', w2)
               | (True, w2) \<Rightarrow> execute_override rt clk up late env tenantId userId d w2)))"

subsection \<open>Concurrent requests\<close>

text \<open>
  A request on one decision is the user with what the handler has done so far. Between the
  phases of one request the phases of others may run. Only the decision row matters to the
  vote and to the lock, so a configuration is that row and the requests.
\<close>

datatype phase = Arrived | HasRead decision_row | HasVoted decision_row | HasLocked decision_row | Stopped

type_synonym ov_config = "decision_row \<times> (string \<times> phase) list"

inductive ov_step :: "ov_config \<Rightarrow> ov_config \<Rightarrow> bool" where
  read_ok: "i < length rs \<Longrightarrow> rs ! i = (u, Arrived) \<Longrightarrow> escalated d \<Longrightarrow> u \<notin> set (approvers d) \<Longrightarrow>
     ov_step (d, rs) (d, rs[i := (u, HasRead d)])"
| refused: "i < length rs \<Longrightarrow> rs ! i = (u, Arrived) \<Longrightarrow> ov_step (d, rs) (d, rs[i := (u, Stopped)])"
| vote_ok: "i < length rs \<Longrightarrow> rs ! i = (u, HasRead s) \<Longrightarrow> votable (d_approvalsCount s) d \<Longrightarrow>
     ov_step (d, rs) (add_vote (vote_string u s) d, rs[i := (u, HasVoted s)])"
| vote_lost: "i < length rs \<Longrightarrow> rs ! i = (u, HasRead s) \<Longrightarrow> \<not> votable (d_approvalsCount s) d \<Longrightarrow>
     ov_step (d, rs) (d, rs[i := (u, Stopped)])"
| more_needed: "i < length rs \<Longrightarrow> rs ! i = (u, HasVoted s) \<Longrightarrow> vote_count s < d_requiredApprovers s \<Longrightarrow>
     ov_step (d, rs) (d, rs[i := (u, Stopped)])"
| lock_ok: "i < length rs \<Longrightarrow> rs ! i = (u, HasVoted s) \<Longrightarrow> \<not> vote_count s < d_requiredApprovers s \<Longrightarrow> escalated d \<Longrightarrow>
     ov_step (d, rs) (lock_row d, rs[i := (u, HasLocked s)])"
| lock_lost: "i < length rs \<Longrightarrow> rs ! i = (u, HasVoted s) \<Longrightarrow> \<not> vote_count s < d_requiredApprovers s \<Longrightarrow> \<not> escalated d \<Longrightarrow>
     ov_step (d, rs) (d, rs[i := (u, Stopped)])"

inductive_cases ov_stepE: "ov_step c c'"

inductive ov_reach :: "ov_config \<Rightarrow> ov_config \<Rightarrow> bool" where
  start: "ov_reach c c"
| next_step: "ov_reach c c' \<Longrightarrow> ov_step c' c'' \<Longrightarrow> ov_reach c c''"

subsection \<open>The phases on the decision row\<close>

lemma find_update_guarded:
  assumes "distinct (map d_id rows)" and "find_first (\<lambda>x. d_id x = i) rows = Some r" and "\<And>x. d_id (f x) = d_id x"
  shows "0 < count_where (\<lambda>x. d_id x = i \<and> g x) rows \<longleftrightarrow> g r"
    and "find_first (\<lambda>x. d_id x = i) (update_where (\<lambda>x. d_id x = i \<and> g x) f rows) = Some (if g r then f r else r)"
proof -
  have r: "r \<in> set rows" "d_id r = i" using assms(2) find_first_in find_first_sat by fast+
  have uniq: "g x = g r" if "x \<in> set rows" "d_id x = i" for x
  proof -
    have "x = r" using that r assms(1) by (metis distinct_map inj_on_def)
    then show ?thesis by simp
  qed
  show "0 < count_where (\<lambda>x. d_id x = i \<and> g x) rows \<longleftrightarrow> g r"
    unfolding count_where_pos using r uniq by blast
  show "find_first (\<lambda>x. d_id x = i) (update_where (\<lambda>x. d_id x = i \<and> g x) f rows) = Some (if g r then f r else r)"
    using assms(2,3) r by (subst find_first_update_where) simp_all
qed

text \<open>The database operations of the handler are the guards and writes of the step relation.\<close>

lemma cast_vote_row:
  assumes "distinct (map d_id (decisions w))" and "find_decision w (d_id s) = Some r" and "cast_vote u s w = (b, w')"
  shows "b = votable (d_approvalsCount s) r
     \<and> find_decision w' (d_id s) = Some (if votable (d_approvalsCount s) r then add_vote (vote_string u s) r else r)"
proof -
  have "find_first (\<lambda>x. d_id x = d_id s) (decisions w) = Some r" using assms(2) by (simp add: find_decision_def)
  note row = find_update_guarded [OF assms(1) this, of "add_vote (vote_string u s)" "votable (d_approvalsCount s)"]
  have "d_id (add_vote (vote_string u s) x) = d_id x" for x by (simp add: add_vote_def)
  from row [OF this] show ?thesis
    unfolding find_decision_def using assms(3) by (clarsimp simp: cast_vote_def Let_def)
qed

lemma lock_decision_row:
  assumes "distinct (map d_id (decisions w))" and "find_decision w i = Some r" and "lock_decision i w = (b, w')"
  shows "b = escalated r \<and> find_decision w' i = Some (if escalated r then lock_row r else r)"
proof -
  have "find_first (\<lambda>x. d_id x = i) (decisions w) = Some r" using assms(2) by (simp add: find_decision_def)
  note row = find_update_guarded [OF assms(1) this, of lock_row escalated]
  have "d_id (lock_row x) = d_id x" for x by (simp add: lock_row_def)
  from row [OF this] show ?thesis
    unfolding find_decision_def using assms(3) by (clarsimp simp: lock_decision_def)
qed

lemma override_read_ok:
  assumes "override_read now i t u w = Inr d"
  shows "find_first (\<lambda>d. d_id d = i \<and> d_tenantId d = t) (decisions w) = Some d \<and> escalated d
     \<and> u \<notin> set (approvers d) \<and> now - d_createdAt d \<le> four_hours"
  using assms unfolding override_read_def Let_def
  by (simp add: escalated_def split: option.splits if_split_asm)

lemma override_read_row:
  assumes "override_read now i t u w = Inr d" and "distinct (map d_id (decisions w))"
  shows "find_decision w i = Some d \<and> d_id d = i"
proof -
  have "find_first (\<lambda>d. d_id d = i \<and> d_tenantId d = t) (decisions w) = Some d"
    using override_read_ok [OF assms(1)] by blast
  then have d: "d \<in> set (decisions w)" "d_id d = i" using find_first_in find_first_sat by fast+
  have "find_first (\<lambda>x. d_id x = d_id d) (decisions w) = Some d"
    by (rule find_first_key [OF assms(2) d(1)]) simp
  then show ?thesis using d by (simp add: find_decision_def)
qed

subsection \<open>Counting approvals\<close>

definition plain_user :: "string \<Rightarrow> bool" where
  "plain_user u \<longleftrightarrow> u \<noteq> [] \<and> CHR '','' \<notin> set u"

lemma join_nonempty: "u \<noteq> [] \<Longrightarrow> js_join sep (ws @ [u]) \<noteq> []"
  by (cases "ws = []") (simp_all add: join_snoc)

lemma approvers_vote:
  assumes "list_all plain_user (approvers s)" and "plain_user u"
  shows "approvers (add_vote (vote_string u s) d) = approvers s @ [u]"
proof -
  have "js_split (CHR '','') (js_join '','' (approvers s @ [u])) = approvers s @ [u]"
    using assms by (intro split_join) (auto simp: list_all_iff plain_user_def)
  moreover have "js_join '','' (approvers s @ [u]) \<noteq> []"
    using assms(2) by (intro join_nonempty) (simp add: plain_user_def)
  ultimately show ?thesis by (simp add: approvers_def add_vote_def vote_string_def)
qed

lemma add_vote_simps [simp]:
  "d_approvalsCount (add_vote ids d) = d_approvalsCount d + 1" "d_requiredApprovers (add_vote ids d) = d_requiredApprovers d"
  "d_decisionType (add_vote ids d) = d_decisionType d" "escalated (add_vote ids d) = escalated d"
  by (simp_all add: add_vote_def escalated_def)

lemma lock_row_simps [simp]:
  "d_approvalsCount (lock_row d) = d_approvalsCount d" "d_requiredApprovers (lock_row d) = d_requiredApprovers d"
  "\<not> escalated (lock_row d)" "approvers (lock_row d) = approvers d" "\<not> votable n (lock_row d)"
  by (simp_all add: lock_row_def escalated_def approvers_def votable_def)

definition row_ok :: "int \<Rightarrow> string set \<Rightarrow> decision_row \<Rightarrow> bool" where
  "row_ok k users d \<longleftrightarrow> int (length (approvers d)) = d_approvalsCount d \<and> distinct (approvers d)
     \<and> list_all plain_user (approvers d) \<and> set (approvers d) \<subseteq> users \<and> d_requiredApprovers d = k"

fun request_ok :: "int \<Rightarrow> string set \<Rightarrow> decision_row \<Rightarrow> string \<times> phase \<Rightarrow> bool" where
  "request_ok k users d (u, HasRead s) \<longleftrightarrow> row_ok k users s \<and> u \<notin> set (approvers s)
     \<and> d_approvalsCount s \<le> d_approvalsCount d \<and> (d_approvalsCount s = d_approvalsCount d \<longrightarrow> approvers s = approvers d)"
| "request_ok k users d (u, HasVoted s) \<longleftrightarrow> row_ok k users s \<and> vote_count s \<le> d_approvalsCount d"
| "request_ok k users d (u, HasLocked s) \<longleftrightarrow> row_ok k users s \<and> vote_count s \<le> d_approvalsCount d
     \<and> k \<le> vote_count s \<and> \<not> escalated d"
| "request_ok k users d (u, _) \<longleftrightarrow> True"

fun is_locked :: "string \<times> phase \<Rightarrow> bool" where
  "is_locked (u, HasLocked s) = True"
| "is_locked _ = False"

definition ov_inv :: "int \<Rightarrow> string set \<Rightarrow> ov_config \<Rightarrow> bool" where
  "ov_inv k users c \<longleftrightarrow> (case c of (d, rs) \<Rightarrow>
     row_ok k users d \<and> fst ` set rs \<subseteq> users \<and> (\<forall>u \<in> users. plain_user u) \<and> (\<forall>q \<in> set rs. request_ok k users d q)
     \<and> count_where is_locked rs \<le> (if escalated d then 0 else 1))"

lemma count_update:
  "i < length rs \<Longrightarrow> count_where p (rs[i := x]) + (if p (rs ! i) then 1 else 0) = count_where p rs + (if p x then 1 else 0)"
proof (induction rs arbitrary: i)
  case (Cons r rs)
  then show ?case by (cases i) auto
qed simp

text \<open>A request keeps its invariant while the row gains votes or is locked.\<close>

lemma request_ok_vote:
  assumes "request_ok k users d q"
  shows "request_ok k users (add_vote ids d) q"
  using assms by (cases "(k, users, d, q)" rule: request_ok.cases) (auto simp: add_vote_def vote_count_def escalated_def)

lemma request_ok_lock:
  assumes "request_ok k users d q"
  shows "request_ok k users (lock_row d) q"
  using assms by (cases "(k, users, d, q)" rule: request_ok.cases) auto

lemma ov_inv_update:
  assumes inv: "ov_inv k users (d, rs)" and i: "i < length rs" "rs ! i = (u, ph)"
    and row: "row_ok k users d'" and keep: "\<And>q. request_ok k users d q \<Longrightarrow> request_ok k users d' q"
    and new: "request_ok k users d' (u, ph')"
    and locks: "count_where is_locked (rs[i := (u, ph')]) \<le> (if escalated d' then 0 else 1)"
  shows "ov_inv k users (d', rs[i := (u, ph')])"
proof -
  have "u \<in> users" using inv i by (force simp: ov_inv_def dest: nth_mem)
  then have "fst ` set (rs[i := (u, ph')]) \<subseteq> users"
    using inv set_update_subset_insert [of rs i "(u, ph')"] by (force simp: ov_inv_def)
  moreover have "\<forall>q \<in> set (rs[i := (u, ph')]). request_ok k users d' q"
    using inv keep new set_update_subset_insert [of rs i "(u, ph')"] by (fastforce simp: ov_inv_def)
  ultimately show ?thesis using inv row locks by (simp add: ov_inv_def)
qed

lemma ov_step_inv:
  assumes "ov_step c c'" and "ov_inv k users c"
  shows "ov_inv k users c'"
  using assms
proof (induction rule: ov_step.induct)
  case (read_ok i rs u d)
  show ?case
    by (rule ov_inv_update [OF read_ok(5,1,2)])
      (use read_ok count_update [of i rs is_locked "(u, HasRead d)"] in \<open>auto simp: ov_inv_def\<close>)
next
  case (refused i rs u d)
  show ?case
    by (rule ov_inv_update [OF refused(3,1,2)])
      (use refused count_update [of i rs is_locked "(u, Stopped)"] in \<open>auto simp: ov_inv_def\<close>)
next
  case (vote_ok i rs u s d)
  have q: "request_ok k users d (u, HasRead s)" using vote_ok(1,2,4) by (force simp: ov_inv_def dest: nth_mem)
  have u: "u \<in> users" using vote_ok(1,2,4) by (force simp: ov_inv_def dest: nth_mem)
  have cnt: "d_approvalsCount d = d_approvalsCount s" using vote_ok(3) by (simp add: votable_def)
  have ap: "approvers (add_vote (vote_string u s) d) = approvers d @ [u]"
    using q u vote_ok(4) approvers_vote [of s u d] cnt by (auto simp: ov_inv_def row_ok_def)
  have row: "row_ok k users (add_vote (vote_string u s) d)"
    using q u vote_ok(4) cnt by (auto simp: ov_inv_def row_ok_def ap)
  show ?case
    by (rule ov_inv_update [OF vote_ok(4,1,2) row request_ok_vote])
      (use q cnt vote_ok count_update [of i rs is_locked "(u, HasVoted s)"] in \<open>auto simp: ov_inv_def vote_count_def\<close>)
next
  case (vote_lost i rs u s d)
  show ?case
    by (rule ov_inv_update [OF vote_lost(4,1,2)])
      (use vote_lost count_update [of i rs is_locked "(u, Stopped)"] in \<open>auto simp: ov_inv_def\<close>)
next
  case (more_needed i rs u s d)
  show ?case
    by (rule ov_inv_update [OF more_needed(4,1,2)])
      (use more_needed count_update [of i rs is_locked "(u, Stopped)"] in \<open>auto simp: ov_inv_def\<close>)
next
  case (lock_ok i rs u s d)
  have q: "request_ok k users d (u, HasVoted s)" using lock_ok(1,2,5) by (force simp: ov_inv_def dest: nth_mem)
  have row: "row_ok k users (lock_row d)" using lock_ok(5) by (simp add: ov_inv_def row_ok_def)
  show ?case
    by (rule ov_inv_update [OF lock_ok(5,1,2) row request_ok_lock])
      (use q lock_ok count_update [of i rs is_locked "(u, HasLocked s)"] in \<open>auto simp: ov_inv_def row_ok_def\<close>)
next
  case (lock_lost i rs u s d)
  show ?case
    by (rule ov_inv_update [OF lock_lost(5,1,2)])
      (use lock_lost count_update [of i rs is_locked "(u, Stopped)"] in \<open>auto simp: ov_inv_def\<close>)
qed

lemma ov_reach_inv: "ov_reach c c' \<Longrightarrow> ov_inv k users c \<Longrightarrow> ov_inv k users c'"
  by (induction rule: ov_reach.induct) (auto intro: ov_step_inv)


text \<open>
  A user id with a comma is never recognised as having approved: the list of approvers is
  kept as one comma-separated string, so such a user passes the duplicate check again and again.
\<close>

theorem comma_user_never_recognised:
  assumes "CHR '','' \<in> set u"
  shows "u \<notin> set (approvers d)"
  using assms split_words_no_sep [of u "CHR '',''"] by (auto simp: approvers_def split: option.split)

text \<open>
  The handler refines the step relation. On a database with unique decision ids, a read
  that passes the checks, the vote and the lock are each a step of the relation on the decision
  row, with the same outcome.
\<close>

theorem override_handler_refines_steps:
  assumes "distinct (map d_id (decisions w))" and "find_decision w i = Some d0" and "n < length rs"
  shows "(rs ! n = (u, Arrived) \<and> override_read now i t u w = Inr s \<longrightarrow> ov_step (d0, rs) (d0, rs[n := (u, HasRead s)]))
     \<and> (rs ! n = (u, HasRead s) \<and> d_id s = i \<and> cast_vote u s w = (b, w1) \<longrightarrow>
          (\<exists>d1. find_decision w1 i = Some d1 \<and> ov_step (d0, rs) (d1, rs[n := (u, if b then HasVoted s else Stopped)])))
     \<and> (rs ! n = (u, HasVoted s) \<and> \<not> vote_count s < d_requiredApprovers s \<and> lock_decision i w = (b, w1) \<longrightarrow>
          (\<exists>d1. find_decision w1 i = Some d1 \<and> ov_step (d0, rs) (d1, rs[n := (u, if b then HasLocked s else Stopped)])))"
proof (intro conjI impI; (elim conjE)?)
  assume "rs ! n = (u, Arrived)" and r: "override_read now i t u w = Inr s"
  then show "ov_step (d0, rs) (d0, rs[n := (u, HasRead s)])"
    using override_read_row [OF r assms(1)] override_read_ok [OF r] assms by (auto intro: ov_step.read_ok)
next
  assume a: "rs ! n = (u, HasRead s)" "d_id s = i" "cast_vote u s w = (b, w1)"
  have "find_decision w (d_id s) = Some d0" using a assms by simp
  from cast_vote_row [OF assms(1) this a(3)] a assms
  show "\<exists>d1. find_decision w1 i = Some d1 \<and> ov_step (d0, rs) (d1, rs[n := (u, if b then HasVoted s else Stopped)])"
    by (auto intro: ov_step.vote_ok ov_step.vote_lost)
next
  assume a: "rs ! n = (u, HasVoted s)" "\<not> vote_count s < d_requiredApprovers s" "lock_decision i w = (b, w1)"
  from lock_decision_row [OF assms(1,2) a(3)] a assms
  show "\<exists>d1. find_decision w1 i = Some d1 \<and> ov_step (d0, rs) (d1, rs[n := (u, if b then HasLocked s else Stopped)])"
    by (auto intro: ov_step.lock_ok ov_step.lock_lost)
qed

text \<open>
  C31: a request of \<open>overrideDecision\<close> calls a tool only when the decision it names belongs to the
  tenant, is still escalated and at most four hours old, the user is not among its approvers,
  and this vote reaches the required number of approvals.
\<close>

theorem override_calls_need_approvals:
  assumes "overrideDecision rt clk up late env i t u w = (r, w')" and "calls w' \<noteq> calls w"
  shows "\<exists>d. find_first (\<lambda>d. d_id d = i \<and> d_tenantId d = t) (decisions w) = Some d
     \<and> d_decisionType d = D_BLOCK_AND_ESCALATE \<and> u \<notin> set (approvers d)
     \<and> clk 0 - d_createdAt d \<le> four_hours \<and> d_requiredApprovers d \<le> d_approvalsCount d + 1"
proof (cases "override_read (clk 0) i t u w")
  case (Inl a)
  then show ?thesis using assms by (simp add: overrideDecision_def)
next
  case (Inr d)
  have "\<not> vote_count d < d_requiredApprovers d"
    using assms Inr by (auto simp: overrideDecision_def cast_vote_def Let_def split: if_splits prod.splits bool.splits)
  then show ?thesis using override_read_ok [OF Inr] by (auto simp: escalated_def vote_count_def)
qed

subsection \<open>The last approval runs the action\<close>

lemma vote_and_lock:
  assumes "distinct (map d_id (decisions w))" and "find_decision w i = Some d" and "d_id d = i" and "escalated d"
  obtains w1 w2 ds where "cast_vote u d w = (True, w1)" "lock_decision i w1 = (True, w2)"
    "map d_id ds = map d_id (decisions w)" "w2 = w\<lparr>decisions := ds\<rparr>"
proof -
  let ?ds = "update_where (\<lambda>x. d_id x = d_id d \<and> votable (d_approvalsCount d) x) (add_vote (vote_string u d)) (decisions w)"
  obtain b w1 where cv: "cast_vote u d w = (b, w1)" by fastforce
  have v: "votable (d_approvalsCount d) d" using assms(4) by (simp add: votable_def escalated_def)
  have b: "b" "find_decision w1 i = Some (add_vote (vote_string u d) d)"
    using cast_vote_row [OF assms(1) _ cv] assms(2,3) v by auto
  have w1: "w1 = w\<lparr>decisions := ?ds\<rparr>" using cv by (simp add: cast_vote_def Let_def)
  have keys: "map d_id (decisions w1) = map d_id (decisions w)" unfolding w1 by (simp add: vote.keys_kept)
  obtain b' w2 where lk: "lock_decision i w1 = (b', w2)" by fastforce
  have "distinct (map d_id (decisions w1))" unfolding keys by (rule assms(1))
  then have "b'" using lock_decision_row [OF _ b(2) lk] assms(4) by simp
  moreover have "map d_id (decisions w2) = map d_id (decisions w)"
    using lk keys override_lock.keys_kept [of i "decisions w1"] by (auto simp: lock_decision_def)
  moreover have "w2 = w\<lparr>decisions := decisions w2\<rparr>" using lk w1 by (auto simp: lock_decision_def)
  ultimately show thesis using that [of w1 w2 "decisions w2"] cv lk b(1) by simp
qed

text \<open>The token of an override checks against the action of its proposal.\<close>

lemma override_token_checks:
  assumes sign: "signing_law rt" and act: "jget (p_recommendedOption p) ''actionType'' = Some (JStr act)"
    and cap: "getCapabilityForTool (Some (JStr act)) = Some cap"
    and tok: "token_of w newId = Some (override_token rt p d newId nonce now)" and dec: "d_id x = newId"
    and time: "t \<le> now + 900000"
  shows "check_token rt t w x (p_recommendedOption p) = Inr (override_token rt p d newId nonce now, act)"
proof -
  let ?k = "override_token rt p d newId nonce now"
  have sig: "verifyTokenSignature rt (reconstructed_payload ?k act (cap_id cap)) (k_signature ?k)"
    using verify_signed [OF sign] act cap by (simp add: override_token_def reconstructed_payload_def Let_def opt_string_def)
  have hash: "generatePayloadHash rt (k_tenantId ?k) (k_taskId ?k) (k_proposalId ?k) (k_decisionId ?k) (p_recommendedOption p) (k_nonce ?k)
      = k_payloadHash ?k" by (simp add: override_token_def Let_def)
  have "\<not> k_expiresAt ?k < t" using time by (simp add: override_token_def Let_def)
  moreover have "p_recommendedOption p \<noteq> JNull" using act by auto
  ultimately show ?thesis using sig hash tok dec act cap by (simp add: check_token_def opt_string_def)
qed

lemma quorum_runs:
  assumes read: "override_read (clk 0) i tenant u w = Inr d" and ids: "distinct (map d_id (decisions w))"
    and quorum: "d_requiredApprovers d \<le> d_approvalsCount d + 1"
    and proposal: "find_proposal w (d_proposalId d) = Some p"
      "jget (p_recommendedOption p) ''actionType'' = Some (JStr (tool_actionType t))"
    and laws: "signing_law rt" "\<And>m. rt_sha256 rt m \<noteq> []"
    and fresh: "newId = rt_uuid rt (uuids_drawn w)" "find_decision w newId = None" "token_of w newId = None"
      "find_execution w newId = None"
      "\<forall>e \<in> set (executions w). \<not> (e_tenantId e = d_tenantId d
         \<and> e_idempotencyKey e = rt_sha256 rt (d_tenantId d @ ''|'' @ p_taskId p @ ''|'' @ newId))"
    and time: "clk 4 \<le> clk 1 + 900000" "clk 5 \<le> clk 1 + 900000"
    and limit: "\<And>v. redis v = redis w \<Longrightarrow>
        fst (window_incr (clk 7) (''operator_ratelimit:'' @ d_tenantId d @ '':'' @ tool_actionType t) 60 v)
          \<le> ct_rateLimitPerMinute (tool_contract t)"
    and run: "overrideDecision rt clk True late env i tenant u w = (r, w')"
  shows "\<exists>c. calls w' = calls w @ [c] \<and> tc_action c = tool_actionType t \<and> tc_decisionId c = newId
     \<and> tc_parameters c = jget (p_recommendedOption p) ''parameters''"
proof -
  have d: "find_decision w i = Some d" "d_id d = i" using override_read_row [OF read ids] by auto
  obtain w1 w2 ds where vl: "cast_vote u d w = (True, w1)" "lock_decision i w1 = (True, w2)"
      "map d_id ds = map d_id (decisions w)" and w2: "w2 = w\<lparr>decisions := ds\<rparr>"
    using vote_and_lock [OF ids d] override_read_ok [OF read] by blast
  have fr: "proposals w2 = proposals w" "tokens w2 = tokens w" "executions w2 = executions w" "redis w2 = redis w"
      "calls w2 = calls w" "uuids_drawn w2 = uuids_drawn w"
    by (simp_all add: w2)
  let ?n = "rt_uuid rt (Suc (uuids_drawn w))" and ?ids = "vote_string u d"
  let ?x = "override_row rt p d newId ?n ?ids (clk 2)" and ?k = "override_token rt p d newId ?n (clk 1)"
  let ?p = "p\<lparr>p_status := P_APPROVED\<rparr>"
  obtain newId' w3 where rec: "record_override rt clk tenant u p d w2 = (newId', w3)" by fastforce
  have newId: "newId' = newId" and w3: "decisions w3 = decisions w2 @ [?x]" "tokens w3 = tokens w @ [?k]"
      "executions w3 = executions w" "redis w3 = redis w" "calls w3 = calls w"
      "find_proposal w3 (d_proposalId d) = Some ?p"
    using rec fr fresh(1) proposal(1)
    by (auto simp: record_override_def fresh_uuid_def Let_def find_proposal_def update_proposal_def find_first_update_key)
  obtain y w4 where ex: "executeDecision rt (\<lambda>i. clk (i + 4)) True late env newId w3 = (y, w4)" by fastforce
  obtain cap where cap: "getCapabilityForTool (Some (JStr (tool_actionType t))) = Some cap"
    using capability_iff_tool find_tool_iff by blast
  have tk: "token_of w3 newId = Some ?k"
    using fresh(3) by (simp add: token_of_def w3 find_first_append) (simp add: override_token_def Let_def)
  have ck: "check_token rt (clk (0 + 4)) w3 ?x (p_recommendedOption ?p) = Inr (?k, tool_actionType t)"
    using override_token_checks [OF laws(1) proposal(2) cap tk] time(1) by (simp add: override_row_def)
  have "newId \<notin> set (map d_id (decisions w))"
    using fresh(2) by (auto simp: find_decision_def find_first_None)
  then have "newId \<notin> set (map d_id (decisions w2))" by (simp add: w2 vl(3) del: set_map)
  then have fd: "find_decision w3 newId = Some ?x"
    by (auto simp: find_decision_def w3 find_first_append override_row_def find_first_None split: option.split)
  have "calls w4 = calls w3 @ [call_of t ?x (provider_key rt ?x ?p) (jget (p_recommendedOption ?p) ''parameters'')]"
  proof (rule checked_runs [OF fd _ _ ck _ _ _ _ _ _ _ ex])
    show "token_consumable (clk (1 + 4)) ?k" using time(2) by (simp add: token_consumable_def override_token_def Let_def)
    show "provider_key rt ?x ?p \<noteq> []" using laws(2) by (simp add: provider_key_def)
  qed (use w3 fresh limit find_tool_iff in \<open>auto simp: override_row_def executable_def find_execution_def idempotency_key_def\<close>)
  moreover have "p_recommendedOption p \<noteq> JNull" using proposal(2) by auto
  then have "calls w' = calls w4"
    using run read vl(1,2) rec ex quorum proposal(1) fr(1) newId
    by (auto simp: overrideDecision_def execute_override_def vote_count_def find_proposal_def complete_task_def split: sum.splits)
  ultimately show ?thesis by (simp add: w3 call_of_def override_row_def)
qed


end
