(* ===== verification/Override_Witnesses.thy ===== *)
theory Override_Witnesses
  imports Demo Override
begin

section \<open>The override properties at concrete inputs\<close>

text \<open>
  One escalated decision with two requests by different users, run to the lock; and one that
  needs a single approval, run through the handler to its tool call.
\<close>

definition demo_escalated :: "int \<Rightarrow> decision_row" where
  "demo_escalated n = \<lparr>d_id = ''d'', d_tenantId = ''a'', d_proposalId = ''p'', d_decisionType = D_BLOCK_AND_ESCALATE, d_riskLevel = HIGH,
     d_policyResults = [], d_constraints = None, d_requiredApprovers = n, d_approvalsCount = 0, d_approverIdentities = None,
     d_approvedPayloadHash = None, d_createdAt = 0\<rparr>"

lemma demo_escalated_simps [simp]:
  "d_id (demo_escalated n) = ''d''" "d_tenantId (demo_escalated n) = ''a''" "d_proposalId (demo_escalated n) = ''p''"
  "d_decisionType (demo_escalated n) = D_BLOCK_AND_ESCALATE" "d_requiredApprovers (demo_escalated n) = n"
  "d_approvalsCount (demo_escalated n) = 0" "d_createdAt (demo_escalated n) = 0" "approvers (demo_escalated n) = []"
  "escalated (demo_escalated n)"
  by (simp_all add: demo_escalated_def approvers_def escalated_def)

subsection \<open>Two users, one lock\<close>

definition demo_voted :: decision_row where
  "demo_voted = add_vote (vote_string ''x'' (demo_escalated 2)) (demo_escalated 2)"

definition demo_quorum :: decision_row where
  "demo_quorum = add_vote (vote_string ''y'' demo_voted) demo_voted"

lemma demo_voted_approvers [simp]: "approvers demo_voted = [''x'']"
  unfolding demo_voted_def by (subst approvers_vote) (simp_all add: plain_user_def)

lemma demo_ov_run:
  "ov_reach (demo_escalated 2, [(''x'', Arrived), (''y'', Arrived)])
     (lock_row demo_quorum, [(''x'', Stopped), (''y'', HasLocked demo_voted)])"
proof -
  let ?d = "demo_escalated 2"
  have "ov_step (?d, [(''x'', Arrived), (''y'', Arrived)]) (?d, [(''x'', HasRead ?d), (''y'', Arrived)])"
    using ov_step.read_ok [of 0 "[(''x'', Arrived), (''y'', Arrived)]"] by simp
  moreover have "ov_step (?d, [(''x'', HasRead ?d), (''y'', Arrived)]) (demo_voted, [(''x'', HasVoted ?d), (''y'', Arrived)])"
    using ov_step.vote_ok [of 0 "[(''x'', HasRead ?d), (''y'', Arrived)]"] by (simp add: demo_voted_def votable_def)
  moreover have "ov_step (demo_voted, [(''x'', HasVoted ?d), (''y'', Arrived)]) (demo_voted, [(''x'', Stopped), (''y'', Arrived)])"
    using ov_step.more_needed [of 0 "[(''x'', HasVoted ?d), (''y'', Arrived)]"] by (simp add: vote_count_def)
  moreover have "ov_step (demo_voted, [(''x'', Stopped), (''y'', Arrived)]) (demo_voted, [(''x'', Stopped), (''y'', HasRead demo_voted)])"
    using ov_step.read_ok [of 1 "[(''x'', Stopped), (''y'', Arrived)]" "''y''" demo_voted] by (simp add: demo_voted_def [symmetric]) (simp add: demo_voted_def)
  moreover have "ov_step (demo_voted, [(''x'', Stopped), (''y'', HasRead demo_voted)]) (demo_quorum, [(''x'', Stopped), (''y'', HasVoted demo_voted)])"
    using ov_step.vote_ok [of 1 "[(''x'', Stopped), (''y'', HasRead demo_voted)]" "''y''" demo_voted demo_voted]
    by (simp add: demo_quorum_def votable_def) (simp add: demo_voted_def)
  moreover have "ov_step (demo_quorum, [(''x'', Stopped), (''y'', HasVoted demo_voted)]) (lock_row demo_quorum, [(''x'', Stopped), (''y'', HasLocked demo_voted)])"
    using ov_step.lock_ok [of 1 "[(''x'', Stopped), (''y'', HasVoted demo_voted)]" "''y''" demo_voted demo_quorum]
    by (simp add: vote_count_def demo_quorum_def) (simp add: demo_voted_def)
  ultimately show ?thesis by (meson ov_reach.intros)
qed


subsection \<open>The handler\<close>

definition demo_ov_world :: world where
  "demo_ov_world = (demo_world demo_read)\<lparr>decisions := [demo_escalated 1], uuids_drawn := 1\<rparr>"

lemma demo_ov_world_simps [simp]:
  "decisions demo_ov_world = [demo_escalated 1]" "uuids_drawn demo_ov_world = 1" "tokens demo_ov_world = []"
  "executions demo_ov_world = []" "calls demo_ov_world = []" "redis demo_ov_world = Map.empty"
  "find_proposal demo_ov_world ''p'' = Some (demo_proposal demo_read)"
  using demo_find by (simp_all add: demo_ov_world_def find_proposal_def)

lemma demo_override_read:
  "override_read 0 ''d'' ''a'' ''x'' demo_ov_world = Inr (demo_escalated 1)"
  by (simp add: override_read_def four_hours_def)

theorem override_handler_refines_steps_witness:
  "ov_step (demo_escalated 1, [(''x'', Arrived)]) (demo_escalated 1, [(''x'', HasRead (demo_escalated 1))])"
  using override_handler_refines_steps [of demo_ov_world "''d''" "demo_escalated 1" 0 "[(''x'', Arrived)]" "''x''" 0 "''a''" "demo_escalated 1"]
    demo_override_read by (simp add: find_decision_def)

definition demo_override :: "reply \<times> world" where
  "demo_override = overrideDecision demo_rt (\<lambda>i. 0) True False demo_env ''d'' ''a'' ''x'' demo_ov_world"

lemma read_tool_rate: "1 \<le> ct_rateLimitPerMinute (tool_contract t)"
  by (cases t) simp_all

lemma demo_override_runs:
  assumes "demo_override = (r, w')"
  shows "\<exists>c. calls w' = calls demo_ov_world @ [c] \<and> tc_action c = tool_actionType ReadDatabaseTool \<and> tc_decisionId c = ''u''
     \<and> tc_parameters c = jget (p_recommendedOption (demo_proposal demo_read)) ''parameters''"
  by (rule quorum_runs [where clk = "\<lambda>i. 0" and late = False and env = demo_env and rt = demo_rt and newId = "''u''", OF demo_override_read])
    (use assms in \<open>simp_all add: demo_override_def demo_read_def find_decision_def token_of_def find_execution_def
       window_incr_def redis_live_def read_tool_rate\<close>)


theorem override_calls_need_approvals_witness:
  "\<exists>d. find_first (\<lambda>d. d_id d = ''d'' \<and> d_tenantId d = ''a'') (decisions demo_ov_world) = Some d
     \<and> d_decisionType d = D_BLOCK_AND_ESCALATE \<and> ''x'' \<notin> set (approvers d)
     \<and> 0 - d_createdAt d \<le> four_hours \<and> d_requiredApprovers d \<le> d_approvalsCount d + 1"
proof -
  obtain r w' where run: "demo_override = (r, w')" by fastforce
  have "calls w' \<noteq> calls demo_ov_world" using demo_override_runs [OF run] by auto
  then show ?thesis using override_calls_need_approvals [OF run [unfolded demo_override_def]] by simp
qed

theorem comma_user_never_recognised_witness: "''x,y'' \<notin> set (approvers demo_voted)"
  by (rule comma_user_never_recognised) simp

end
