(* ===== verification/Regex.thy ===== *)
theory Regex
  imports JsValue
begin

section \<open>Regular expressions of the language\<close>

text \<open>
  The part of JavaScript's regular expressions the program uses, as data, with the backtracking
  matcher of the language: \<open>matches_at r x\<close> lists the positions a match from x can end at, in
  the order the matcher tries them, so the first one is the match. A position is the code unit
  before it with the rest of the text. \<open>rmatch\<close> says declaratively what a pattern matches, and
  \<open>lang\<close> is the set of words of a pattern without word boundaries; the lemmas relate the three.
  A quantified body that could match the empty word would need one more rule; none of the
  patterns has one.
\<close>

datatype rex =
    Cls "char \<Rightarrow> bool"
  | Eps
  | WordB
  | Seq rex rex
  | Alt rex rex
  | Star rex
  | LazyStar rex

type_synonym pos = "char option \<times> string"

subsection \<open>The matcher\<close>

definition re_word :: "char \<Rightarrow> bool" where
  "re_word c \<longleftrightarrow> is_digit c \<or> (65 \<le> code c \<and> code c \<le> 90) \<or> (97 \<le> code c \<and> code c \<le> 122) \<or> code c = 95"

definition boundary :: "pos \<Rightarrow> bool" where
  "boundary x \<longleftrightarrow> (case fst x of None \<Rightarrow> False | Some c \<Rightarrow> re_word c) \<noteq> (case snd x of [] \<Rightarrow> False | c # _ \<Rightarrow> re_word c)"

text \<open>Iterating a matcher; an iteration must consume, so the length of the rest is fuel enough.\<close>

fun iterate :: "(pos \<Rightarrow> pos list) \<Rightarrow> bool \<Rightarrow> nat \<Rightarrow> pos \<Rightarrow> pos list" where
  "iterate f greedy 0 x = [x]"
| "iterate f greedy (Suc n) x =
     (let more = concat (map (\<lambda>y. if length (snd y) < length (snd x) then iterate f greedy n y else []) (f x))
      in if greedy then more @ [x] else x # more)"

fun matches_at :: "rex \<Rightarrow> pos \<Rightarrow> pos list" where
  "matches_at (Cls p) x = (case snd x of [] \<Rightarrow> [] | c # s \<Rightarrow> if p c then [(Some c, s)] else [])"
| "matches_at Eps x = [x]"
| "matches_at WordB x = (if boundary x then [x] else [])"
| "matches_at (Seq r q) x = concat (map (matches_at q) (matches_at r x))"
| "matches_at (Alt r q) x = matches_at r x @ matches_at q x"
| "matches_at (Star r) x = iterate (matches_at r) True (length (snd x)) x"
| "matches_at (LazyStar r) x = iterate (matches_at r) False (length (snd x)) x"

text \<open>\<open>match[0]\<close> of the leftmost match.\<close>

fun search :: "rex \<Rightarrow> char option \<Rightarrow> string \<Rightarrow> string option" where
  "search r b [] = (if matches_at r (b, []) = [] then None else Some [])"
| "search r b (c # s) =
     (case matches_at r (b, c # s) of
        y # _ \<Rightarrow> Some (take (length (c # s) - length (snd y)) (c # s))
      | [] \<Rightarrow> search r (Some c) s)"

definition re_match :: "rex \<Rightarrow> string \<Rightarrow> string option" where
  "re_match r s = search r None s"

definition re_test :: "rex \<Rightarrow> string \<Rightarrow> bool" where
  "re_test r s \<longleftrightarrow> re_match r s \<noteq> None"

text \<open>\<open>replace\<close> with the flag g.\<close>

function replace_from :: "rex \<Rightarrow> string \<Rightarrow> char option \<Rightarrow> string \<Rightarrow> string" where
  "replace_from r t b s =
     (case matches_at r (b, s) of
        [] \<Rightarrow> (case s of [] \<Rightarrow> [] | c # s' \<Rightarrow> c # replace_from r t (Some c) s')
      | y # _ \<Rightarrow>
          if length (snd y) < length s then t @ replace_from r t (fst y) (snd y)
          else t @ (case s of [] \<Rightarrow> [] | c # s' \<Rightarrow> c # replace_from r t (Some c) s'))"
  by pat_completeness auto
termination
  by (relation "measure (\<lambda>(r, t, b, s). length s)") auto

declare replace_from.simps [simp del]

definition re_replace :: "rex \<Rightarrow> string \<Rightarrow> string \<Rightarrow> string" where
  "re_replace r t s = replace_from r t None s"

subsection \<open>Pattern syntax\<close>

definition seqs :: "rex list \<Rightarrow> rex" where
  "seqs rs = foldr Seq rs Eps"

fun alts :: "rex list \<Rightarrow> rex" where
  "alts [] = Cls (\<lambda>c. False)"
| "alts [r] = r"
| "alts (r # q # rs) = Alt r (alts (q # rs))"

definition opt :: "rex \<Rightarrow> rex" where
  "opt r = Alt r Eps"

fun times :: "nat \<Rightarrow> rex \<Rightarrow> rex" where
  "times 0 r = Eps"
| "times (Suc n) r = Seq r (times n r)"

fun upto_times :: "nat \<Rightarrow> rex \<Rightarrow> rex" where
  "upto_times 0 r = Eps"
| "upto_times (Suc n) r = opt (Seq r (upto_times n r))"

definition between :: "nat \<Rightarrow> nat \<Rightarrow> rex \<Rightarrow> rex" where
  "between m n r = Seq (times m r) (upto_times (n - m) r)"

definition plus1 :: "rex \<Rightarrow> rex" where
  "plus1 r = Seq r (Star r)"

text \<open>Literals, exact and under the flag i.\<close>

definition fold_char :: "char \<Rightarrow> char" where
  "fold_char c =
     (if (97 \<le> code c \<and> code c \<le> 122) \<or> (224 \<le> code c \<and> code c \<le> 254 \<and> code c \<noteq> 247) then char_of (code c - 32) else c)"

definition exact :: "string \<Rightarrow> rex" where
  "exact w = seqs (map (\<lambda>c. Cls (\<lambda>d. d = c)) w)"

definition anycase :: "string \<Rightarrow> rex" where
  "anycase w = seqs (map (\<lambda>c. Cls (\<lambda>d. fold_char d = fold_char c)) w)"

definition one_of :: "string \<Rightarrow> rex" where
  "one_of cs = Cls (\<lambda>c. c \<in> set cs)"

definition dig :: rex where "dig = Cls is_digit"
definition space :: rex where "space = Cls is_space"
definition non_space :: rex where "non_space = Cls (\<lambda>c. \<not> is_space c)"
definition any_char :: rex where "any_char = Cls (\<lambda>c. True)"
definition dot :: rex where "dot = Cls (\<lambda>c. code c \<noteq> 10 \<and> code c \<noteq> 13)"
definition sp0 :: rex where "sp0 = Star space"
definition sp1 :: rex where "sp1 = plus1 space"

subsection \<open>What a pattern matches\<close>

inductive rmatch :: "rex \<Rightarrow> pos \<Rightarrow> pos \<Rightarrow> bool" where
  cls: "p c \<Longrightarrow> rmatch (Cls p) (b, c # s) (Some c, s)"
| eps: "rmatch Eps x x"
| bound: "boundary x \<Longrightarrow> rmatch WordB x x"
| seq: "rmatch r x y \<Longrightarrow> rmatch q y z \<Longrightarrow> rmatch (Seq r q) x z"
| alt1: "rmatch r x y \<Longrightarrow> rmatch (Alt r q) x y"
| alt2: "rmatch q x y \<Longrightarrow> rmatch (Alt r q) x y"
| star0: "rmatch (Star r) x x"
| star1: "rmatch r x y \<Longrightarrow> rmatch (Star r) y z \<Longrightarrow> rmatch (Star r) x z"
| lazy0: "rmatch (LazyStar r) x x"
| lazy1: "rmatch r x y \<Longrightarrow> rmatch (LazyStar r) y z \<Longrightarrow> rmatch (LazyStar r) x z"

inductive_simps rmatch_simps [simp]:
  "rmatch (Cls p) x y" "rmatch Eps x y" "rmatch WordB x y" "rmatch (Seq r q) x y" "rmatch (Alt r q) x y"

text \<open>The position after a word.\<close>

fun advance :: "string \<Rightarrow> pos \<Rightarrow> pos" where
  "advance [] x = x"
| "advance (c # u) x = advance u (Some c, drop 1 (snd x))"

lemma advance_append: "advance (u @ v) x = advance v (advance u x)"
  by (induction u arbitrary: x) auto

lemma snd_advance: "snd (advance u x) = drop (length u) (snd x)"
  by (induction u arbitrary: x) auto

lemma rmatch_advance: "rmatch r x y \<Longrightarrow> \<exists>u. snd x = u @ snd y \<and> y = advance u x"
proof (induction rule: rmatch.induct)
  case (cls p c b s)
  show ?case by (rule exI [of _ "[c]"]) simp
next
  case (seq r x y q z)
  then obtain u v where uv: "snd x = u @ snd y" "y = advance u x" "snd y = v @ snd z" "z = advance v y" by blast
  then show ?case by (intro exI [of _ "u @ v"]) (metis advance_append append_assoc)
next
  case (star1 r x y z)
  then obtain u v where uv: "snd x = u @ snd y" "y = advance u x" "snd y = v @ snd z" "z = advance v y" by blast
  then show ?case by (intro exI [of _ "u @ v"]) (metis advance_append append_assoc)
next
  case (lazy1 r x y z)
  then obtain u v where uv: "snd x = u @ snd y" "y = advance u x" "snd y = v @ snd z" "z = advance v y" by blast
  then show ?case by (intro exI [of _ "u @ v"]) (metis advance_append append_assoc)
qed (auto intro: exI [of _ "[]"])

lemma rmatch_shorter: "rmatch r x y \<Longrightarrow> y = x \<or> length (snd y) < length (snd x)"
  using rmatch_advance [of r x y] by (metis advance.simps(1) length_append less_add_same_cancel2 length_greater_0_conv)

subsection \<open>The matcher finds exactly what a pattern matches\<close>

lemma rmatch_star_iff:
  "rmatch (Star r) x z \<longleftrightarrow> z = x \<or> (\<exists>y. rmatch r x y \<and> rmatch (Star r) y z)"
  by (auto elim: rmatch.cases intro: rmatch.intros)

lemma rmatch_lazy_iff:
  "rmatch (LazyStar r) x z \<longleftrightarrow> z = x \<or> (\<exists>y. rmatch r x y \<and> rmatch (LazyStar r) y z)"
  by (auto elim: rmatch.cases intro: rmatch.intros)

text \<open>Both iterations are the closure of one matching step.\<close>

inductive steps :: "(pos \<Rightarrow> pos \<Rightarrow> bool) \<Rightarrow> pos \<Rightarrow> pos \<Rightarrow> bool" for R where
  stop: "steps R x x"
| go: "R x y \<Longrightarrow> steps R y z \<Longrightarrow> steps R x z"

lemma star_steps: "rmatch (Star r) x y \<longleftrightarrow> steps (rmatch r) x y"
proof
  assume "rmatch (Star r) x y"
  then show "steps (rmatch r) x y"
    by (induction "Star r" x y rule: rmatch.induct) (auto intro: steps.intros)
next
  assume "steps (rmatch r) x y"
  then show "rmatch (Star r) x y" by (induction rule: steps.induct) (auto intro: rmatch.intros)
qed

lemma lazy_steps: "rmatch (LazyStar r) x y \<longleftrightarrow> steps (rmatch r) x y"
proof
  assume "rmatch (LazyStar r) x y"
  then show "steps (rmatch r) x y"
    by (induction "LazyStar r" x y rule: rmatch.induct) (auto intro: steps.intros)
next
  assume "steps (rmatch r) x y"
  then show "rmatch (LazyStar r) x y" by (induction rule: steps.induct) (auto intro: rmatch.intros)
qed

lemma set_iterate_Suc:
  "set (iterate f g (Suc n) x) = insert x (\<Union>y \<in> {y \<in> set (f x). length (snd y) < length (snd x)}. set (iterate f g n y))"
  by (auto simp: Let_def)

lemma iterate_sound: "y \<in> set (iterate f g n x) \<Longrightarrow> steps (\<lambda>x y. y \<in> set (f x)) x y"
proof (induction n arbitrary: x)
  case (Suc n)
  then show ?case unfolding set_iterate_Suc by (auto intro: steps.intros)
qed (auto intro: steps.intros)

lemma iterate_complete:
  assumes "steps (\<lambda>x y. y \<in> set (f x)) x y" and "\<And>x y. y \<in> set (f x) \<Longrightarrow> y = x \<or> length (snd y) < length (snd x)"
    and "length (snd x) \<le> n"
  shows "y \<in> set (iterate f g n x)"
  using assms(1,3)
proof (induction arbitrary: n rule: steps.induct)
  case (stop x)
  then show ?case by (cases n) (simp, simp only: set_iterate_Suc, simp)
next
  case (go x y z)
  show ?case
  proof (cases "y = x")
    case False
    then have less: "length (snd y) < length (snd x)" using assms(2) go.hyps(1) by blast
    then obtain m where n: "n = Suc m" using go.prems by (cases n) auto
    have "z \<in> set (iterate f g m y)" using go.IH less go.prems n by simp
    then show ?thesis unfolding n set_iterate_Suc using go.hyps(1) less by blast
  qed (use go in simp)
qed

lemma steps_cong: "(\<And>x y. R x y = Q x y) \<Longrightarrow> steps R x y = steps Q x y"
proof -
  assume "\<And>x y. R x y = Q x y"
  then have "R = Q" by blast
  then show ?thesis by simp
qed

lemma iterate_iff:
  assumes "\<And>x y. y \<in> set (f x) \<Longrightarrow> y = x \<or> length (snd y) < length (snd x)"
  shows "y \<in> set (iterate f g (length (snd x)) x) \<longleftrightarrow> steps (\<lambda>x y. y \<in> set (f x)) x y"
  using iterate_sound [of y f g "length (snd x)" x] iterate_complete [of f x y "length (snd x)" g] assms by blast

lemma matcher_complete: "y \<in> set (matches_at r x) \<longleftrightarrow> rmatch r x y"
proof (induction r arbitrary: x y)
  case (Cls p)
  then show ?case by (cases x; cases "snd x") (auto simp: prod_eq_iff)
next
  case (Seq r q)
  have "y \<in> set (matches_at (Seq r q) x) \<longleftrightarrow> (\<exists>z. rmatch r x z \<and> rmatch q z y)" by (simp add: Seq Bex_def)
  also have "\<dots> \<longleftrightarrow> rmatch (Seq r q) x y" by (subst rmatch_simps) (simp only: split_paired_Ex)
  finally show ?case .
next
  case (Star r)
  have short: "y = x \<or> length (snd y) < length (snd x)" if "y \<in> set (matches_at r x)" for x y
    using that unfolding Star by (rule rmatch_shorter)
  show ?case
    unfolding star_steps matches_at.simps steps_cong [OF Star [symmetric]] by (rule iterate_iff) (rule short)
next
  case (LazyStar r)
  have short: "y = x \<or> length (snd y) < length (snd x)" if "y \<in> set (matches_at r x)" for x y
    using that unfolding LazyStar by (rule rmatch_shorter)
  show ?case
    unfolding lazy_steps matches_at.simps steps_cong [OF LazyStar [symmetric]] by (rule iterate_iff) (rule short)
qed auto

text \<open>A text has a match: some window of it is matched.\<close>

definition has_match :: "rex \<Rightarrow> char option \<Rightarrow> string \<Rightarrow> bool" where
  "has_match r b s \<longleftrightarrow> (\<exists>u y. rmatch r (advance u (b, s)) y \<and> length u \<le> length s \<and> prefix u s)"

lemma search_iff: "search r b s \<noteq> None \<longleftrightarrow> has_match r b s"
proof (induction s arbitrary: b)
  case Nil
  have "(\<exists>y. y \<in> set (matches_at r (b, []))) \<longleftrightarrow> matches_at r (b, []) \<noteq> []" by (cases "matches_at r (b, [])") auto
  then show ?case by (simp add: has_match_def matcher_complete [symmetric])
next
  case (Cons c s)
  have "has_match r b (c # s) \<longleftrightarrow> matches_at r (b, c # s) \<noteq> [] \<or> has_match r (Some c) s"
  proof
    assume "has_match r b (c # s)"
    then obtain u y where u: "rmatch r (advance u (b, c # s)) y" "prefix u (c # s)" by (auto simp: has_match_def)
    show "matches_at r (b, c # s) \<noteq> [] \<or> has_match r (Some c) s"
    proof (cases u)
      case Nil
      then show ?thesis using u by (auto simp: matcher_complete [symmetric])
    next
      case (Cons d v)
      then have "prefix v s" "rmatch r (advance v (Some c, s)) y" using u by auto
      then show ?thesis unfolding has_match_def by (metis prefix_length_le)
    qed
  next
    assume "matches_at r (b, c # s) \<noteq> [] \<or> has_match r (Some c) s"
    then show "has_match r b (c # s)"
    proof
      assume "matches_at r (b, c # s) \<noteq> []"
      then have "rmatch r (advance [] (b, c # s)) (hd (matches_at r (b, c # s)))" by (simp add: matcher_complete [symmetric])
      then show ?thesis unfolding has_match_def by (metis Nil_prefix prefix_length_le)
    next
      assume "has_match r (Some c) s"
      then obtain v y where v: "rmatch r (advance v (Some c, s)) y" "prefix v s" by (auto simp: has_match_def)
      then have "rmatch r (advance (c # v) (b, c # s)) y" "prefix (c # v) (c # s)" by simp_all
      then show ?thesis unfolding has_match_def by (metis prefix_length_le)
    qed
  qed
  then show ?case using Cons.IH by (simp split: list.split)
qed

subsection \<open>Patterns without word boundaries\<close>

fun no_bound :: "rex \<Rightarrow> bool" where
  "no_bound WordB = False"
| "no_bound (Seq r q) = (no_bound r \<and> no_bound q)"
| "no_bound (Alt r q) = (no_bound r \<and> no_bound q)"
| "no_bound (Star r) = no_bound r"
| "no_bound (LazyStar r) = no_bound r"
| "no_bound _ = True"

inductive lang :: "rex \<Rightarrow> string \<Rightarrow> bool" where
  cls: "p c \<Longrightarrow> lang (Cls p) [c]"
| eps: "lang Eps []"
| seq: "lang r u \<Longrightarrow> lang q v \<Longrightarrow> lang (Seq r q) (u @ v)"
| alt1: "lang r u \<Longrightarrow> lang (Alt r q) u"
| alt2: "lang q u \<Longrightarrow> lang (Alt r q) u"
| star0: "lang (Star r) []"
| star1: "lang r u \<Longrightarrow> lang (Star r) v \<Longrightarrow> lang (Star r) (u @ v)"
| lazy0: "lang (LazyStar r) []"
| lazy1: "lang r u \<Longrightarrow> lang (LazyStar r) v \<Longrightarrow> lang (LazyStar r) (u @ v)"

lemma rmatch_word:
  "rmatch r x y \<Longrightarrow> no_bound r \<Longrightarrow> \<exists>u. snd x = u @ snd y \<and> y = advance u x \<and> lang r u"
proof (induction rule: rmatch.induct)
  case (cls p c b s)
  then show ?case by (intro exI [of _ "[c]"]) (simp add: lang.cls)
next
  case (seq r x y q z)
  then obtain u v where "snd x = u @ snd y" "y = advance u x" "lang r u" "snd y = v @ snd z" "z = advance v y" "lang q v"
    by auto
  then show ?case by (intro exI [of _ "u @ v"]) (metis advance_append append_assoc lang.seq)
next
  case (star1 r x y z)
  then obtain u v where "snd x = u @ snd y" "y = advance u x" "lang r u" "snd y = v @ snd z" "z = advance v y" "lang (Star r) v"
    by auto
  then show ?case by (intro exI [of _ "u @ v"]) (metis advance_append append_assoc lang.star1)
next
  case (lazy1 r x y z)
  then obtain u v where "snd x = u @ snd y" "y = advance u x" "lang r u" "snd y = v @ snd z" "z = advance v y" "lang (LazyStar r) v"
    by auto
  then show ?case by (intro exI [of _ "u @ v"]) (metis advance_append append_assoc lang.lazy1)
qed (auto intro: exI [of _ "[]"] lang.intros)

lemma prefix_drop: "prefix (u @ v) s \<Longrightarrow> prefix u s \<and> prefix v (drop (length u) s)"
  by (auto simp: prefix_def)

lemma word_rmatch: "lang r u \<Longrightarrow> prefix u (snd x) \<Longrightarrow> rmatch r x (advance u x)"
proof (induction arbitrary: x rule: lang.induct)
  case (cls p c)
  then show ?case by (cases x) (auto simp: prefix_def)
next
  case (seq r u q v)
  have "rmatch r x (advance u x)" "rmatch q (advance u x) (advance v (advance u x))"
    using seq.IH prefix_drop [OF seq.prems] by (simp_all add: snd_advance)
  then show ?case unfolding advance_append by (rule rmatch.seq)
next
  case (star1 r u v)
  have "rmatch r x (advance u x)" "rmatch (Star r) (advance u x) (advance v (advance u x))"
    using star1.IH prefix_drop [OF star1.prems] by (simp_all add: snd_advance)
  then show ?case unfolding advance_append by (rule rmatch.star1)
next
  case (lazy1 r u v)
  have "rmatch r x (advance u x)" "rmatch (LazyStar r) (advance u x) (advance v (advance u x))"
    using lazy1.IH prefix_drop [OF lazy1.prems] by (simp_all add: snd_advance)
  then show ?case unfolding advance_append by (rule rmatch.lazy1)
qed (auto intro: rmatch.intros)

lemma no_match_here:
  assumes "no_bound r"
  shows "matches_at r (b, s) = [] \<longleftrightarrow> (\<forall>v. prefix v s \<longrightarrow> \<not> lang r v)"
proof
  assume empty: "matches_at r (b, s) = []"
  show "\<forall>v. prefix v s \<longrightarrow> \<not> lang r v"
    using word_rmatch [of r _ "(b, s)"] empty by (auto simp: matcher_complete [symmetric])
next
  assume none: "\<forall>v. prefix v s \<longrightarrow> \<not> lang r v"
  have False if "y \<in> set (matches_at r (b, s))" for y
    using rmatch_word [OF _ assms, of "(b, s)" y] that none by (auto simp: matcher_complete)
  then show "matches_at r (b, s) = []" by (cases "matches_at r (b, s)") auto
qed

lemma match_None_iff:
  assumes "no_bound r"
  shows "search r b s = None \<longleftrightarrow> (\<forall>v. sublist v s \<longrightarrow> \<not> lang r v)"
proof (induction s arbitrary: b)
  case Nil
  then show ?case using no_match_here [OF assms, of b "[]"] by simp
next
  case (Cons c s)
  have "search r b (c # s) = None \<longleftrightarrow> matches_at r (b, c # s) = [] \<and> search r (Some c) s = None"
    by (simp split: list.split)
  then show ?case
    unfolding Cons.IH no_match_here [OF assms] sublist_Cons_right by blast
qed

text \<open>A character no word of a pattern contains.\<close>

fun avoids :: "char \<Rightarrow> rex \<Rightarrow> bool" where
  "avoids c (Cls p) = (\<not> p c)"
| "avoids c (Seq r q) = (avoids c r \<and> avoids c q)"
| "avoids c (Alt r q) = (avoids c r \<and> avoids c q)"
| "avoids c (Star r) = avoids c r"
| "avoids c (LazyStar r) = avoids c r"
| "avoids c _ = True"

lemma lang_avoids: "lang r u \<Longrightarrow> avoids c r \<Longrightarrow> c \<notin> set u"
  by (induction rule: lang.induct) auto

fun nonempty_words :: "rex \<Rightarrow> bool" where
  "nonempty_words (Cls p) = True"
| "nonempty_words (Seq r q) = (nonempty_words r \<or> nonempty_words q)"
| "nonempty_words (Alt r q) = (nonempty_words r \<and> nonempty_words q)"
| "nonempty_words _ = False"

lemma lang_nonempty: "lang r u \<Longrightarrow> nonempty_words r \<Longrightarrow> u \<noteq> []"
  by (induction rule: lang.induct) auto

lemma rmatch_eats: "rmatch r x y \<Longrightarrow> nonempty_words r \<Longrightarrow> length (snd y) < length (snd x)"
proof (induction rule: rmatch.induct)
  case (seq r x y q z)
  then show ?case using rmatch_shorter [of r x y] rmatch_shorter [of q y z] by auto
qed auto

lemma search_nonempty: "nonempty_words r \<Longrightarrow> search r b s = Some m \<Longrightarrow> m \<noteq> []"
proof (induction s arbitrary: b)
  case (Cons c s)
  show ?case
  proof (cases "matches_at r (b, c # s)")
    case Nil
    then show ?thesis using Cons by simp
  next
    case (Cons y ys)
    then have "rmatch r (b, c # s) y" by (simp add: matcher_complete [symmetric])
    then have "length (snd y) < length (c # s)" using rmatch_eats \<open>nonempty_words r\<close> by fastforce
    then show ?thesis using \<open>search r b (c # s) = Some m\<close> Cons by auto
  qed
next
  case Nil
  have "matches_at r (b, []) = []"
    using rmatch_eats [OF _ Nil(1), of "(b, [])"] by (cases "matches_at r (b, [])") (auto simp: matcher_complete [symmetric])
  then show ?case using Nil by simp
qed

end
