(* ===== verification/Critic.thy ===== *)
theory Critic
  imports Regex Contracts
begin

section \<open>The critic (core/critic/critic.service.ts)\<close>

text \<open>
  The pattern lists and the deterministic evaluation of a proposed option. The reply is the
  JSON object the coordinator validates. The patterns for Chinese, Cyrillic and Arabic text
  need code units from 256 on, which no modelled text has: they are the pattern \<open>foreign\<close>, which
  matches nothing.
\<close>

subsection \<open>The patterns\<close>

definition words :: "string list \<Rightarrow> rex" where
  "words ws = alts (map anycase ws)"

definition foreign :: rex where
  "foreign = alts []"

definition letter_e :: rex where
  "letter_e = Cls (\<lambda>c. fold_char c = CHR ''E'' \<or> fold_char c = CHR 0xC9)"

definition SQL_INJECTION_PATTERNS :: "rex list" where
  "SQL_INJECTION_PATTERNS =
    [seqs [WordB, words [''union'', ''select'', ''insert'', ''update'', ''delete'', ''drop'', ''alter'', ''exec'', ''execute''], WordB, sp1,
       opt (seqs [anycase ''all'', sp1])],
     seqs [WordB, words [''or'', ''and''], WordB, sp1, plus1 dig, sp0, exact ''='', sp0, plus1 dig],
     alts [exact ''--'', exact ''#'', exact ''/*''],
     seqs [WordB, anycase ''into'', sp1, anycase ''outfile'', WordB],
     seqs [WordB, anycase ''load_file'', WordB],
     seqs [WordB, anycase ''char'', sp0, exact ''(''],
     seqs [WordB, anycase ''concat'', sp0, exact ''(''],
     seqs [WordB, anycase ''having'', WordB, sp1, dig],
     seqs [WordB, anycase ''waitfor'', WordB, sp1, WordB, anycase ''delay'', WordB],
     seqs [WordB, anycase ''sleep'', sp0, exact ''('']]"

definition PROMPT_INJECTION_PATTERNS :: "rex list" where
  "PROMPT_INJECTION_PATTERNS =
    [seqs [anycase ''ignore'', sp1, opt (seqs [anycase ''all'', sp1]), words [''previous'', ''prior'', ''above''], sp1,
       words [''instructions'', ''rules'', ''prompts'']],
     seqs [anycase ''you'', sp1, anycase ''are'', sp1, anycase ''now'', sp1, words [''a'', ''an''], sp1],
     seqs [anycase ''disregard'', sp1, words [''your'', ''all'', ''the''], sp1, words [''instructions'', ''rules'', ''guidelines'']],
     seqs [anycase ''system'', sp0, exact '':'', sp0],
     anycase ''[INST]'',
     anycase ''<<SYS>>'',
     seqs [WordB, anycase ''do'', sp1, anycase ''not'', sp1, anycase ''follow'', WordB, Star dot, WordB, anycase ''rules'', WordB],
     seqs [WordB, anycase ''override'', WordB, Star dot, WordB, anycase ''safety'', WordB],
     seqs [WordB, anycase ''jailbreak'', WordB],
     seqs [WordB, exact ''DAN'', WordB],
     seqs [WordB, anycase ''pretend'', sp1, anycase ''you'', WordB],
     seqs [WordB, anycase ''roleplay'', sp1, anycase ''as'', WordB],
     seqs [anycase ''ignora'', sp1, opt (seqs [anycase ''toda'', opt (anycase ''s''), sp1]), opt (seqs [anycase ''las'', sp1]),
       anycase ''instrucciones'', sp1, words [''anteriores'', ''previas'']],
     seqs [anycase ''ignore'', opt (words [''r'', ''z'']), sp1, opt (seqs [anycase ''toute'', opt (anycase ''s''), sp1]),
       opt (seqs [anycase ''les'', sp1]), anycase ''instructions'', sp1,
       alts [seqs [anycase ''pr'', letter_e, anycase ''c'', letter_e, anycase ''dentes''],
             seqs [anycase ''ant'', letter_e, anycase ''rieures'']]],
     foreign, foreign, foreign,
     seqs [anycase ''forget'', sp1, anycase ''your'', sp1, anycase ''security'', sp1, anycase ''policy''],
     seqs [anycase ''new'', sp1, anycase ''directive'', sp1, anycase ''from'', sp1, anycase ''your'', sp1, anycase ''developer''],
     seqs [anycase ''previous'', sp1, anycase ''rules'', sp1, anycase ''are'', sp1, anycase ''void''],
     seqs [anycase ''ignore'', sp1, words [''your'', ''prior''], sp1, anycase ''rules''],
     seqs [anycase ''ignore'', sp1, anycase ''prior'', sp1, anycase ''rules''],
     seqs [anycase ''olvida'', sp1, opt (seqs [anycase ''tus'', sp1]), anycase ''reglas''],
     seqs [anycase ''supersedes'', sp1, anycase ''all'', sp1, anycase ''prior'', sp1, anycase ''policy''],
     seqs [words [''authorized'', ''authorization''], sp1, anycase ''by'', sp1, anycase ''the'', sp1, anycase ''CEO''],
     seqs [anycase ''emergency'', sp1, anycase ''authorized''],
     seqs [anycase ''translate'', WordB, upto_times 120 any_char, WordB, anycase ''then'', sp1,
       alts [seqs [anycase ''carry'', sp1, anycase ''out''], anycase ''follow'', anycase ''obey'']],
     seqs [anycase ''follow'', sp1, anycase ''it'', sp1, anycase ''exactly''],
     seqs [anycase ''decode'', sp1, anycase ''it'', sp1, anycase ''and'', sp1, anycase ''then'', sp1, anycase ''do'', sp1, anycase ''exactly''],
     seqs [anycase ''read'', sp1, anycase ''this'', sp1, anycase ''backwards'', sp1, anycase ''then'', sp1, anycase ''do''],
     anycase ''internal-tooling-note'',
     anycase ''system_directive'',
     seqs [anycase ''data-cmd'', sp0, exact ''=''],
     anycase ''continuing your unfinished sentence'',
     anycase ''continue from where you left off'',
     seqs [anycase ''execut'', words [''e'', ''ing''], sp1, anycase ''next_action''],
     seqs [anycase ''ig'', sp0, anycase ''nor'', opt (anycase ''e''), sp1, upto_times 40 any_char, anycase ''pre'', sp0, anycase ''vious''],
     seqs [WordB, words [''reveal'', ''print'', ''share'', ''append'', ''output'', ''include''], sp1, opt (seqs [anycase ''the'', sp1]),
       opt (alts [seqs [anycase ''protected'', sp1], seqs [anycase ''confidential'', sp1], seqs [anycase ''system'', sp1]]),
       anycase ''access'', sp1, anycase ''code'', WordB],
     seqs [WordB, anycase ''access'', sp1, anycase ''code'', sp1, anycase ''in'', sp1, anycase ''three'', sp1, anycase ''formats'', WordB],
     anycase ''print_access_code'',
     seqs [anycase ''Q:'', sp0, anycase ''What'', opt (exact sq), anycase ''s'', sp1, anycase ''the'', sp1, anycase ''access'', sp1,
       anycase ''code?'']]"

definition EXFILTRATION_PATTERNS :: "rex list" where
  "EXFILTRATION_PATTERNS =
    [seqs [anycase ''http'', opt (anycase ''s''), exact ''://'', plus1 non_space, exact ''.'',
       words [''ru'', ''cn'', ''tk'', ''ml'', ''ga'', ''cf''], WordB],
     seqs [WordB, anycase ''webhook.site'', WordB],
     seqs [WordB, anycase ''requestbin'', WordB],
     seqs [WordB, anycase ''ngrok'', WordB],
     seqs [WordB, anycase ''pipedream'', WordB],
     seqs [WordB, anycase ''base64'', sp0, words [''encode'', ''decode'']],
     seqs [WordB, words [''curl'', ''wget'', ''fetch''], sp1, anycase ''http'']]"

definition SENSITIVE_DATA_PATTERNS :: "rex list" where
  "SENSITIVE_DATA_PATTERNS =
    [seqs [WordB, anycase ''password'', WordB],
     seqs [WordB, anycase ''secret'', WordB],
     seqs [WordB, anycase ''api'', opt (one_of ''_-''), anycase ''key'', WordB],
     seqs [WordB, anycase ''token'', WordB, Star dot, WordB, words [''auth'', ''access'', ''refresh'', ''bearer''], WordB],
     seqs [WordB, anycase ''private'', opt (one_of ''_-''), anycase ''key'', WordB],
     seqs [WordB, alts [anycase ''ssn'', seqs [anycase ''social'', sp0, anycase ''security'']], WordB],
     seqs [WordB, anycase ''credit'', opt (one_of ''_-''), anycase ''card'', WordB]]"

definition destructive_ddl :: rex where
  "destructive_ddl = seqs [WordB, words [''DROP'', ''TRUNCATE'', ''ALTER''], sp1, words [''TABLE'', ''DATABASE'', ''INDEX'', ''SCHEMA'']]"

definition delete_word :: rex where
  "delete_word = seqs [WordB, anycase ''DELETE'', WordB]"

definition where_word :: rex where
  "where_word = seqs [WordB, anycase ''WHERE'', WordB]"

subsection \<open>Text extraction and scanning\<close>

fun extractAllText :: "nat \<Rightarrow> json \<Rightarrow> string" where
  "extractAllText depth (JStr s) = (if 10 < depth then [] else s @ '' '')"
| "extractAllText depth (JArr xs) = (if 10 < depth then [] else js_join '' '' (map (extractAllText (depth + 1)) xs))"
| "extractAllText depth (JObj kvs) = (if 10 < depth then [] else js_join '' '' (map (\<lambda>(k, v). extractAllText (depth + 1) v) kvs))"
| "extractAllText depth v = (if 10 < depth then [] else (if v = JNull then [] else js_string v) @ '' '')"

definition normalize_text :: "string \<Rightarrow> string" where
  "normalize_text s = re_replace (Seq (times 2 space) (Star space)) '' '' s"

fun first_match :: "string \<Rightarrow> rex list \<Rightarrow> string option" where
  "first_match s [] = None"
| "first_match s (p # ps) = (case re_match p s of Some m \<Rightarrow> Some m | None \<Rightarrow> first_match s ps)"

definition scanPatterns :: "string \<Rightarrow> rex list \<Rightarrow> string option" where
  "scanPatterns body patterns = first_match (normalize_text body) patterns"

subsection \<open>The evaluation\<close>

definition critic_response :: "bool \<Rightarrow> string \<Rightarrow> int \<Rightarrow> string option \<Rightarrow> json" where
  "critic_response ok reason percent details =
     obj_literal [(''isValid'', Some (JBool ok)), (''reasonCode'', Some (JStr reason)), (''confidence'', Some (JNum (Fin percent (-2)))),
                  (''details'', map_option JStr details)]"

definition critic_reject :: "string \<Rightarrow> int \<Rightarrow> string \<Rightarrow> json" where
  "critic_reject reason percent details = critic_response False reason percent (Some details)"

definition quoted :: "string \<Rightarrow> string" where
  "quoted s = [dq] @ s @ [dq]"

text \<open>\<open>Object.keys(parameters).length === 0\<close>.\<close>

fun no_keys :: "json \<Rightarrow> bool" where
  "no_keys (JObj kvs) = (kvs = [])"
| "no_keys (JArr xs) = (xs = [])"
| "no_keys (JStr s) = (s = [])"
| "no_keys _ = True"

definition missing_parameters :: "json \<Rightarrow> bool" where
  "missing_parameters v \<longleftrightarrow> \<not> truthy v \<or> (case jget v ''parameters'' of None \<Rightarrow> True | Some p \<Rightarrow> \<not> truthy p \<or> no_keys p)"

definition has_action :: "json \<Rightarrow> string list \<Rightarrow> bool" where
  "has_action v acts \<longleftrightarrow> (case jget v ''actionType'' of Some (JStr a) \<Rightarrow> a \<in> set acts | _ \<Rightarrow> False)"

definition database_actions :: "string list" where
  "database_actions = [''POSTGRESQL_QUERY'', ''MODIFY_DATABASE'']"

definition outbound_actions :: "string list" where
  "outbound_actions = [''HTTP_REQUEST'', ''SLACK_OPERATOR'']"

definition critic_query :: "json \<Rightarrow> json" where
  "critic_query v = (let ps = jget v ''parameters'' in
     or_else (jget_opt ps ''query'') (or_else (jget_opt ps ''sql'') (JStr [])))"

definition query_check :: "json \<Rightarrow> json option" where
  "query_check q =
     (case q of
        JStr s \<Rightarrow>
          if re_test destructive_ddl s
          then Some (critic_reject ''EXCESSIVE_RISK'' 97 ''Destructive DDL operation (DROP/TRUNCATE/ALTER) detected in query.'')
          else if re_test delete_word s \<and> \<not> re_test where_word s
          then Some (critic_reject ''EXCESSIVE_RISK'' 93 ''Unbounded DELETE without WHERE clause detected.'')
          else None
      | _ \<Rightarrow> None)"

definition scan_reject :: "bool \<Rightarrow> string \<Rightarrow> rex list \<Rightarrow> string \<Rightarrow> int \<Rightarrow> string \<Rightarrow> json option" where
  "scan_reject applies body patterns reason percent label =
     (if applies
      then (case scanPatterns body patterns of
              Some m \<Rightarrow> if m = [] then None else Some (critic_reject reason percent (label @ quoted m))
            | None \<Rightarrow> None)
      else None)"

fun first_some :: "'a option list \<Rightarrow> 'a option" where
  "first_some [] = None"
| "first_some (x # xs) = (case x of Some v \<Rightarrow> Some v | None \<Rightarrow> first_some xs)"

definition critic_checks :: "json \<Rightarrow> json option" where
  "critic_checks v =
     (let allText = extractAllText 0 v in
      first_some
        [scan_reject (\<not> has_action v database_actions) allText SQL_INJECTION_PATTERNS
           ''VIOLATES_SYSTEM_INSTRUCTIONS'' 92 ''SQL injection pattern detected: '',
         scan_reject True allText PROMPT_INJECTION_PATTERNS
           ''VIOLATES_SYSTEM_INSTRUCTIONS'' 95 ''Prompt injection pattern detected: '',
         scan_reject True allText EXFILTRATION_PATTERNS
           ''EXCESSIVE_RISK'' 88 ''Potential data exfiltration vector: '',
         scan_reject (has_action v outbound_actions) allText SENSITIVE_DATA_PATTERNS
           ''EXCESSIVE_RISK'' 85 ''Sensitive data reference in outbound action: '',
         (if has_action v database_actions then query_check (critic_query v) else None)])"

definition critic_evaluate :: "runtime \<Rightarrow> json \<Rightarrow> json" where
  "critic_evaluate rt v =
     (if missing_parameters v then critic_response False ''MISSING_PARAMETERS'' 95 None
      else if \<not> BaseProposalSchema (Some v)
      then critic_reject ''HALLUCINATED_TOOL'' 99 (''Schema violation: '' @ rt_schema_message rt ''BaseProposalSchema'' (Some v))
      else (case critic_checks v of
          Some r \<Rightarrow> r
        | None \<Rightarrow> critic_response True ''APPROVED'' 90 None))"

subsection \<open>What the critic answers\<close>

lemma critic_response_ok [simp]: "jget (critic_response ok reason percent details) ''isValid'' = Some (JBool ok)"
  by (simp add: critic_response_def obj_literal_def)

lemma critic_response_schema:
  "reason \<in> set critic_codes \<Longrightarrow> 0 \<le> percent \<Longrightarrow> percent \<le> 100 \<Longrightarrow>
   CriticOutputSchema (Some (critic_response ok reason percent details))"
  by (simp add: critic_response_def obj_literal_def CriticOutputSchema_def jget_opt_def req_str_ok_def num_le_def scaled_def order_le_less)

lemma critic_code_known:
  "''VIOLATES_SYSTEM_INSTRUCTIONS'' \<in> set critic_codes" "''EXCESSIVE_RISK'' \<in> set critic_codes" "''APPROVED'' \<in> set critic_codes"
  "''MISSING_PARAMETERS'' \<in> set critic_codes" "''HALLUCINATED_TOOL'' \<in> set critic_codes"
  by (simp_all add: critic_codes_def)

definition rejection :: "json \<Rightarrow> bool" where
  "rejection r \<longleftrightarrow> CriticOutputSchema (Some r) \<and> jget r ''isValid'' = Some (JBool False)"

lemma reject_rejection: "reason \<in> set critic_codes \<Longrightarrow> 0 \<le> percent \<Longrightarrow> percent \<le> 100 \<Longrightarrow> rejection (critic_reject reason percent m)"
  by (simp add: rejection_def critic_reject_def critic_response_schema)

lemma scan_rejection:
  "scan_reject b body ps reason percent label = Some r \<Longrightarrow> reason \<in> set critic_codes \<Longrightarrow> 0 \<le> percent \<Longrightarrow> percent \<le> 100 \<Longrightarrow> rejection r"
  by (auto simp: scan_reject_def reject_rejection split: if_splits option.splits)

lemma query_rejection: "query_check q = Some r \<Longrightarrow> rejection r"
  by (auto simp: query_check_def reject_rejection critic_code_known split: json.splits if_splits)

lemma first_some_in: "first_some xs = Some v \<Longrightarrow> Some v \<in> set xs"
  by (induction xs) (auto split: option.splits)

lemma first_some_None: "first_some xs = None \<longleftrightarrow> set xs \<subseteq> {None}"
  by (induction xs) (auto split: option.splits)

lemma checks_rejection: "critic_checks v = Some r \<Longrightarrow> rejection r"
  unfolding critic_checks_def Let_def
proof (drule first_some_in, simp only: set_simps insert_iff empty_iff simp_thms, elim disjE)
qed (auto dest!: sym [of "Some r"] intro: scan_rejection [OF _ critic_code_known(1)] scan_rejection [OF _ critic_code_known(2)]
    query_rejection split: if_splits)

lemma critic_schema_ok: "CriticOutputSchema (Some (critic_evaluate rt v))"
  using checks_rejection reject_rejection critic_response_schema critic_code_known
  by (auto simp: critic_evaluate_def rejection_def split: option.split)

text \<open>
  Whatever the proposal, the critic's answer passes the schema the coordinator checks it
  against, so the coordinator's feedback for a malformed critic answer is never sent.
\<close>

theorem critic_output_well_typed:
  "validateCriticPayload rt (Some (critic_evaluate rt v))
     = Inr (pick [''isValid'', ''reasonCode'', ''confidence''] (Some (critic_evaluate rt v)))"
  by (simp add: validateCriticPayload_def critic_schema_ok)

lemma first_match_None: "first_match s ps = None \<longleftrightarrow> list_all (\<lambda>p. \<not> has_match p None s) ps"
proof (induction ps)
  case (Cons p ps)
  have "first_match s (p # ps) = None \<longleftrightarrow> re_match p s = None \<and> first_match s ps = None" by (simp split: option.split)
  also have "\<dots> \<longleftrightarrow> \<not> has_match p None s \<and> list_all (\<lambda>p. \<not> has_match p None s) ps"
    using search_iff [of p None s] by (auto simp: Cons re_match_def)
  finally show ?case by simp
qed simp

lemma first_match_nonempty: "first_match s ps = Some m \<Longrightarrow> list_all nonempty_words ps \<Longrightarrow> m \<noteq> []"
  by (induction ps) (auto simp: re_match_def search_nonempty split: option.splits)

lemma scan_reject_None:
  "list_all nonempty_words ps \<Longrightarrow>
   scan_reject b body ps reason percent label = None \<longleftrightarrow> (b \<longrightarrow> list_all (\<lambda>p. \<not> has_match p None (normalize_text body)) ps)"
  using first_match_nonempty [of "normalize_text body" ps] first_match_None [of "normalize_text body" ps]
  by (auto simp: scan_reject_def scanPatterns_def split: option.splits)

lemma nonempty_seqs: "nonempty_words (seqs (r # rs)) \<longleftrightarrow> nonempty_words r \<or> nonempty_words (seqs rs)"
  by (simp add: seqs_def)

lemma nonempty_anycase: "nonempty_words (anycase (c # w))"
  by (simp add: anycase_def seqs_def)

lemma nonempty_exact: "nonempty_words (exact (c # w))"
  by (simp add: exact_def seqs_def)

lemma nonempty_words_list: "list_all (\<lambda>w. w \<noteq> []) ws \<Longrightarrow> nonempty_words (words ws)"
proof (induction ws)
  case (Cons w ws)
  then show ?case by (cases w; cases ws) (auto simp: words_def nonempty_anycase)
qed (simp add: words_def)

lemmas nonempty_syntax = nonempty_seqs nonempty_anycase nonempty_exact nonempty_words_list

lemma patterns_nonempty:
  "list_all nonempty_words SQL_INJECTION_PATTERNS" "list_all nonempty_words PROMPT_INJECTION_PATTERNS"
  "list_all nonempty_words EXFILTRATION_PATTERNS" "list_all nonempty_words SENSITIVE_DATA_PATTERNS"
  by (simp_all add: SQL_INJECTION_PATTERNS_def PROMPT_INJECTION_PATTERNS_def EXFILTRATION_PATTERNS_def SENSITIVE_DATA_PATTERNS_def
      foreign_def nonempty_syntax)

definition scanned :: "json \<Rightarrow> string" where
  "scanned v = normalize_text (extractAllText 0 v)"

definition free_of :: "rex list \<Rightarrow> string \<Rightarrow> bool" where
  "free_of ps s \<longleftrightarrow> list_all (\<lambda>p. \<not> has_match p None s) ps"

lemma checks_None:
  "critic_checks v = None \<longleftrightarrow>
       free_of PROMPT_INJECTION_PATTERNS (scanned v) \<and> free_of EXFILTRATION_PATTERNS (scanned v)
     \<and> (if has_action v database_actions then query_check (critic_query v) = None
        else free_of SQL_INJECTION_PATTERNS (scanned v))
     \<and> (if has_action v outbound_actions then free_of SENSITIVE_DATA_PATTERNS (scanned v) else True)"
  unfolding critic_checks_def Let_def first_some_None
  using patterns_nonempty by (auto simp: scan_reject_None free_of_def scanned_def)

text \<open>
  C22: what an approval of the critic means, in terms of what the patterns match: the option has
  parameters and the declared structure, no window of its scanned text is matched by a prompt
  injection or exfiltration pattern, by an SQL pattern outside the database actions, by a
  sensitive-data pattern in the outbound actions, and the query of a database action is neither
  destructive nor an unbounded DELETE.
\<close>

theorem critic_approves_iff:
  "jget (critic_evaluate rt v) ''isValid'' = Some (JBool True) \<longleftrightarrow>
     \<not> missing_parameters v \<and> BaseProposalSchema (Some v)
     \<and> free_of PROMPT_INJECTION_PATTERNS (scanned v) \<and> free_of EXFILTRATION_PATTERNS (scanned v)
     \<and> (if has_action v database_actions then query_check (critic_query v) = None
        else free_of SQL_INJECTION_PATTERNS (scanned v))
     \<and> (if has_action v outbound_actions then free_of SENSITIVE_DATA_PATTERNS (scanned v) else True)"
proof -
  have "jget (critic_evaluate rt v) ''isValid'' = Some (JBool True) \<longleftrightarrow>
      \<not> missing_parameters v \<and> BaseProposalSchema (Some v) \<and> critic_checks v = None"
    using checks_rejection [of v] by (auto simp: critic_evaluate_def critic_reject_def rejection_def split: option.split)
  then show ?thesis unfolding checks_None .
qed

lemma extract_deep: "10 < depth \<Longrightarrow> extractAllText depth v = []"
  by (cases v) simp_all

text \<open>
  Text nested deeper than ten levels is not scanned: the critic's answer on a message does
  not depend on what stands inside nine nested lists of it.
\<close>

theorem critic_blind_below_depth:
  "critic_evaluate rt (JObj [(''actionType'', JStr ''SLACK_OPERATOR''),
       (''parameters'', JObj [(''message'', ((\<lambda>x. JArr [x]) ^^ 9) u)])])
   = critic_evaluate rt (JObj [(''actionType'', JStr ''SLACK_OPERATOR''),
       (''parameters'', JObj [(''message'', ((\<lambda>x. JArr [x]) ^^ 9) v)])])"
proof -
  let ?o = "\<lambda>v. JObj [(''actionType'', JStr ''SLACK_OPERATOR''), (''parameters'', JObj [(''message'', ((\<lambda>x. JArr [x]) ^^ 9) v)])]"
  have "extractAllText 0 (?o x) = ''SLACK_OPERATOR  ''" for x by (simp add: extract_deep eval_nat_numeral)
  moreover have "\<not> missing_parameters (?o x)" "BaseProposalSchema (Some (?o x))" "\<not> has_action (?o x) database_actions"
    "has_action (?o x) outbound_actions" for x
    by (simp_all add: missing_parameters_def BaseProposalSchema_def req_str_ok_def opt_str_ok_def jget_opt_def has_action_def
        database_actions_def outbound_actions_def)
  ultimately show ?thesis by (simp add: critic_evaluate_def critic_checks_def Let_def del: first_some.simps)
qed

end
