(* ===== verification/Api_Auth.thy ===== *)
theory Api_Auth
  imports Override
begin

section \<open>Authentication, roles and the API rate limit (api/*.middleware.ts, api/routes.ts)\<close>

text \<open>
  A request carries its headers by lower-case name. The environment of the process and the JWT
  library are parameters: the library verifies a token under a secret and answers its claims,
  that it has expired, or that it is invalid. Comparing two key buffers of equal length in
  constant time is comparing the strings.
\<close>

record request =
  rq_headers :: "string \<Rightarrow> string option"
  rq_ip :: string
  rq_method :: string
  rq_base :: string
  rq_body :: json

record user =
  us_id :: string
  us_tenant :: string
  us_role :: string

datatype jwt_answer = Claims json | Token_Expired | Token_Invalid

record api_env =
  av_var :: "string \<Rightarrow> string option"
  av_verify :: "string \<Rightarrow> string \<Rightarrow> jwt_answer"
  av_sign :: "string \<Rightarrow> json \<Rightarrow> string"

text \<open>An environment variable where the code tests it with \<open>||\<close> or \<open>!\<close>.\<close>

definition env_var :: "api_env \<Rightarrow> string \<Rightarrow> string option" where
  "env_var av k = str_or (av_var av k) None"

definition production :: "api_env \<Rightarrow> bool" where
  "production av \<longleftrightarrow> av_var av ''NODE_ENV'' = Some ''production''"

definition getJWTSecret :: "api_env \<Rightarrow> exn + string" where
  "getJWTSecret av =
     (case env_var av ''JWT_SECRET'' of
        Some s \<Rightarrow> Inr s
      | None \<Rightarrow>
          if production av then Inl (JsError ''CRITICAL: JWT_SECRET environment variable is required in production.'')
          else Inr (case env_var av ''ADMIN_API_KEY'' of Some s \<Rightarrow> s | None \<Rightarrow> ''dev-only-jwt-secret-not-for-production''))"

definition claims_json :: "string \<Rightarrow> string \<Rightarrow> string \<Rightarrow> json" where
  "claims_json userId tenantId role = JObj [(''userId'', JStr userId), (''tenantId'', JStr tenantId), (''role'', JStr role)]"

definition issueToken :: "api_env \<Rightarrow> string \<Rightarrow> string \<Rightarrow> string \<Rightarrow> exn + string" where
  "issueToken av userId tenantId role =
     (case getJWTSecret av of Inl e \<Rightarrow> Inl e | Inr s \<Rightarrow> Inr (av_sign av s (claims_json userId tenantId role)))"

subsection \<open>Roles\<close>

definition validRoles :: "string list" where
  "validRoles = [''admin'', ''approver'', ''viewer'', ''operator'']"

definition find_role :: "world \<Rightarrow> string \<Rightarrow> string \<Rightarrow> role_row option" where
  "find_role w tenantId userId = find_first (\<lambda>r. u_tenantId r = tenantId \<and> u_userId r = userId) (roles w)"

definition resolveUserRole :: "api_env \<Rightarrow> string \<Rightarrow> string \<Rightarrow> world \<Rightarrow> string \<times> world" where
  "resolveUserRole av tenantId userId w =
     (case find_role w tenantId userId of
        Some r \<Rightarrow> (if u_role r \<in> set validRoles then u_role r else ''viewer'', w)
      | None \<Rightarrow>
          if \<not> production av
          then (let assigned = (if count_where (\<lambda>r. u_tenantId r = tenantId) (roles w) = 0 then ''admin'' else ''viewer'')
                in (assigned, w\<lparr>roles := roles w @ [\<lparr>u_tenantId = tenantId, u_userId = userId, u_role = assigned\<rparr>]\<rparr>))
          else (''viewer'', w))"

subsection \<open>Authentication\<close>

definition str_claim :: "json option \<Rightarrow> string option" where
  "str_claim v = (case v of Some (JStr s) \<Rightarrow> if s = [] then None else Some s | _ \<Rightarrow> None)"

text \<open>The tokens of this program carry strings; a claim of another type is treated as missing.\<close>

definition authenticateJWT :: "api_env \<Rightarrow> string \<Rightarrow> reply + user" where
  "authenticateJWT av token =
     (case getJWTSecret av of
        Inl e \<Rightarrow> Inl (error_reply 401 ''Invalid authentication token.'')
      | Inr secret \<Rightarrow>
          (case av_verify av secret token of
             Token_Expired \<Rightarrow> Inl (error_reply 401 ''JWT expired. Please re-authenticate.'')
           | Token_Invalid \<Rightarrow> Inl (error_reply 401 ''Invalid authentication token.'')
           | Claims c \<Rightarrow>
               (case (str_claim (jget c ''userId''), str_claim (jget c ''tenantId''), str_claim (jget c ''role'')) of
                  (Some u, Some t, Some r) \<Rightarrow> Inr \<lparr>us_id = u, us_tenant = t, us_role = r\<rparr>
                | _ \<Rightarrow> Inl (error_reply 401 ''Malformed JWT: missing required claims.''))))"

definition expected_key :: "api_env \<Rightarrow> string \<Rightarrow> string option" where
  "expected_key av tenantId = (case env_var av (''API_KEY_'' @ tenantId) of Some k \<Rightarrow> Some k | None \<Rightarrow> env_var av ''ADMIN_API_KEY'')"

definition header :: "request \<Rightarrow> string \<Rightarrow> string option" where
  "header rq k = str_or (rq_headers rq k) None"

definition authenticateAPIKey :: "api_env \<Rightarrow> request \<Rightarrow> world \<Rightarrow> (reply + user) \<times> world" where
  "authenticateAPIKey av rq w =
     (case header rq ''x-tenant-id'' of
        None \<Rightarrow> (Inl (error_reply 400 ''Bad Request: x-tenant-id header is required.''), w)
      | Some tenantId \<Rightarrow>
          (case header rq ''x-user-id'' of
             None \<Rightarrow> (Inl (error_reply 400 ''Bad Request: x-user-id header is required.''), w)
           | Some userId \<Rightarrow>
               (case expected_key av tenantId of
                  None \<Rightarrow> (Inl (error_reply 500 ''Internal Server Config Error''), w)
                | Some k \<Rightarrow>
                    if header rq ''x-api-key'' \<noteq> Some k
                    then (Inl (error_reply 401 ''Unauthorized: Invalid API Key for Tenant''), w)
                    else (case resolveUserRole av tenantId userId w of
                            (role, w1) \<Rightarrow> (Inr \<lparr>us_id = userId, us_tenant = tenantId, us_role = role\<rparr>, w1)))))"

definition requireAuth :: "api_env \<Rightarrow> request \<Rightarrow> world \<Rightarrow> (reply + user) \<times> world" where
  "requireAuth av rq w =
     (case rq_headers rq ''authorization'' of
        Some h \<Rightarrow> if starts_with h ''Bearer '' then (authenticateJWT av (drop 7 h), w) else authenticateAPIKey av rq w
      | None \<Rightarrow> authenticateAPIKey av rq w)"

definition requireRole :: "string list \<Rightarrow> user option \<Rightarrow> reply + user" where
  "requireRole allowed u =
     (case u of
        None \<Rightarrow> Inl (error_reply 401 ''Authentication required.'')
      | Some x \<Rightarrow>
          if us_role x \<notin> set allowed
          then Inl (error_reply 403 (''Forbidden: Requires ['' @ js_join '', '' allowed @ ''] role. Your role: '' @ sq @ us_role x @ sq @ ''.''))
          else Inr x)"

text \<open>
  The login endpoint. A tenant or user that is truthy but not a string passes the check of the
  key and is then refused by the database client, whose error goes to the error handler.
\<close>

definition loginHandler :: "api_env \<Rightarrow> request \<Rightarrow> world \<Rightarrow> (exn + reply) \<times> world" where
  "loginHandler av rq w =
     (let tenantId = jget (rq_body rq) ''tenantId''; userId = jget (rq_body rq) ''userId''
      in if rq_body rq = JNull then (Inl (JsError ''Cannot destructure property of the body''), w)
         else if \<not> truthy_opt tenantId \<or> \<not> truthy_opt userId
         then (Inr (error_reply 400 ''tenantId and userId are required.''), w)
         else (case (expected_key av (opt_string tenantId), header rq ''x-api-key'') of
             (Some k, Some key) \<Rightarrow>
               if key \<noteq> k then (Inr (error_reply 401 ''Invalid API key.''), w)
               else (case (tenantId, userId) of
                   (Some (JStr t), Some (JStr u)) \<Rightarrow>
                     (case resolveUserRole av t u w of
                        (role, w1) \<Rightarrow>
                          (case issueToken av u t role of
                             Inl e \<Rightarrow> (Inl e, w1)
                           | Inr token \<Rightarrow>
                               (Inr (Reply 200 (JObj [(''token'', JStr token), (''expiresIn'', JStr ''8h''), (''role'', JStr role)])), w1)))
                 | _ \<Rightarrow> (Inl (JsError ''Invalid value provided. Expected String.''), w))
           | _ \<Rightarrow> (Inr (error_reply 401 ''API key required for authentication.''), w)))"

subsection \<open>The rate limiter\<close>

definition ratelimit_key :: "request \<Rightarrow> user option \<Rightarrow> string" where
  "ratelimit_key rq u =
     ''api_ratelimit:'' @ (if rq_ip rq = [] then ''unknown'' else rq_ip rq) @ '':''
     @ (case u of None \<Rightarrow> ''anon'' | Some x \<Rightarrow> if us_tenant x = [] then ''anon'' else us_tenant x) @ '':'' @ rq_method rq @ '':'' @ rq_base rq"

text \<open>
  \<open>None\<close> passes the request on. \<open>up\<close>: Redis answers. A client that cannot even be created would
  be answered with a longer 503 text.
\<close>

definition rateLimiter :: "int \<Rightarrow> int \<Rightarrow> int \<Rightarrow> bool \<Rightarrow> request \<Rightarrow> user option \<Rightarrow> world \<Rightarrow> reply option \<times> world" where
  "rateLimiter windowSeconds maxRequests now up rq u w =
     (if \<not> up then (Some (error_reply 503 ''Service temporarily unavailable.''), w)
      else (case window_incr now (ratelimit_key rq u) windowSeconds w of
              (count, w1) \<Rightarrow>
                (if count > maxRequests
                 then Some (Reply 429 (JObj
                   [(''error'', JStr (''Rate limit exceeded. Max '' @ num_str (Fin maxRequests 0) @ '' requests per ''
                       @ num_str (Fin windowSeconds 0) @ '' seconds.'')),
                    (''retryAfterSeconds'', jnat windowSeconds)]))
                 else None, w1)))"

subsection \<open>The routes\<close>

datatype endpoint =
    Post_Tasks | Get_Proposal | Get_Decisions | Get_Decision | Post_Override
  | Get_Audit | Get_Metrics | Get_Dataset | Post_Policy_Rollback | Settings_Routes

fun allowed_roles :: "endpoint \<Rightarrow> string list" where
  "allowed_roles Post_Tasks = [''admin'', ''operator'']"
| "allowed_roles Get_Proposal = [''admin'', ''approver'', ''viewer'']"
| "allowed_roles Get_Decisions = [''admin'', ''approver'', ''viewer'']"
| "allowed_roles Get_Decision = [''admin'', ''approver'', ''viewer'']"
| "allowed_roles Post_Override = [''admin'', ''approver'']"
| "allowed_roles Get_Audit = [''admin'']"
| "allowed_roles Get_Metrics = [''admin'', ''viewer'']"
| "allowed_roles Get_Dataset = [''admin'']"
| "allowed_roles Post_Policy_Rollback = [''admin'']"
| "allowed_roles Settings_Routes = [''admin'']"

text \<open>
  A protected endpoint of the application, \<open>admit\<close> being what runs before its handler: the limiter of server.ts comes before the
  authentication of the routes, so it never knows the user.
\<close>

definition admit :: "api_env \<Rightarrow> int \<Rightarrow> bool \<Rightarrow> endpoint \<Rightarrow> request \<Rightarrow> world \<Rightarrow> (reply + user) \<times> world" where
  "admit av now up ep rq w =
     (case rateLimiter 60 100 now up rq None w of
        (Some r, w1) \<Rightarrow> (Inl r, w1)
      | (None, w1) \<Rightarrow>
          (case requireAuth av rq w1 of
             (Inl r, w2) \<Rightarrow> (Inl r, w2)
           | (Inr u, w2) \<Rightarrow> (requireRole (allowed_roles ep) (Some u), w2)))"

definition serve :: "api_env \<Rightarrow> int \<Rightarrow> bool \<Rightarrow> endpoint \<Rightarrow> (user \<Rightarrow> world \<Rightarrow> reply \<times> world) \<Rightarrow> request \<Rightarrow> world \<Rightarrow> reply \<times> world" where
  "serve av now up ep handler rq w =
     (case admit av now up ep rq w of (Inl r, w1) \<Rightarrow> (r, w1) | (Inr u, w1) \<Rightarrow> handler u w1)"

subsection \<open>Who gets through\<close>

definition genuine :: "api_env \<Rightarrow> request \<Rightarrow> user \<Rightarrow> bool" where
  "genuine av rq u \<longleftrightarrow>
     (\<exists>h s c. rq_headers rq ''authorization'' = Some h \<and> starts_with h ''Bearer '' \<and> getJWTSecret av = Inr s
        \<and> av_verify av s (drop 7 h) = Claims c \<and> jget c ''userId'' = Some (JStr (us_id u))
        \<and> jget c ''tenantId'' = Some (JStr (us_tenant u)) \<and> jget c ''role'' = Some (JStr (us_role u)))
     \<or> (\<exists>k. expected_key av (us_tenant u) = Some k \<and> rq_headers rq ''x-api-key'' = Some k
        \<and> rq_headers rq ''x-tenant-id'' = Some (us_tenant u) \<and> rq_headers rq ''x-user-id'' = Some (us_id u))"

lemma str_claim_Some: "str_claim v = Some s \<longleftrightarrow> v = Some (JStr s) \<and> s \<noteq> []"
  by (auto simp: str_claim_def split: option.splits json.splits if_splits)

lemma header_Some: "header rq k = Some s \<longleftrightarrow> rq_headers rq k = Some s \<and> s \<noteq> []"
  by (auto simp: header_def str_or_def split: option.splits if_splits)

lemma jwt_genuine:
  assumes "authenticateJWT av token = Inr u" and "rq_headers rq ''authorization'' = Some h" and "starts_with h ''Bearer ''" and "token = drop 7 h"
  shows "genuine av rq u"
  using assms by (auto simp: authenticateJWT_def genuine_def str_claim_Some split: sum.splits jwt_answer.splits option.splits)

lemma key_genuine:
  "authenticateAPIKey av rq w = (Inr u, w') \<Longrightarrow> genuine av rq u"
  by (auto simp: authenticateAPIKey_def genuine_def header_Some split: option.splits if_splits prod.splits)

lemma auth_genuine:
  assumes "requireAuth av rq w = (Inr u, w')"
  shows "genuine av rq u"
proof (cases "\<exists>h. rq_headers rq ''authorization'' = Some h \<and> starts_with h ''Bearer ''")
  case True
  then obtain h where h: "rq_headers rq ''authorization'' = Some h" "starts_with h ''Bearer ''" by blast
  then have "authenticateJWT av (drop 7 h) = Inr u" using assms by (simp add: requireAuth_def)
  then show ?thesis using h jwt_genuine by blast
next
  case False
  then have "authenticateAPIKey av rq w = (Inr u, w')"
    using assms by (auto simp: requireAuth_def split: option.splits if_splits)
  then show ?thesis by (rule key_genuine)
qed

text \<open>What authentication may touch.\<close>

definition api_frame :: "world \<Rightarrow> world \<Rightarrow> bool" where
  "api_frame w w' \<longleftrightarrow> tasks w' = tasks w \<and> proposals w' = proposals w \<and> decisions w' = decisions w
     \<and> executions w' = executions w \<and> audits w' = audits w \<and> tokens w' = tokens w \<and> policies w' = policies w
     \<and> settings w' = settings w \<and> calls w' = calls w \<and> files w' = files w"

lemma auth_frame: "requireAuth av rq w = (x, w') \<Longrightarrow> api_frame w w'"
  by (auto simp: requireAuth_def authenticateAPIKey_def resolveUserRole_def api_frame_def Let_def
      split: option.splits if_splits prod.splits)

lemma limiter_frame: "rateLimiter ws mx now up rq u w = (x, w') \<Longrightarrow> api_frame w w'"
  by (auto simp: rateLimiter_def api_frame_def window_incr_frame split: if_splits prod.splits)

definition refusal :: "reply \<Rightarrow> bool" where
  "refusal r \<longleftrightarrow> (\<exists>st body. r = Reply st body \<and> 400 \<le> st)"

lemma refusal_error [simp]: "refusal (error_reply st m) \<longleftrightarrow> 400 \<le> st"
  by (simp add: refusal_def error_reply_def)

lemma limiter_refusal: "rateLimiter ws mx now up rq u w = (Some r, w') \<Longrightarrow> refusal r"
  by (auto simp: rateLimiter_def refusal_def error_reply_def split: if_splits prod.splits)

lemma auth_refusal: "requireAuth av rq w = (Inl r, w') \<Longrightarrow> refusal r"
  by (auto simp: requireAuth_def authenticateJWT_def authenticateAPIKey_def
      split: option.splits if_splits prod.splits sum.splits jwt_answer.splits)

lemma admit_cases:
  assumes "admit av now up ep rq w = (x, w')"
  shows "api_frame w w' \<and> (case x of Inl r \<Rightarrow> refusal r | Inr u \<Rightarrow> genuine av rq u \<and> us_role u \<in> set (allowed_roles ep))"
proof -
  obtain l w1 where l: "rateLimiter 60 100 now up rq None w = (l, w1)" by fastforce
  obtain a w2 where a: "requireAuth av rq w1 = (a, w2)" by fastforce
  have f1: "api_frame w w1" by (rule limiter_frame [OF l])
  have f2: "api_frame w w2" using f1 auth_frame [OF a] by (simp add: api_frame_def)
  show ?thesis
  proof (cases l)
    case (Some r)
    then show ?thesis using assms l f1 limiter_refusal by (auto simp: admit_def)
  next
    case None
    then show ?thesis
      using assms l a f2 auth_refusal auth_genuine
      by (cases a) (auto simp: admit_def requireRole_def split: if_splits)
  qed
qed

text \<open>
  The handler of a protected endpoint runs only for a genuine user with an allowed role: a
  request either ends in an error without touching any table but the role table, or its
  handler ran for a user whose identity comes from a token that verifies under the secret or
  from the key of the tenant it names, and whose role the endpoint allows.
\<close>

theorem endpoints_guarded:
  assumes "serve av now up ep handler rq w = (r, w')"
  shows "(api_frame w w' \<and> (\<exists>st body. r = Reply st body \<and> 400 \<le> st))
     \<or> (\<exists>u w1. genuine av rq u \<and> us_role u \<in> set (allowed_roles ep) \<and> api_frame w w1 \<and> handler u w1 = (r, w'))"
proof -
  obtain x w1 where x: "admit av now up ep rq w = (x, w1)" by fastforce
  show ?thesis
  proof (cases x)
    case (Inl q)
    then show ?thesis using assms x admit_cases [OF x] by (simp add: serve_def refusal_def)
  next
    case (Inr u)
    then have "handler u w1 = (r, w')" using assms x by (simp add: serve_def)
    then show ?thesis using admit_cases [OF x] Inr by auto
  qed
qed

subsection \<open>Logging in\<close>

lemma role_valid:
  "resolveUserRole av t u w = (r, w') \<Longrightarrow> r \<in> set validRoles"
  by (auto simp: resolveUserRole_def validRoles_def Let_def split: option.splits if_splits)

text \<open>
  A login answers only to the key of the tenant it names, and the token it issues authenticates
  exactly the user, the tenant and the role resolved for them.
\<close>

theorem login_token_accepted:
  assumes jwt: "\<And>s c. av_verify av s (av_sign av s c) = Claims c"
    and run: "loginHandler av rq w = (Inr (Reply 200 body), w')" and tok: "jget body ''token'' = Some (JStr token)"
  shows "\<exists>t u role. jget (rq_body rq) ''tenantId'' = Some (JStr t) \<and> jget (rq_body rq) ''userId'' = Some (JStr u)
     \<and> expected_key av t = header rq ''x-api-key'' \<and> resolveUserRole av t u w = (role, w')
     \<and> authenticateJWT av token = Inr \<lparr>us_id = u, us_tenant = t, us_role = role\<rparr>"
proof -
  obtain t u key role where h: "jget (rq_body rq) ''tenantId'' = Some (JStr t)" "t \<noteq> []" "jget (rq_body rq) ''userId'' = Some (JStr u)" "u \<noteq> []"
      "expected_key av t = Some key" "header rq ''x-api-key'' = Some key" "resolveUserRole av t u w = (role, w')"
      "issueToken av u t role = Inr token"
    using run tok
    by (auto simp: loginHandler_def Let_def error_reply_def truthy_opt_def opt_string_def
        split: option.splits if_splits json.splits prod.splits sum.splits)
  obtain s where s: "getJWTSecret av = Inr s" "token = av_sign av s (claims_json u t role)"
    using h(8) by (auto simp: issueToken_def split: sum.splits)
  have "role \<noteq> []" using role_valid [OF h(7)] by (auto simp: validRoles_def)
  then have "authenticateJWT av token = Inr \<lparr>us_id = u, us_tenant = t, us_role = role\<rparr>"
    using h(2,4) s jwt by (simp add: authenticateJWT_def claims_json_def str_claim_def)
  then show ?thesis using h by auto
qed

subsection \<open>The bound of the limiter\<close>

fun admitted :: "int \<Rightarrow> int \<Rightarrow> int list \<Rightarrow> request \<Rightarrow> world \<Rightarrow> nat" where
  "admitted ws mx [] rq w = 0"
| "admitted ws mx (t # ts) rq w =
     (case rateLimiter ws mx t True rq None w of
        (None, w1) \<Rightarrow> Suc (admitted ws mx ts rq w1)
      | (Some r, w1) \<Rightarrow> admitted ws mx ts rq w1)"

lemma admitted_counts:
  "admitted ws mx ts rq w = length (filter (\<lambda>n. n \<le> mx) (incr_counts ts (ratelimit_key rq None) ws w))"
  by (induction ts arbitrary: w) (auto simp: rateLimiter_def split: prod.split)

text \<open>
  Of the requests from one address for one route prefix that arrive before the window of
  the first one ends, exactly the first maxRequests pass.
\<close>

theorem window_admits_exactly:
  assumes "redis_live t0 (ratelimit_key rq None) w = None" and "0 < ws" and "1 \<le> mx"
    and "\<forall>t \<in> set ts. t < t0 + ws * 1000"
  shows "admitted ws mx (t0 # ts) rq w = min (length (t0 # ts)) (nat mx)"
proof -
  let ?k = "ratelimit_key rq None"
  obtain n w1 where w1: "window_incr t0 ?k ws w = (n, w1)" by fastforce
  then have n: "n = 1" using assms(1) by (auto simp: window_incr_def Let_def)
  have "window_at ?k 1 (t0 + ws * 1000) w1" using window_opens [OF assms(1)] w1 n assms(2) by blast
  then have counts: "incr_counts ts ?k ws w1 = map (\<lambda>i. 1 + 1 + int i) [0..<length ts]"
    using assms(4) by (rule incr_counts_window)
  have "filter (\<lambda>i. 1 + 1 + int i \<le> mx) [0..<m] = [0..<min m (nat (mx - 1))]" for m
    using assms(3) by (induction m) auto
  then have "length (filter (\<lambda>n. n \<le> mx) (incr_counts ts ?k ws w1)) = min (length ts) (nat (mx - 1))"
    unfolding counts by (simp add: filter_map o_def)
  then show ?thesis using assms(3) w1 n by (simp add: admitted_counts del: admitted.simps)
qed

end
