(* ===== verification/Secrets.thy ===== *)
theory Secrets
  imports Api_Auth
begin

section \<open>Encryption, provider settings and the choice of a model provider\<close>

text \<open>
  core/crypto/encryption.service.ts, api/settings.controller.ts and the configuration part of
  core/minister/llm.provider.ts. The cipher is a parameter: \<open>ci_seal\<close> takes the base64 text of
  the initialisation vector and the plaintext to the base64 texts of tag and ciphertext, and
  \<open>ci_open\<close> takes the three texts back, each \<open>None\<close> when the library throws.
\<close>

record cipher =
  ci_seal :: "string \<Rightarrow> string \<Rightarrow> (string \<times> string) option"
  ci_open :: "string \<Rightarrow> string \<Rightarrow> string \<Rightarrow> string option"

subsection \<open>The key material\<close>

text \<open>Where the encryption key comes from; the fallback is derived from constants of the source.\<close>

datatype key_source = From_Base64 string | Derived_For_Development

definition getEncryptionKey :: "api_env \<Rightarrow> exn + key_source" where
  "getEncryptionKey av =
     (case env_var av ''ENCRYPTION_MASTER_KEY'' of
        Some k \<Rightarrow> Inr (From_Base64 k)
      | None \<Rightarrow>
          if production av
          then Inl (JsError ''CRITICAL: ENCRYPTION_MASTER_KEY environment variable is required in production.'')
          else Inr Derived_For_Development)"

text \<open>The two characters backslash and n, as environment files carry a line break.\<close>

fun unescape_newlines :: "string \<Rightarrow> string" where
  "unescape_newlines (c # d # s) =
     (if c = bs \<and> d = CHR ''n'' then CHR 0x0A # unescape_newlines s else c # unescape_newlines (d # s))"
| "unescape_newlines s = s"

text \<open>
  The signing keys, private and public, loaded once: \<open>cached\<close> is what the process holds (empty
  texts before the first call) and \<open>generated\<close> a fresh pair of the crypto library.
\<close>

definition getKeys :: "api_env \<Rightarrow> string \<times> string \<Rightarrow> string \<times> string \<Rightarrow> exn + (string \<times> string)" where
  "getKeys av generated cached =
     (if fst cached \<noteq> [] \<and> snd cached \<noteq> [] then Inr cached
      else (case (env_var av ''GOVERNOR_PRIVATE_KEY'', env_var av ''GOVERNOR_PUBLIC_KEY'') of
              (Some private, Some public) \<Rightarrow> Inr (unescape_newlines private, unescape_newlines public)
            | _ \<Rightarrow>
                if production av
                then Inl (JsError ''CRITICAL: GOVERNOR_PRIVATE_KEY and GOVERNOR_PUBLIC_KEY environment variables are required in production.'')
                else Inr generated))"

lemma unescape_nonempty [simp]: "unescape_newlines s = [] \<longleftrightarrow> s = []"
  by (cases s rule: unescape_newlines.cases) auto

text \<open>Once loaded, the keys stay: tokens signed before remain verifiable while the process lives.\<close>

lemma getKeys_stable:
  assumes "getKeys av gen ([], []) = Inr ks" and "fst gen \<noteq> []" and "snd gen \<noteq> []"
  shows "getKeys av' gen' ks = Inr ks"
  using assms by (auto simp: getKeys_def env_var_def str_or_def split: option.splits if_splits)

subsection \<open>The encryption service\<close>

definition encrypt :: "cipher \<Rightarrow> string \<Rightarrow> string \<Rightarrow> exn + string" where
  "encrypt ci iv plaintext =
     (if plaintext = [] then Inr plaintext
      else (case ci_seal ci iv plaintext of
              None \<Rightarrow> Inl (JsError ''Failed to encrypt secret data.'')
            | Some (tag, ct) \<Rightarrow> Inr (iv @ '':'' @ tag @ '':'' @ ct)))"

definition decrypt :: "cipher \<Rightarrow> string \<Rightarrow> exn + string" where
  "decrypt ci encryptedData =
     (if encryptedData = [] then Inr encryptedData
      else (case js_split (CHR '':'') encryptedData of
              [iv, tag, ct] \<Rightarrow>
                (case ci_open ci iv tag ct of
                   Some p \<Rightarrow> Inr p
                 | None \<Rightarrow> Inl (JsError ''Failed to decrypt secret data.''))
            | _ \<Rightarrow> Inl (JsError ''Failed to decrypt secret data.'')))"

text \<open>
  What the code relies on of the cipher: it opens what it sealed, and base64 has no colon.
\<close>

definition colon_free :: "string \<Rightarrow> bool" where
  "colon_free s \<longleftrightarrow> CHR '':'' \<notin> set s"

definition cipher_law :: "cipher \<Rightarrow> bool" where
  "cipher_law ci \<longleftrightarrow> (\<forall>iv p tag ct. ci_seal ci iv p = Some (tag, ct) \<longrightarrow>
     ci_open ci iv tag ct = Some p \<and> colon_free tag \<and> colon_free ct)"

lemma decrypt_encrypt:
  assumes "cipher_law ci" and "colon_free iv" and "encrypt ci iv p = Inr s"
  shows "decrypt ci s = Inr p"
proof (cases "p = []")
  case True
  then show ?thesis using assms(3) by (simp add: encrypt_def decrypt_def)
next
  case False
  then obtain tag ct where seal: "ci_seal ci iv p = Some (tag, ct)" and s: "s = iv @ '':'' @ tag @ '':'' @ ct"
    using assms(3) by (auto simp: encrypt_def split: option.splits)
  have "ci_open ci iv tag ct = Some p" "colon_free tag" "colon_free ct" using assms(1) seal by (auto simp: cipher_law_def)
  moreover from this have "js_split (CHR '':'') s = [iv, tag, ct]"
    using assms(2) s by (simp add: split_at_sep split_no_sep colon_free_def)
  ultimately show ?thesis using s by (simp add: decrypt_def)
qed

subsection \<open>Settings\<close>

definition llm_category :: string where
  "llm_category = ''llm_providers''"

definition upsertSetting :: "string \<Rightarrow> string \<Rightarrow> string \<Rightarrow> world \<Rightarrow> world" where
  "upsertSetting tenantId key val w =
     (let p = (\<lambda>s. s_tenantId s = tenantId \<and> s_category s = llm_category \<and> s_key s = key)
      in if count_where p (settings w) = 0
         then w\<lparr>settings := settings w @ [\<lparr>s_tenantId = tenantId, s_category = llm_category, s_key = key, s_value = val\<rparr>]\<rparr>
         else w\<lparr>settings := update_where p (\<lambda>s. s\<lparr>s_value := val\<rparr>) (settings w)\<rparr>)"

definition SaveSettingsSchema :: "json \<Rightarrow> bool" where
  "SaveSettingsSchema v \<longleftrightarrow> is_object (Some v)
     \<and> req_str_ok (\<lambda>s. s \<in> set [''openai'', ''anthropic'', ''ollama'', ''custom'']) (jget v ''active_provider'')
     \<and> opt_str_ok (\<lambda>s. True) (jget v ''openai_key'') \<and> opt_str_ok (\<lambda>s. True) (jget v ''anthropic_key'')
     \<and> opt_str_ok (\<lambda>s. True) (jget v ''model'') \<and> opt_str_ok (\<lambda>s. True) (jget v ''base_url'')"

definition str_field :: "json \<Rightarrow> string \<Rightarrow> string option" where
  "str_field v k = (case jget v k of Some (JStr s) \<Rightarrow> Some s | _ \<Rightarrow> None)"

definition save_key :: "cipher \<Rightarrow> string \<Rightarrow> string \<Rightarrow> string \<Rightarrow> string option \<Rightarrow> world \<Rightarrow> (exn + unit) \<times> world" where
  "save_key ci iv tenantId key val w =
     (case val of
        None \<Rightarrow> (Inr (), w)
      | Some k \<Rightarrow>
          if js_trim k = [] then (Inr (), w)
          else (case encrypt ci iv k of
                  Inl e \<Rightarrow> (Inl e, w)
                | Inr s \<Rightarrow> (Inr (), upsertSetting tenantId key s w)))"

definition save_plain :: "string \<Rightarrow> string \<Rightarrow> string option \<Rightarrow> world \<Rightarrow> world" where
  "save_plain tenantId key val w = (case val of None \<Rightarrow> w | Some v \<Rightarrow> upsertSetting tenantId key v w)"

definition save_settings :: "cipher \<Rightarrow> string \<Rightarrow> string \<Rightarrow> user \<Rightarrow> json \<Rightarrow> world \<Rightarrow> reply \<times> world" where
  "save_settings ci iv1 iv2 u body w =
     (let failed = error_reply 400 ''Failed to save settings''; t = us_tenant u
      in if \<not> SaveSettingsSchema body then (failed, w)
         else (let w1 = save_plain t ''active_provider'' (str_field body ''active_provider'') w in
               case save_key ci iv1 t ''openai_key'' (str_field body ''openai_key'') w1 of
                 (Inl e, w2) \<Rightarrow> (failed, w2)
               | (Inr _, w2) \<Rightarrow>
                   (case save_key ci iv2 t ''anthropic_key'' (str_field body ''anthropic_key'') w2 of
                      (Inl e, w3) \<Rightarrow> (failed, w3)
                    | (Inr _, w3) \<Rightarrow>
                        (Reply 200 (JObj [(''success'', JBool True), (''message'', JStr ''Settings saved successfully'')]),
                         save_plain t ''base_url'' (str_field body ''base_url'')
                           (save_plain t ''model'' (str_field body ''model'') w3)))))"

definition tenant_settings :: "string \<Rightarrow> world \<Rightarrow> setting_row list" where
  "tenant_settings t w = filter (\<lambda>s. s_tenantId s = t \<and> s_category s = llm_category) (settings w)"

text \<open>The last of the rows with a key decides; keys are unique, so it is the only one.\<close>

definition setting_value :: "string \<Rightarrow> setting_row list \<Rightarrow> string option" where
  "setting_value k ss = map_of (rev (map (\<lambda>s. (s_key s, s_value s)) ss)) k"

definition text_setting :: "string option \<Rightarrow> json" where
  "text_setting v = JStr (case v of None \<Rightarrow> [] | Some s \<Rightarrow> s)"

definition get_settings :: "user \<Rightarrow> world \<Rightarrow> reply" where
  "get_settings u w =
     (let ss = tenant_settings (us_tenant u) w;
          has = (\<lambda>k. JBool (list_ex (\<lambda>s. s_key s = k \<and> s_value s \<noteq> []) ss))
      in Reply 200 (JObj
           [(''active_provider'', JStr (case setting_value ''active_provider'' ss of None \<Rightarrow> ''openai'' | Some s \<Rightarrow> s)),
            (''has_openai_key'', has ''openai_key''), (''has_anthropic_key'', has ''anthropic_key''),
            (''model'', text_setting (setting_value ''model'' ss)), (''base_url'', text_setting (setting_value ''base_url'' ss))]))"

subsection \<open>The provider of a tenant\<close>

datatype provider_kind = OpenAI | Anthropic

record provider =
  pr_kind :: provider_kind
  pr_key :: string
  pr_model :: string
  pr_base :: "string option"

definition var_or :: "api_env \<Rightarrow> string \<Rightarrow> string \<Rightarrow> string" where
  "var_or av k d = (case env_var av k of Some s \<Rightarrow> s | None \<Rightarrow> d)"

definition or_default :: "string \<Rightarrow> string \<Rightarrow> string" where
  "or_default s d = (if s = [] then d else s)"

definition openai_provider :: "string \<Rightarrow> string \<Rightarrow> string \<Rightarrow> provider" where
  "openai_provider key model base =
     \<lparr>pr_kind = OpenAI, pr_key = key, pr_model = model, pr_base = (if base = [] then None else Some base)\<rparr>"

definition ollama_provider :: "string \<Rightarrow> string \<Rightarrow> provider" where
  "ollama_provider model base =
     openai_provider ''ollama'' (or_default model ''llama3'') (or_default base ''http://localhost:11434/v1'')"

definition anthropic_provider :: "string \<Rightarrow> string \<Rightarrow> string \<Rightarrow> provider" where
  "anthropic_provider key model base =
     \<lparr>pr_kind = Anthropic, pr_key = key, pr_model = model, pr_base = (if base = [] then None else Some base)\<rparr>"

text \<open>A key that does not decrypt is logged and skipped.\<close>

definition secret_setting :: "cipher \<Rightarrow> string option \<Rightarrow> string \<Rightarrow> string" where
  "secret_setting ci v d = (case v of None \<Rightarrow> d | Some s \<Rightarrow> (case decrypt ci s of Inr k \<Rightarrow> k | Inl e \<Rightarrow> d))"

definition make_provider :: "string \<Rightarrow> string \<Rightarrow> string \<Rightarrow> string \<Rightarrow> string \<Rightarrow> exn + provider" where
  "make_provider name openaiKey anthropicKey model baseURL =
     (if name = ''anthropic'' then Inr (anthropic_provider anthropicKey (or_default model ''claude-3-haiku-20240307'') baseURL)
      else if name = ''ollama'' then Inr (ollama_provider model baseURL)
      else if name = ''custom''
      then (if baseURL = [] then Inl (JsError ''Custom provider requires a base URL'')
            else Inr (openai_provider openaiKey (or_default model ''gpt-3.5-turbo'') baseURL))
      else Inr (openai_provider openaiKey (or_default model ''gpt-4o-mini'') baseURL))"

definition plain_setting :: "string option \<Rightarrow> string \<Rightarrow> string" where
  "plain_setting v d = (case v of None \<Rightarrow> d | Some s \<Rightarrow> s)"

definition getProvider :: "cipher \<Rightarrow> api_env \<Rightarrow> string \<Rightarrow> world \<Rightarrow> exn + provider" where
  "getProvider ci av tenantId w =
     (let ss = tenant_settings tenantId w
      in make_provider
           (plain_setting (setting_value ''active_provider'' ss) (var_or av ''ACTIVE_LLM_PROVIDER'' ''openai''))
           (secret_setting ci (setting_value ''openai_key'' ss) (var_or av ''OPENAI_API_KEY'' ''dummy_key''))
           (secret_setting ci (setting_value ''anthropic_key'' ss) (var_or av ''ANTHROPIC_API_KEY'' ''dummy_key''))
           (plain_setting (setting_value ''model'' ss) (var_or av ''LLM_MODEL'' []))
           (plain_setting (setting_value ''base_url'' ss) (var_or av ''LLM_BASE_URL'' [])))"

subsection \<open>Settings are read back\<close>

definition settings_unique :: "world \<Rightarrow> bool" where
  "settings_unique w \<longleftrightarrow> distinct (map (\<lambda>s. (s_tenantId s, s_category s, s_key s)) (settings w))"

definition stored :: "string \<Rightarrow> string \<Rightarrow> world \<Rightarrow> string option" where
  "stored t k w = setting_value k (tenant_settings t w)"

lemma stored_find:
  assumes "settings_unique w"
  shows "stored t k w = map_option s_value (find_first (\<lambda>s. s_tenantId s = t \<and> s_category s = llm_category \<and> s_key s = k) (settings w))"
proof -
  have aux: "map_of (rev (map (\<lambda>s. (s_key s, s_value s)) (filter (\<lambda>s. s_tenantId s = t \<and> s_category s = llm_category) ss))) k
     = map_option s_value (find_first (\<lambda>s. s_tenantId s = t \<and> s_category s = llm_category \<and> s_key s = k) ss)"
    if "distinct (map (\<lambda>s. (s_tenantId s, s_category s, s_key s)) ss)" for ss
    using that
  proof (induction ss)
    case (Cons s ss)
    show ?case
    proof (cases "s_tenantId s = t \<and> s_category s = llm_category \<and> s_key s = k")
      case True
      then have "find_first (\<lambda>s. s_tenantId s = t \<and> s_category s = llm_category \<and> s_key s = k) ss = None"
        using Cons.prems by (auto simp: find_first_None image_iff)
      then show ?thesis using Cons True by (simp add: map_add_def)
    next
      case False
      then show ?thesis using Cons by (auto simp: map_add_def split: option.split)
    qed
  qed simp
  show ?thesis using aux assms by (simp add: stored_def setting_value_def tenant_settings_def settings_unique_def)
qed

lemma upsert_unique: "settings_unique w \<Longrightarrow> settings_unique (upsertSetting t k v w)"
  by (auto simp: settings_unique_def upsertSetting_def Let_def count_where_0 map_update_where image_iff)

lemma upsert_stored:
  assumes "settings_unique w"
  shows "stored t' k' (upsertSetting t k v w) = (if t' = t \<and> k' = k then Some v else stored t' k' w)"
proof -
  let ?p = "\<lambda>s. s_tenantId s = t \<and> s_category s = llm_category \<and> s_key s = k"
  let ?q = "\<lambda>s. s_tenantId s = t' \<and> s_category s = llm_category \<and> s_key s = k'"
  note find = stored_find [OF upsert_unique [OF assms]] stored_find [OF assms]
  show ?thesis
  proof (cases "count_where ?p (settings w) = 0")
    case True
    then have "find_first ?p (settings w) = None" by (simp add: count_where_0 find_first_None)
    then show ?thesis
      using True unfolding find by (auto simp: upsertSetting_def Let_def find_first_append split: option.split)
  next
    case False
    then have w: "settings (upsertSetting t k v w) = update_where ?p (\<lambda>s. s\<lparr>s_value := v\<rparr>) (settings w)"
      by (simp add: upsertSetting_def Let_def)
    show ?thesis
    proof (cases "t' = t \<and> k' = k")
      case True
      obtain y where y: "find_first ?p (settings w) = Some y"
        using False unfolding count_where_0 find_first_None [symmetric] by auto
      have "find_first ?p (update_where ?p (\<lambda>s. s\<lparr>s_value := v\<rparr>) ss) = map_option (\<lambda>s. s\<lparr>s_value := v\<rparr>) (find_first ?p ss)" for ss
        by (induction ss) auto
      from this [of "settings w"] show ?thesis using True y unfolding find w by simp
    next
      case other: False
      then have "find_first ?q (update_where ?p (\<lambda>s. s\<lparr>s_value := v\<rparr>) (settings w)) = find_first ?q (settings w)"
        by (intro find_update_other) auto
      then show ?thesis using other unfolding find w by auto
    qed
  qed
qed

subsection \<open>Saved settings reach the provider\<close>

lemma save_plain_stored:
  assumes "settings_unique w"
  shows "settings_unique (save_plain t k v w)
     \<and> stored t' k' (save_plain t k v w) = (if t' = t \<and> k' = k \<and> v \<noteq> None then v else stored t' k' w)"
  using assms by (auto simp: save_plain_def upsert_unique upsert_stored split: option.split)

text \<open>What a saved key decrypts to: the key given, or what was stored when none is given.\<close>

definition opens_to :: "cipher \<Rightarrow> string \<Rightarrow> string option \<Rightarrow> bool" where
  "opens_to ci k v \<longleftrightarrow> (\<exists>s. v = Some s \<and> decrypt ci s = Inr k)"

lemma save_key_stored:
  assumes "cipher_law ci" and "colon_free iv" and "settings_unique w" and "save_key ci iv t k val w = (Inr x, w')"
  shows "settings_unique w' \<and> (t' \<noteq> t \<or> k' \<noteq> k \<longrightarrow> stored t' k' w' = stored t' k' w)
     \<and> (\<forall>p. val = Some p \<longrightarrow> js_trim p \<noteq> [] \<longrightarrow> opens_to ci p (stored t k w'))"
  using assms decrypt_encrypt [OF assms(1,2)]
  by (auto simp: save_key_def upsert_unique upsert_stored opens_to_def split: option.splits if_splits sum.splits)

lemma opens_secret: "opens_to ci k v \<Longrightarrow> secret_setting ci v d = k"
  by (auto simp: opens_to_def secret_setting_def)

lemma getProvider_stored:
  "getProvider ci av t w = make_provider
     (plain_setting (stored t ''active_provider'' w) (var_or av ''ACTIVE_LLM_PROVIDER'' ''openai''))
     (secret_setting ci (stored t ''openai_key'' w) (var_or av ''OPENAI_API_KEY'' ''dummy_key''))
     (secret_setting ci (stored t ''anthropic_key'' w) (var_or av ''ANTHROPIC_API_KEY'' ''dummy_key''))
     (plain_setting (stored t ''model'' w) (var_or av ''LLM_MODEL'' []))
     (plain_setting (stored t ''base_url'' w) (var_or av ''LLM_BASE_URL'' []))"
  by (simp add: getProvider_def stored_def Let_def)

definition all_settings :: "string \<Rightarrow> string \<Rightarrow> string \<Rightarrow> string \<Rightarrow> string \<Rightarrow> json" where
  "all_settings name openai anthropic model base =
     JObj [(''active_provider'', JStr name), (''openai_key'', JStr openai), (''anthropic_key'', JStr anthropic),
           (''model'', JStr model), (''base_url'', JStr base)]"

text \<open>
  C24: what an administrator saves is what the tenant's advisor uses. After a successful save of
  all settings with keys that are not blank, the provider of the tenant is built from exactly
  the given name, keys (through encryption and decryption), model and base URL, and the
  provider of every other tenant is unchanged.
\<close>

theorem saved_settings_used:
  assumes "cipher_law ci" and "colon_free iv1" and "colon_free iv2" and "settings_unique w"
    and "js_trim k1 \<noteq> []" and "js_trim k2 \<noteq> []"
    and "save_settings ci iv1 iv2 u (all_settings n k1 k2 m b) w = (Reply 200 r, w')"
  shows "getProvider ci av (us_tenant u) w' = make_provider n k1 k2 m b
     \<and> (\<forall>t. t = us_tenant u \<or> getProvider ci av t w' = getProvider ci av t w)"
proof -
  let ?body = "all_settings n k1 k2 m b" and ?t = "us_tenant u"
  have fields: "str_field ?body ''active_provider'' = Some n" "str_field ?body ''openai_key'' = Some k1"
    "str_field ?body ''anthropic_key'' = Some k2" "str_field ?body ''model'' = Some m" "str_field ?body ''base_url'' = Some b"
    by (simp_all add: all_settings_def str_field_def)
  let ?w1 = "save_plain ?t ''active_provider'' (Some n) w"
  obtain w2 w3 where w2: "save_key ci iv1 ?t ''openai_key'' (Some k1) ?w1 = (Inr (), w2)"
    and w3: "save_key ci iv2 ?t ''anthropic_key'' (Some k2) w2 = (Inr (), w3)"
    and w': "w' = save_plain ?t ''base_url'' (Some b) (save_plain ?t ''model'' (Some m) w3)"
    using assms(7) unfolding save_settings_def Let_def fields
    by (auto simp: error_reply_def split: if_splits prod.splits sum.splits)
  note s1 = save_plain_stored [OF assms(4), of ?t "''active_provider''" "Some n"]
  note s2 = save_key_stored [OF assms(1,2) conjunct1 [OF s1] w2]
  note s3 = save_key_stored [OF assms(1,3) conjunct1 [OF s2] w3]
  note s4 = save_plain_stored [OF conjunct1 [OF s3], of ?t "''model''" "Some m"]
  note s5 = save_plain_stored [OF conjunct1 [OF s4], of ?t "''base_url''" "Some b", folded w']
  have own: "stored ?t ''active_provider'' w' = Some n" "stored ?t ''model'' w' = Some m" "stored ?t ''base_url'' w' = Some b"
    "opens_to ci k1 (stored ?t ''openai_key'' w')" "opens_to ci k2 (stored ?t ''anthropic_key'' w')"
    using s1 s2 s3 s4 s5 assms(5,6) by simp_all
  have other: "stored t k w' = stored t k w" if "t \<noteq> ?t" for t k
    using s1 s2 s3 s4 s5 that by simp
  have "getProvider ci av ?t w' = make_provider n k1 k2 m b"
    using own by (simp add: getProvider_stored plain_setting_def opens_secret)
  moreover have "getProvider ci av t w' = getProvider ci av t w" if "t \<noteq> ?t" for t
    using other [OF that] by (simp add: getProvider_stored)
  ultimately show ?thesis by blast
qed

end
