(* ===== verification/Json_Parse.thy ===== *)
theory Json_Parse
  imports Json_Text
begin

section \<open>JSON.parse, and that it reads back what JSON.stringify prints\<close>

text \<open>
  The advisor parses the text a language model answers. \<open>JSON_parse\<close> is the grammar of the
  language: white space, literals, numbers, strings with escapes, arrays and objects. A number
  keeps its decimal exactly, as elsewhere in the model; an escape of a code unit above 255 lies
  outside the alphabet of the model and is refused. Of repeated keys the last value counts at
  the place of the first, and keys that are array indices come first in ascending order, as the
  language enumerates them.

  The recursion carries fuel; \<open>parse_value_fuel\<close> shows that any amount above twice the length
  of the text gives the same answer.
\<close>

subsection \<open>Tokens\<close>

definition is_ws :: "char \<Rightarrow> bool" where
  "is_ws c \<longleftrightarrow> code c = 9 \<or> code c = 10 \<or> code c = 13 \<or> code c = 32"

definition skip_ws :: "string \<Rightarrow> string" where
  "skip_ws s = dropWhile is_ws s"

definition canon_num :: "int \<Rightarrow> int \<Rightarrow> num" where
  "canon_num m e =
     (if m = 0 then Fin 0 0
      else (case strip0 (nat \<bar>m\<bar>) e of (s, e') \<Rightarrow> Fin (if m < 0 then - int s else int s) e'))"

text \<open>An unsigned JSON number, as its digits read without the point and the exponent.\<close>

definition json_unsigned :: "string \<Rightarrow> (nat \<times> int) option" where
  "json_unsigned u =
     (let ip = takeWhile is_digit u; r = dropWhile is_digit u;
          point = (r \<noteq> [] \<and> hd r = CHR ''.'');
          fp = (if point then takeWhile is_digit (tl r) else []);
          r' = (if point then dropWhile is_digit (tl r) else r)
      in if ip = [] \<or> (1 < length ip \<and> hd ip = CHR ''0'') \<or> (point \<and> fp = []) then None
         else map_option (\<lambda>x. (nat_of_digits (ip @ fp), x - int (length fp))) (parse_exponent r'))"

definition json_number :: "string \<Rightarrow> num option" where
  "json_number t =
     (if t \<noteq> [] \<and> hd t = CHR ''-''
      then map_option (\<lambda>(m, e). canon_num (- int m) e) (json_unsigned (tl t))
      else map_option (\<lambda>(m, e). canon_num (int m) e) (json_unsigned t))"

definition number_char :: "char \<Rightarrow> bool" where
  "number_char c \<longleftrightarrow> c \<in> set ''0123456789+-.eE''"

definition hex_value :: "char \<Rightarrow> nat option" where
  "hex_value c = (if radix_digit c < 16 then Some (radix_digit c) else None)"

definition unescape :: "char \<Rightarrow> char option" where
  "unescape b =
     (if b = dq then Some dq else if b = bs then Some bs else if b = CHR ''/'' then Some b
      else if b = CHR ''b'' then Some (char_of (8 :: nat)) else if b = CHR ''f'' then Some (char_of (12 :: nat))
      else if b = CHR ''n'' then Some (char_of (10 :: nat)) else if b = CHR ''r'' then Some (char_of (13 :: nat))
      else if b = CHR ''t'' then Some (char_of (9 :: nat)) else None)"

definition unicode_escape :: "char \<Rightarrow> char \<Rightarrow> char \<Rightarrow> char \<Rightarrow> char option" where
  "unicode_escape a b c d =
     (case (hex_value a, hex_value b, hex_value c, hex_value d) of
        (Some w, Some x, Some y, Some z) \<Rightarrow>
          (let v = 4096 * w + 256 * x + 16 * y + z in if v < 256 then Some (char_of v) else None)
      | _ \<Rightarrow> None)"

definition prepend :: "'a \<Rightarrow> ('a list \<times> 'b) option \<Rightarrow> ('a list \<times> 'b) option" where
  "prepend x = map_option (\<lambda>(xs, r). (x # xs, r))"

text \<open>The rest of a string literal after its opening quote, with the text that follows it.\<close>

fun parse_chars :: "string \<Rightarrow> (string \<times> string) option" where
  "parse_chars [] = None"
| "parse_chars (c # r) =
     (if c = dq then Some ([], r)
      else if c = bs then
        (case r of
           [] \<Rightarrow> None
         | b # r1 \<Rightarrow>
             if b = CHR ''u'' then
               (case r1 of
                  h1 # h2 # h3 # h4 # r2 \<Rightarrow>
                    (case unicode_escape h1 h2 h3 h4 of None \<Rightarrow> None | Some ch \<Rightarrow> prepend ch (parse_chars r2))
                | _ \<Rightarrow> None)
             else (case unescape b of None \<Rightarrow> None | Some ch \<Rightarrow> prepend ch (parse_chars r1)))
      else if code c < 32 then None
      else prepend c (parse_chars r))"

subsection \<open>Objects\<close>

fun put_property :: "string \<Rightarrow> json \<Rightarrow> (string \<times> json) list \<Rightarrow> (string \<times> json) list" where
  "put_property k v [] = [(k, v)]"
| "put_property k v ((k', v') # kvs) = (if k' = k then (k, v) # kvs else (k', v') # put_property k v kvs)"

definition array_index :: "string \<Rightarrow> bool" where
  "array_index k \<longleftrightarrow> k \<noteq> [] \<and> list_all is_digit k \<and> nat_digits (nat_of_digits k) = k \<and> nat_of_digits k < 2 ^ 32 - 1"

definition enumeration :: "(string \<times> json) list \<Rightarrow> (string \<times> json) list" where
  "enumeration kvs =
     sort_key (\<lambda>(k, v). nat_of_digits k) (filter (\<lambda>(k, v). array_index k) kvs) @ filter (\<lambda>(k, v). \<not> array_index k) kvs"

definition own_properties :: "(string \<times> json) list \<Rightarrow> (string \<times> json) list" where
  "own_properties kvs = enumeration (foldl (\<lambda>acc (k, v). put_property k v acc) [] kvs)"

subsection \<open>Values\<close>

definition literal :: "string \<Rightarrow> json \<Rightarrow> string \<Rightarrow> (json \<times> string) option" where
  "literal w v s = (if starts_with s w then Some (v, drop (length w) s) else None)"

fun parse_value :: "nat \<Rightarrow> string \<Rightarrow> (json \<times> string) option"
  and parse_items :: "nat \<Rightarrow> string \<Rightarrow> (json list \<times> string) option"
  and parse_members :: "nat \<Rightarrow> string \<Rightarrow> ((string \<times> json) list \<times> string) option" where
  "parse_value 0 s = None"
| "parse_value (Suc n) s =
     (case skip_ws s of
        [] \<Rightarrow> None
      | c # r \<Rightarrow>
          if c = dq then map_option (\<lambda>(t, r'). (JStr t, r')) (parse_chars r)
          else if c = CHR ''['' then
            (if skip_ws r \<noteq> [] \<and> hd (skip_ws r) = CHR '']'' then Some (JArr [], tl (skip_ws r))
             else map_option (\<lambda>(xs, r'). (JArr xs, r')) (parse_items n r))
          else if c = CHR ''{'' then
            (if skip_ws r \<noteq> [] \<and> hd (skip_ws r) = CHR ''}'' then Some (JObj [], tl (skip_ws r))
             else map_option (\<lambda>(kvs, r'). (JObj (own_properties kvs), r')) (parse_members n r))
          else if c = CHR ''n'' then literal ''null'' JNull (c # r)
          else if c = CHR ''t'' then literal ''true'' (JBool True) (c # r)
          else if c = CHR ''f'' then literal ''false'' (JBool False) (c # r)
          else map_option (\<lambda>x. (JNum x, dropWhile number_char (c # r))) (json_number (takeWhile number_char (c # r))))"
| "parse_items 0 s = None"
| "parse_items (Suc n) s =
     (case parse_value n s of
        None \<Rightarrow> None
      | Some (v, r) \<Rightarrow>
          (case skip_ws r of
             [] \<Rightarrow> None
           | c # r' \<Rightarrow>
               if c = CHR '']'' then Some ([v], r')
               else if c = CHR '','' then prepend v (parse_items n r')
               else None))"
| "parse_members 0 s = None"
| "parse_members (Suc n) s =
     (case skip_ws s of
        [] \<Rightarrow> None
      | q # r0 \<Rightarrow>
          if q \<noteq> dq then None
          else (case parse_chars r0 of
             None \<Rightarrow> None
           | Some (k, r1) \<Rightarrow>
               (case skip_ws r1 of
                  [] \<Rightarrow> None
                | colon # r2 \<Rightarrow>
                    if colon \<noteq> CHR '':'' then None
                    else (case parse_value n r2 of
                       None \<Rightarrow> None
                     | Some (v, r) \<Rightarrow>
                         (case skip_ws r of
                            [] \<Rightarrow> None
                          | c # r' \<Rightarrow>
                              if c = CHR ''}'' then Some ([(k, v)], r')
                              else if c = CHR '','' then prepend (k, v) (parse_members n r')
                              else None)))))"

definition JSON_parse :: "string \<Rightarrow> json option" where
  "JSON_parse s =
     (case parse_value (2 * length s + 1) s of
        None \<Rightarrow> None
      | Some (v, r) \<Rightarrow> if skip_ws r = [] then Some v else None)"

subsection \<open>The fuel is enough\<close>

lemma prepend_Some: "prepend x o' = Some (ys, r) \<longleftrightarrow> (\<exists>xs. o' = Some (xs, r) \<and> ys = x # xs)"
  by (auto simp: prepend_def)

lemma skip_ws_length: "length (skip_ws s) \<le> length s"
  by (simp add: skip_ws_def length_dropWhile_le)

lemma skip_ws_Cons_length: "skip_ws s = c # r \<Longrightarrow> length r < length s"
  using skip_ws_length [of s] by simp

lemma parse_chars_length: "parse_chars s = Some (t, r) \<Longrightarrow> length r < length s"
proof (induction s arbitrary: t r rule: length_induct)
  case (1 s)
  have IH: "parse_chars u = Some (t', r') \<Longrightarrow> length u < length s \<Longrightarrow> length r' < length u" for u t' r'
    using 1(1) by blast
  show ?case
    using 1(2)
    by (cases s) (auto simp: prepend_Some split: if_splits list.splits option.splits dest!: IH)
qed

lemma number_token_length:
  "json_number (takeWhile number_char s) = Some x \<Longrightarrow> length (dropWhile number_char s) < length s"
  by (cases s) (auto simp: json_number_def json_unsigned_def split: if_splits intro: le_imp_less_Suc length_dropWhile_le)

lemma literal_length: "literal w v s = Some (x, r) \<Longrightarrow> w \<noteq> [] \<Longrightarrow> length r < length s"
  by (auto simp: literal_def starts_with_def prefix_def split: if_splits)

lemma parse_length:
  "parse_value n s = Some (v, r) \<Longrightarrow> length r < length s"
  "parse_items n s = Some (vs, r) \<Longrightarrow> length r < length s"
  "parse_members n s = Some (kvs, r) \<Longrightarrow> length r < length s"
proof (induction n s and n s and n s arbitrary: v r and vs r and kvs r rule: parse_value_parse_items_parse_members.induct)
  case (2 n s)
  then obtain c u where u: "skip_ws s = c # u" by (auto split: list.splits)
  have len: "length u < length s" using skip_ws_Cons_length [OF u] .
  have tl: "length (tl (skip_ws u)) < length s" using skip_ws_length [of u] len by simp
  show ?case
    using 2(3) u len tl parse_chars_length [of u] 2(1) 2(2) skip_ws_length [of s] number_token_length [of "c # u"]
      literal_length [of "''null''" _ "c # u"] literal_length [of "''true''" _ "c # u"] literal_length [of "''false''" _ "c # u"]
    by (fastforce split: if_splits)
next
  case (4 n s)
  then show ?case
    by (fastforce simp: prepend_Some split: option.splits list.splits if_splits dest!: skip_ws_Cons_length)
next
  case (6 n s)
  then show ?case
    by (fastforce simp: prepend_Some split: option.splits list.splits if_splits dest!: skip_ws_Cons_length parse_chars_length)
qed simp_all

lemma parse_step:
  "(\<forall>s. 2 * length s < n \<longrightarrow> parse_value (Suc n) s = parse_value n s)
   \<and> (\<forall>s. 2 * length s + 1 < n \<longrightarrow> parse_items (Suc n) s = parse_items n s)
   \<and> (\<forall>s. 2 * length s < n \<longrightarrow> parse_members (Suc n) s = parse_members n s)"
proof (induction n)
  case (Suc n)
  have val: "parse_value (Suc (Suc n)) s = parse_value (Suc n) s" if s: "2 * length s < Suc n" for s
  proof (cases "skip_ws s")
    case (Cons c r)
    then have "length r < length s" by (rule skip_ws_Cons_length)
    then have "parse_items (Suc n) r = parse_items n r" "parse_members (Suc n) r = parse_members n r"
      using Suc.IH s by auto
    then show ?thesis by (simp only: parse_value.simps(2) Cons list.case)
  qed simp
  have items: "parse_items (Suc (Suc n)) s = parse_items (Suc n) s" if s: "2 * length s + 1 < Suc n" for s
  proof -
    have v: "parse_value (Suc n) s = parse_value n s" using Suc.IH s by auto
    have "parse_items (Suc n) r' = parse_items n r'"
      if "parse_value n s = Some (v, r)" "skip_ws r = c # r'" for v r c r'
      using parse_length(1) [OF that(1)] skip_ws_Cons_length [OF that(2)] Suc.IH s by auto
    then show ?thesis
      unfolding parse_items.simps(2) [of _ s] v by (auto simp del: parse_items.simps split: option.split list.split)
  qed
  have members: "parse_members (Suc (Suc n)) s = parse_members (Suc n) s" if s: "2 * length s < Suc n" for s
  proof -
    have v: "parse_value (Suc n) r2 = parse_value n r2" "parse_members (Suc n) r2 = parse_members n r2"
      if "length r2 < length s" for r2
      using that s Suc.IH by auto
    show ?thesis
    proof (cases "\<exists>q r0 k r1 c r2. skip_ws s = q # r0 \<and> parse_chars r0 = Some (k, r1) \<and> skip_ws r1 = c # r2")
      case True
      then obtain q r0 k r1 c r2 where t: "skip_ws s = q # r0" "parse_chars r0 = Some (k, r1)" "skip_ws r1 = c # r2" by blast
      have len: "length r2 < length s"
        using skip_ws_Cons_length [OF t(1)] parse_chars_length [OF t(2)] skip_ws_Cons_length [OF t(3)] by simp
      have rest: "parse_members (Suc n) r' = parse_members n r'"
        if "parse_value n r2 = Some (v, r)" "skip_ws r = d # r'" for v r d r'
        using parse_length(1) [OF that(1)] skip_ws_Cons_length [OF that(2)] len by (intro v(2)) simp
      show ?thesis
        unfolding parse_members.simps(2) [of _ s] t list.case option.case prod.case v(1) [OF len]
        by (auto simp: rest simp del: parse_members.simps split: option.split list.split)
    next
      case False
      then consider "skip_ws s = []" | q r0 where "skip_ws s = q # r0" "parse_chars r0 = None"
        | q r0 k r1 where "skip_ws s = q # r0" "parse_chars r0 = Some (k, r1)" "skip_ws r1 = []"
        by (metis list.exhaust not_Some_eq old.prod.exhaust)
      then show ?thesis by cases (simp_all only: parse_members.simps(2) list.case option.case prod.case)
    qed
  qed
  show ?case using val items members by blast
qed simp

lemma parse_value_fuel:
  assumes "2 * length s < n"
  shows "parse_value n s = parse_value (2 * length s + 1) s"
proof -
  have "parse_value (2 * length s + 1 + k) s = parse_value (2 * length s + 1) s" for k
  proof (induction k)
    case (Suc k)
    have "parse_value (Suc (2 * length s + 1 + k)) s = parse_value (2 * length s + 1 + k) s"
      using parse_step [of "2 * length s + 1 + k"] by simp
    then show ?case using Suc by simp
  qed simp
  from this [of "n - (2 * length s + 1)"] show ?thesis using assms by simp
qed

subsection \<open>Numbers read back\<close>

lemma digits_are: "set ds \<subseteq> set ''0123456789'' \<Longrightarrow> \<forall>c \<in> set ds. is_digit c"
  by (auto simp: is_digit_def code_def)

lemma foldl_digits: "foldl (\<lambda>n c. 10 * n + (code c - 48)) k ds = k * 10 ^ length ds + nat_of_digits ds"
proof (induction ds rule: rev_induct)
  case (snoc d ds)
  then show ?case by (simp add: nat_of_digits_def algebra_simps)
qed (simp add: nat_of_digits_def)

lemma nat_of_digits_append: "nat_of_digits (xs @ ys) = nat_of_digits xs * 10 ^ length ys + nat_of_digits ys"
  unfolding nat_of_digits_def foldl_append by (subst foldl_digits) (simp add: nat_of_digits_def)

lemma nat_of_digits_zeros [simp]: "nat_of_digits (replicate k (CHR ''0'')) = 0"
  by (induction k) (simp_all add: nat_of_digits_def code_def)

lemma nat_of_digit: "n < 10 \<Longrightarrow> nat_of_digits [digit n] = n"
proof -
  assume "n < 10"
  then have "n \<in> {0, 1, 2, 3, 4, 5, 6, 7, 8, 9}" by auto
  then show ?thesis by (auto simp: nat_of_digits_def digit_def code_def)
qed

lemma nat_of_nat_digits [simp]: "nat_of_digits (nat_digits n) = n"
proof (induction n rule: nat_digits.induct)
  case (1 n)
  show ?case
  proof (cases "n < 10")
    case True
    then show ?thesis using nat_of_digit [of n] by (subst nat_digits.simps) simp
  next
    case False
    then show ?thesis
      using 1 nat_of_digit [of "n mod 10"] by (subst nat_digits.simps) (simp add: nat_of_digits_append)
  qed
qed

lemma strip0_shift: "s mod 10 \<noteq> 0 \<Longrightarrow> strip0 (s * 10 ^ k) e = (s, e + int k)"
proof (induction k arbitrary: e)
  case 0
  then show ?case by (simp add: strip0_canonical)
next
  case (Suc k)
  have "s \<noteq> 0" using Suc.prems by (metis mod_0)
  then show ?case using Suc by (subst strip0.simps) simp
qed

lemma takeWhile_all: "\<forall>c \<in> set ds. P c \<Longrightarrow> r = [] \<or> \<not> P (hd r) \<Longrightarrow> takeWhile P (ds @ r) = ds \<and> dropWhile P (ds @ r) = r"
  by (cases r) (auto simp: takeWhile_append dropWhile_append)

lemma unsigned_parts:
  assumes "set ip \<subseteq> set ''0123456789''" and "set fp \<subseteq> set ''0123456789''" and "ip \<noteq> []" and "length ip = 1 \<or> hd ip \<noteq> CHR ''0''"
    and "x = [] \<or> \<not> is_digit (hd x) \<and> hd x \<noteq> CHR ''.''"
  shows "json_unsigned (ip @ (if fp = [] then x else CHR ''.'' # fp @ x))
     = map_option (\<lambda>e. (nat_of_digits (ip @ fp), e - int (length fp))) (parse_exponent x)"
proof -
  note ip = takeWhile_all [OF digits_are [OF assms(1)]]
  note fp = takeWhile_all [OF digits_are [OF assms(2)], of x]
  have dot: "\<not> is_digit (CHR ''.'')" by (simp add: is_digit_def code_def)
  show ?thesis
  proof (cases "fp = []")
    case True
    have x: "x = [] \<or> \<not> is_digit (hd x)" "\<not> (x \<noteq> [] \<and> hd x = CHR ''.'')" using assms(5) by auto
    have "ip = [] \<or> (1 < length ip \<and> hd ip = CHR ''0'') \<longleftrightarrow> False" using assms(3,4) by auto
    then have "json_unsigned (ip @ x) = map_option (\<lambda>e. (nat_of_digits ip, e)) (parse_exponent x)"
      unfolding json_unsigned_def conjunct1 [OF ip [OF x(1)]] conjunct2 [OF ip [OF x(1)]] Let_def using x(2) by auto
    then show ?thesis using True by simp
  next
    case False
    have x: "x = [] \<or> \<not> is_digit (hd x)" using assms(5) by auto
    have d: "CHR ''.'' # fp @ x = [] \<or> \<not> is_digit (hd (CHR ''.'' # fp @ x))" using dot by simp
    have "json_unsigned (ip @ CHR ''.'' # fp @ x) = map_option (\<lambda>e. (nat_of_digits (ip @ fp), e - int (length fp))) (parse_exponent x)"
      unfolding json_unsigned_def conjunct1 [OF ip [OF d]] conjunct2 [OF ip [OF d]] Let_def list.sel
        conjunct1 [OF fp [OF x]] conjunct2 [OF fp [OF x]]
      using False assms(3,4) by auto
    then show ?thesis using False by simp
  qed
qed

lemma exponent_parses: "parse_exponent (CHR ''e'' # exponent x) = Some x"
proof -
  have ds: "nat_digits k \<noteq> []" "list_all is_digit (nat_digits k)" for k
    using digits_are [OF nat_digits_set] by (simp_all add: list_all_iff)
  have "nat_digits k \<noteq> [] \<and> hd (nat_digits k) \<noteq> CHR ''-'' \<and> hd (nat_digits k) \<noteq> CHR ''+''" for k
    using ds [of k] by (cases "nat_digits k") (auto simp: is_digit_def code_def)
  then show ?thesis using ds by (auto simp: parse_exponent_def exponent_def Let_def)
qed

lemma layout_parses:
  assumes "good_digits ds"
  shows "\<exists>k. json_unsigned (layout ds n) = Some (nat_of_digits ds * 10 ^ k, n - int (length ds) - int k)"
proof -
  have ds: "ds \<noteq> []" "hd ds \<noteq> CHR ''0''" "set ds \<subseteq> set ''0123456789''"
    using assms by (simp_all add: good_digits_def)
  have part: "set (take j ds) \<subseteq> set ''0123456789''" "set (drop j ds) \<subseteq> set ''0123456789''" for j
    by (rule order.trans [OF set_take_subset ds(3)], rule order.trans [OF set_drop_subset ds(3)])
  have e0: "parse_exponent [] = Some 0" by (simp add: parse_exponent_def)
  have zeros: "set (replicate a (CHR ''0'')) \<subseteq> set ''0123456789''" for a by auto
  from assms show ?thesis
  proof (cases rule: layout_cases [where n = n])
    case (A a)
    have "json_unsigned (ds @ replicate a (CHR ''0'')) = Some (nat_of_digits (ds @ replicate a (CHR ''0'')), 0)"
      using unsigned_parts [of "ds @ replicate a (CHR ''0'')" "[]" "[]"] ds zeros e0 by simp
    then show ?thesis using A by (intro exI [of _ a]) (simp add: nat_of_digits_append)
  next
    case B
    have "hd (take (nat n) ds) \<noteq> CHR ''0''" using B ds by (simp add: hd_take)
    moreover have "drop (nat n) ds \<noteq> []" using B by simp
    ultimately have "json_unsigned (layout ds n) = Some (nat_of_digits ds, - int (length (drop (nat n) ds)))"
      using unsigned_parts [of "take (nat n) ds" "drop (nat n) ds" "[]"] part B ds e0 by simp
    then show ?thesis using B by (intro exI [of _ 0]) simp
  next
    case (C a)
    have "json_unsigned (layout ds n) = Some (nat_of_digits ([CHR ''0''] @ replicate a (CHR ''0'') @ ds), - int (a + length ds))"
      using unsigned_parts [of "[CHR ''0'']" "replicate a (CHR ''0'') @ ds" "[]"] C ds e0 zeros by simp
    moreover have "nat_of_digits ([CHR ''0''] @ replicate a (CHR ''0'') @ ds) = nat_of_digits ds"
      using nat_of_digits_append [of "replicate (Suc a) (CHR ''0'')" ds] nat_of_digits_zeros [of "Suc a"] by simp
    ultimately show ?thesis using C by (intro exI [of _ 0]) simp
  next
    case D
    let ?x = "CHR ''e'' # exponent (n - 1)"
    have x: "?x = [] \<or> \<not> is_digit (hd ?x) \<and> hd ?x \<noteq> CHR ''.''" by (simp add: is_digit_def code_def)
    show ?thesis
    proof (cases "length ds = 1")
      case True
      then show ?thesis
        using unsigned_parts [OF ds(3) _ ds(1) _ x, of "[]"] D exponent_parses [of "n - 1"]
        by (intro exI [of _ 0]) (simp add: mantissa_def)
    next
      case False
      then have "1 < length ds" using ds(1) by (cases ds) auto
      then have "json_unsigned (layout ds n) = Some (nat_of_digits ds, n - 1 - int (length (drop 1 ds)))"
        using unsigned_parts [OF part(1) [of 1] part(2) [of 1] _ _ x] D exponent_parses [of "n - 1"] ds
        by (simp add: mantissa_def hd_take)
      then show ?thesis using \<open>1 < length ds\<close> by (intro exI [of _ 0]) simp
    qed
  qed
qed

lemma canon_shift:
  assumes "nat \<bar>m\<bar> mod 10 \<noteq> 0" and "m \<noteq> 0"
  shows "canon_num (m * 10 ^ k) (e - int k) = Fin m e"
proof -
  have "nat \<bar>m * 10 ^ k\<bar> = nat \<bar>m\<bar> * 10 ^ k" by (simp add: abs_mult nat_mult_distrib nat_power_eq)
  then show ?thesis
    using assms strip0_shift [OF assms(1), of k "e - int k"] by (simp add: canon_num_def mult_less_0_iff)
qed

lemma number_reads_back:
  assumes "wf_num x"
  shows "json_number (num_str x) = Some x"
  using assms
proof (cases rule: wf_num_cases)
  case zero
  then show ?thesis by (simp add: json_number_def json_unsigned_def is_digit_def code_def parse_exponent_def nat_of_digits_def canon_num_def)
next
  case (nonzero m e)
  let ?s = "nat \<bar>m\<bar>"
  let ?ds = "nat_digits ?s"
  obtain k where "json_unsigned (pos_str ?s e) = Some (?s * 10 ^ k, e - int k)"
    using layout_parses [OF good_nat_digits [OF nonzero(3)], of "int (length ?ds) + e"] by (auto simp: pos_str_layout)
  moreover have "hd (pos_str ?s e) \<noteq> CHR ''-''" using pos_str_hd [OF nonzero(3), of e] by auto
  moreover have "pos_str ?s e \<noteq> []" using pos_str_hd [OF nonzero(3), of e] by blast
  moreover have "canon_num (m * 10 ^ k) (e - int k) = Fin m e" by (rule canon_shift [OF nonzero(3,2)])
  ultimately show ?thesis
    using nonzero(2) unfolding nonzero(1) num_str_canonical [OF nonzero(3,2), of e] json_number_def
    by (cases "m < 0") simp_all
qed

subsection \<open>Strings read back\<close>

lemma hex_value_digit: "n < 16 \<Longrightarrow> hex_value (hex_digit n) = Some n"
proof -
  assume "n < 16"
  then have "n \<in> set [0..<16]" by simp
  moreover have "list_all (\<lambda>k. hex_value (hex_digit k) = Some k) [0..<16]" by code_simp
  ultimately show ?thesis unfolding list_all_iff by blast
qed

lemma hex_value_0: "hex_value (CHR ''0'') = Some 0"
  by (simp add: hex_value_def radix_digit_def is_digit_def code_def)

lemma code_char: "char_of (code c) = c"
  by (simp add: code_def)

lemma esc_parses: "parse_chars (esc c @ t) = prepend c (parse_chars t)"
proof -
  have u: "CHR ''u'' \<noteq> dq" "CHR ''u'' \<noteq> bs" "CHR ''b'' \<noteq> dq" "CHR ''b'' \<noteq> bs" "CHR ''t'' \<noteq> dq" "CHR ''t'' \<noteq> bs"
    "CHR ''n'' \<noteq> dq" "CHR ''n'' \<noteq> bs" "CHR ''f'' \<noteq> dq" "CHR ''f'' \<noteq> bs" "CHR ''r'' \<noteq> dq" "CHR ''r'' \<noteq> bs"
    "dq \<noteq> CHR ''u''" "bs \<noteq> CHR ''u''" by (simp_all add: dq_def bs_def)
  have short: "char_of k = c" if "code c = k" for k using that code_char by blast
  consider "c = dq" | "c = bs" | "c \<noteq> dq" "c \<noteq> bs" "code c = 8" | "c \<noteq> dq" "c \<noteq> bs" "code c = 9" | "c \<noteq> dq" "c \<noteq> bs" "code c = 10"
    | "c \<noteq> dq" "c \<noteq> bs" "code c = 12" | "c \<noteq> dq" "c \<noteq> bs" "code c = 13"
    | (control) "c \<noteq> dq" "c \<noteq> bs" "code c < 32" "code c \<notin> {8, 9, 10, 12, 13}" | "c \<noteq> dq" "c \<noteq> bs" "\<not> code c < 32" by blast
  then show ?thesis
  proof cases
    case control
    have h: "hex_value (hex_digit (code c div 16)) = Some (code c div 16)" "hex_value (hex_digit (code c mod 16)) = Some (code c mod 16)"
      using control(3) by (auto intro!: hex_value_digit)
    have "unicode_escape (CHR ''0'') (CHR ''0'') (hex_digit (code c div 16)) (hex_digit (code c mod 16)) = Some c"
      using control(3) by (simp add: unicode_escape_def hex_value_0 h Let_def code_char)
    then show ?thesis using control by (simp add: esc_def)
  qed (use u short in \<open>simp_all add: esc_def unescape_def\<close>)
qed

lemma chars_read_back: "parse_chars (concat (map esc s) @ dq # r) = Some (s, r)"
  by (induction s) (simp_all add: esc_parses prepend_def del: parse_chars.simps(2), simp)

subsection \<open>Values read back\<close>

text \<open>Objects whose properties stand in the order in which the language enumerates them.\<close>

fun js_ordered :: "json \<Rightarrow> bool" where
  "js_ordered (JArr xs) = list_all js_ordered xs"
| "js_ordered (JObj kvs) = (enumeration kvs = kvs \<and> list_all (\<lambda>(k, v). js_ordered v) kvs)"
| "js_ordered _ = True"

lemma put_new: "k \<notin> set (map fst kvs) \<Longrightarrow> put_property k v kvs = kvs @ [(k, v)]"
  by (induction kvs) auto

lemma put_all: "distinct (map fst (acc @ kvs)) \<Longrightarrow> foldl (\<lambda>acc (k, v). put_property k v acc) acc kvs = acc @ kvs"
proof (induction kvs arbitrary: acc)
  case (Cons kv kvs)
  obtain k v where kv: "kv = (k, v)" by fastforce
  have "put_property k v acc = acc @ [(k, v)]" using Cons.prems kv by (intro put_new) auto
  then show ?case using Cons.IH [of "acc @ [(k, v)]"] Cons.prems kv by simp
qed simp

lemma own_properties_id: "distinct (map fst kvs) \<Longrightarrow> enumeration kvs = kvs \<Longrightarrow> own_properties kvs = kvs"
  using put_all [of "[]" kvs] by (simp add: own_properties_def)

lemma skip_none: "\<not> is_ws c \<Longrightarrow> skip_ws (c # r) = c # r"
  by (simp add: skip_ws_def)

lemma not_ws [simp]:
  "\<not> is_ws dq" "\<not> is_ws (CHR ''['')" "\<not> is_ws (CHR '']'')" "\<not> is_ws (CHR ''{'')" "\<not> is_ws (CHR ''}'')"
  "\<not> is_ws (CHR '','')" "\<not> is_ws (CHR '':'')" "\<not> is_ws (CHR ''n'')" "\<not> is_ws (CHR ''t'')" "\<not> is_ws (CHR ''f'')"
  by (simp_all add: is_ws_def code_def dq_def)

lemma stringify_start:
  assumes "wf_json v"
  obtains c t where "json_stringify v = c # t" "\<not> is_ws c" "c \<noteq> CHR '']''" "c \<noteq> CHR ''}''"
proof (cases v)
  case (JNum x)
  then have "num_str x \<noteq> []" "hd (num_str x) \<in> insert (CHR ''-'') (set ''0123456789'')" using assms num_str_hd [of x] by auto
  moreover have "\<not> is_ws c \<and> c \<noteq> CHR '']'' \<and> c \<noteq> CHR ''}''" if "c \<in> insert (CHR ''-'') (set ''0123456789'')" for c
    using that by (auto simp: is_ws_def code_def)
  ultimately show thesis using that JNum assms num_json_wf [of x] by (cases "num_str x") auto
next
  case (JBool b)
  then show thesis using that by (cases b) (auto simp: is_ws_def code_def)
qed (use that in \<open>auto simp: json_quote_def dq_def is_ws_def code_def split: if_splits\<close>)

text \<open>A number ends where the text goes on with a character that no number has.\<close>

definition stops :: "string \<Rightarrow> bool" where
  "stops r \<longleftrightarrow> r = [] \<or> \<not> number_char (hd r)"

lemma stops_Cons [simp]: "stops [] " "stops (c # r) \<longleftrightarrow> \<not> number_char c"
  by (simp_all add: stops_def)

lemma ends_number [simp]: "\<not> number_char (CHR '','')" "\<not> number_char (CHR '']'')" "\<not> number_char (CHR ''}'')"
  by (simp_all add: number_char_def)

lemma number_parses:
  assumes "wf_num x" and "stops r"
  shows "parse_value (Suc n) (num_str x @ r) = Some (JNum x, r)"
proof -
  have hd: "num_str x \<noteq> []" "hd (num_str x) \<in> insert (CHR ''-'') (set ''0123456789'')" "set (num_str x) \<subseteq> num_chars"
    using num_str_hd [OF assms(1)] by auto
  then obtain c t where ct: "num_str x = c # t" "c \<in> insert (CHR ''-'') (set ''0123456789'')" by (cases "num_str x") auto
  have c: "\<not> is_ws c" "c \<noteq> dq" "c \<noteq> CHR ''[''" "c \<noteq> CHR ''{''" "c \<noteq> CHR ''n''" "c \<noteq> CHR ''t''" "c \<noteq> CHR ''f''"
    using ct(2) by (auto simp: is_ws_def code_def dq_def)
  have "num_chars \<subseteq> set ''0123456789+-.eE''" by (simp add: num_chars_def)
  then have "number_char d" if "d \<in> num_chars" for d using that by (auto simp only: number_char_def)
  then have "\<forall>d \<in> set (num_str x). number_char d" using hd(3) by blast
  moreover have "r = [] \<or> \<not> number_char (hd r)" using assms(2) by (simp add: stops_def)
  ultimately have tw: "takeWhile number_char (num_str x @ r) = num_str x" "dropWhile number_char (num_str x @ r) = r"
    using takeWhile_all by blast+
  show ?thesis
    using tw number_reads_back [OF assms(1)] c unfolding ct(1) append_Cons parse_value.simps(2) skip_none [OF c(1)] list.case
    by simp
qed

lemma items_parse:
  assumes "\<And>x n r. x \<in> set xs \<Longrightarrow> length (f x) \<le> n \<Longrightarrow> stops r \<Longrightarrow> parse_value n (f x @ r) = Some (x, r)"
    and "xs \<noteq> []" and "length (js_join '','' (map f xs)) < n"
  shows "parse_items n (js_join '','' (map f xs) @ CHR '']'' # r) = Some (xs, r)"
  using assms
proof (induction xs arbitrary: n)
  case (Cons x xs)
  obtain m where n: "n = Suc m" using Cons.prems(3) by (cases n) auto
  show ?case
  proof (cases xs)
    case Nil
    have "parse_value m (f x @ CHR '']'' # r) = Some (x, CHR '']'' # r)"
      using Cons.prems(3) Nil n by (intro Cons.prems(1)) simp_all
    then show ?thesis using Nil n by (simp add: skip_none)
  next
    case (Cons y ys)
    have j: "js_join '','' (map f (x # xs)) = f x @ CHR '','' # js_join '','' (map f xs)" using Cons by simp
    let ?r = "CHR '','' # js_join '','' (map f xs) @ CHR '']'' # r"
    have "parse_value m (f x @ ?r) = Some (x, ?r)"
      using Cons.prems(3) n j by (intro Cons.prems(1)) simp_all
    moreover have "parse_items m (js_join '','' (map f xs) @ CHR '']'' # r) = Some (xs, r)"
      using Cons.prems n j Cons by (intro Cons.IH) auto
    ultimately show ?thesis unfolding j n by (simp add: skip_none prepend_def)
  qed
qed simp

lemma members_parse:
  assumes "\<And>k v n r. (k, v) \<in> set kvs \<Longrightarrow> length (g v) \<le> n \<Longrightarrow> stops r \<Longrightarrow> parse_value n (g v @ r) = Some (v, r)"
    and "kvs \<noteq> []" and "length (js_join '','' (map (\<lambda>(k, v). json_quote k @ '':'' @ g v) kvs)) < n"
  shows "parse_members n (js_join '','' (map (\<lambda>(k, v). json_quote k @ '':'' @ g v) kvs) @ CHR ''}'' # r) = Some (kvs, r)"
  using assms
proof (induction kvs arbitrary: n)
  case (Cons kv kvs)
  obtain k v where kv: "kv = (k, v)" by fastforce
  obtain m where n: "n = Suc m" using Cons.prems(3) by (cases n) auto
  have key: "json_quote k @ t = dq # (concat (map esc k) @ dq # t)" for t by (simp add: json_quote_def)
  let ?j = "\<lambda>kvs. js_join '','' (map (\<lambda>(k, v). json_quote k @ '':'' @ g v) kvs)"
  show ?case
  proof (cases kvs)
    case Nil
    have "parse_value m (g v @ CHR ''}'' # r) = Some (v, CHR ''}'' # r)"
      using Cons.prems(3) Nil n kv by (intro Cons.prems(1) [of k]) simp_all
    then show ?thesis using Nil n kv by (simp add: key skip_none chars_read_back del: parse_chars.simps)
  next
    case (Cons kv' kvs')
    have j: "?j (kv # kvs) = json_quote k @ CHR '':'' # g v @ CHR '','' # ?j kvs" using Cons kv by simp
    let ?r = "CHR '','' # ?j kvs @ CHR ''}'' # r"
    have "parse_value m (g v @ ?r) = Some (v, ?r)"
      using Cons.prems(3) n j kv by (intro Cons.prems(1) [of k]) simp_all
    moreover have "parse_members m (?j kvs @ CHR ''}'' # r) = Some (kvs, r)"
      using Cons.prems n j Cons by (intro Cons.IH) auto
    moreover have "?j (kv # kvs) @ CHR ''}'' # r = dq # concat (map esc k) @ dq # CHR '':'' # g v @ ?r"
      unfolding j by (simp add: json_quote_def)
    ultimately show ?thesis
      unfolding n kv by (simp only: parse_members.simps(2)) (simp add: skip_none chars_read_back prepend_def del: parse_chars.simps parse_members.simps)
  qed
qed simp

lemma stringify_parses:
  assumes "wf_json v" and "js_ordered v" and "length (json_stringify v) \<le> n" and "stops r"
  shows "parse_value n (json_stringify v @ r) = Some (v, r)"
  using assms
proof (induction v arbitrary: n r rule: wf_json.induct)
  case (2 xs)
  let ?j = "js_join '','' (map json_stringify xs)"
  obtain m where n: "n = Suc m" "length ?j < m" using 2(4) by (cases n) auto
  show ?case
  proof (cases xs)
    case Nil
    then show ?thesis using n by (simp add: skip_none dq_def)
  next
    case (Cons x ys)
    then have "wf_json x" using 2(2) by simp
    then obtain c t where x: "json_stringify x = c # t" "\<not> is_ws c" "c \<noteq> CHR '']''" by (rule stringify_start)
    then have start: "\<exists>u. ?j @ CHR '']'' # r = c # u" using Cons by (cases ys) auto
    have "parse_items m (?j @ CHR '']'' # r) = Some (xs, r)"
      using 2(1,2,3) n(2) Cons by (intro items_parse) (auto simp: list_all_iff)
    then show ?thesis using n(1) x start by (auto simp: skip_none dq_def)
  qed
next
  case (3 kvs)
  let ?j = "js_join '','' (map (\<lambda>(k, v). json_quote k @ '':'' @ json_stringify v) kvs)"
  obtain m where n: "n = Suc m" "length ?j < m" using 3(4) by (cases n) auto
  show ?case
  proof (cases kvs)
    case Nil
    then show ?thesis using n by (simp add: skip_none dq_def)
  next
    case (Cons kv ys)
    then have start: "\<exists>u. ?j @ CHR ''}'' # r = dq # u" by (cases ys) (auto simp: json_quote_def split: prod.splits)
    have "parse_members m (?j @ CHR ''}'' # r) = Some (kvs, r)"
      using 3(1,2,3) n(2) Cons by (intro members_parse) (fastforce simp: list_all_iff)+
    moreover have "own_properties kvs = kvs" using 3(2,3) by (intro own_properties_id) auto
    moreover have "dq \<noteq> CHR ''}''" "CHR ''{'' \<noteq> dq" by (simp_all add: dq_def)
    ultimately show ?thesis using n(1) start by (auto simp: skip_none)
  qed
next
  case (1 x)
  then obtain m where "n = Suc m" using num_str_hd [of x] num_json_wf [of x] by (cases n) auto
  then show ?case using 1 number_parses [of x r m] num_json_wf [of x] by (simp del: parse_value.simps)
next
  case "4_1"
  then show ?case by (cases n) (auto simp: skip_none literal_def starts_with_def dq_def)
next
  case "4_2"
  then show ?case by (cases n) (auto split: bool.split if_split_asm simp: skip_none literal_def starts_with_def dq_def)
next
  case "4_3"
  then show ?case by (cases n) (auto simp: json_quote_def skip_none chars_read_back simp del: parse_chars.simps)
qed

lemma skip_all: "\<forall>c \<in> set ws. is_ws c \<Longrightarrow> skip_ws (ws @ s) = skip_ws s"
  by (induction ws) (simp_all add: skip_ws_def)

lemma parse_skips: "\<forall>c \<in> set ws. is_ws c \<Longrightarrow> parse_value n (ws @ s) = parse_value n s"
  by (cases n) (simp_all add: skip_all)

lemma JSON_parse_stringify:
  assumes "wf_json v" and "js_ordered v" and "\<forall>c \<in> set a. is_ws c" and "\<forall>c \<in> set b. is_ws c"
  shows "JSON_parse (a @ json_stringify v @ b) = Some v"
proof -
  have "\<not> number_char c" if "is_ws c" for c using that by (auto simp: is_ws_def number_char_def code_def)
  then have "stops b" using assms(4) by (cases b) auto
  moreover have "skip_ws b = []" using assms(4) by (simp add: skip_ws_def)
  ultimately show ?thesis
    using stringify_parses [OF assms(1,2), of "2 * length (a @ json_stringify v @ b) + 1" b]
    by (simp add: JSON_parse_def parse_skips [OF assms(3)])
qed

end
