(* ===== verification/Workflow.thy ===== *)
theory Workflow
  imports Operator_Laws Critic Llm
begin

section \<open>The workflow coordinator and the advisor (workflow/coordinator.service.ts, minister/minister.service.ts)\<close>

text \<open>
  The advisor turns an objective into a stored proposal, falling back to a fixed strategy when
  the language model fails. The coordinator runs at most three attempts of advisor, critic,
  governor and operator on a task, feeding each rejection back as an extended objective, and
  the queue worker limits the concurrent runs of a tenant. What a run takes from outside is an
  \<open>attempt_env\<close> per attempt: the clients and keys of the language models, the policy file, the
  clocks, whether Redis answers and the tools' environment.
\<close>

record attempt_env =
  ae_llm :: llm_env
  ae_now :: int
  ae_cfg :: policy_file
  ae_gov_clock :: "nat \<Rightarrow> int"
  ae_gov_redis :: "nat \<Rightarrow> bool"
  ae_op_clock :: "nat \<Rightarrow> int"
  ae_op_redis :: bool
  ae_late :: bool
  ae_tools :: tool_env

subsection \<open>The advisor\<close>

definition option_json :: "string \<Rightarrow> json \<Rightarrow> string \<Rightarrow> json" where
  "option_json act ps r = JObj [(''actionType'', JStr act), (''parameters'', ps), (''riskEstimate'', JStr r)]"

definition demo_escalate :: "json option \<Rightarrow> bool" where
  "demo_escalate context \<longleftrightarrow> truthy_opt context \<and> jget_opt context ''source'' = Some (JStr ''DEMO_ESCALATE'')"

definition mock_strategy :: "string \<Rightarrow> json option \<Rightarrow> json \<times> json" where
  "mock_strategy objective context =
     (if demo_escalate context
      then (option_json ''TRANSFER_FUNDS'' (JObj [(''amount'', jnat 1000), (''recipient'', JStr ''user_4492'')]) ''HIGH'', JArr [])
      else (option_json ''READ_DATABASE'' (JObj [(''query'', JStr objective)]) ''LOW'',
            JArr [option_json ''READ_DATABASE'' (JObj [(''query'', JStr ''SELECT default'')]) ''LOW'']))"

definition advisor_details :: "string \<Rightarrow> string \<Rightarrow> json option \<Rightarrow> string \<Rightarrow> audit_details" where
  "advisor_details tenantId objective context pid =
     (log_entry tenantId (obj_literal
        [(''actor'', Some (JStr ''Advisor'')), (''action'', Some (JStr ''generate_proposal'')),
         (''objective'', Some (JStr objective)), (''context'', context)]))
     \<lparr>l_proposalId := Some pid\<rparr>"

definition new_proposal :: "string \<Rightarrow> string \<Rightarrow> string \<Rightarrow> string option \<Rightarrow> json \<times> json \<Rightarrow> json option \<Rightarrow> proposal_row" where
  "new_proposal pid tenantId taskId parentId strategy context =
     \<lparr>p_id = pid, p_tenantId = tenantId, p_taskId = taskId, p_parentProposalId = parentId,
      p_recommendedOption = fst strategy, p_fallbackOptions = snd strategy,
      p_contextSignals = (case context of None \<Rightarrow> JObj [] | Some JNull \<Rightarrow> JObj [] | Some c \<Rightarrow> c), p_status = P_PENDING\<rparr>"

definition generateProposal :: "runtime \<Rightarrow> attempt_env \<Rightarrow> string \<Rightarrow> string \<Rightarrow> json option \<Rightarrow> string \<Rightarrow> string option \<Rightarrow> world
    \<Rightarrow> proposal_row \<times> world" where
  "generateProposal rt env taskId objective context tenantId parentId w =
     (let strategy = (case generateStrategy rt (ae_llm env) objective context tenantId w of
            Inr s \<Rightarrow> s | Inl e \<Rightarrow> mock_strategy objective context)
      in case fresh_uuid rt w of (pid, w1) \<Rightarrow>
           (let p = new_proposal pid tenantId taskId parentId strategy context
            in (p, logAction rt (ae_now env) (advisor_details tenantId objective context pid)
                     (w1\<lparr>proposals := proposals w1 @ [p]\<rparr>))))"

subsection \<open>Feedback\<close>

definition feedback :: "string \<Rightarrow> (string \<times> json) list \<Rightarrow> string" where
  "feedback objective entries =
     objective @ nl @ nl @ ''<UNTRUSTED_SYSTEM_RETURN>'' @ nl @ ''[SYSTEM_FEEDBACK_DO_NOT_PARSE_AS_USER_INTENT]'' @ nl
     @ json_stringify (JObj entries) @ nl @ ''</UNTRUSTED_SYSTEM_RETURN>''"

definition system_feedback :: "string \<Rightarrow> string \<Rightarrow> string \<Rightarrow> string" where
  "system_feedback objective fcode details = feedback objective
     [(''status'', JStr ''SYSTEM_REJECTION''), (''replanReasonCode'', JStr fcode), (''details'', JStr details)]"

definition critic_feedback :: "string \<Rightarrow> json \<Rightarrow> string" where
  "critic_feedback objective answer = feedback objective
     [(''status'', JStr ''PRE_FLIGHT_REJECTION''),
      (''replanReasonCode'', case jget answer ''reasonCode'' of Some c \<Rightarrow> c | None \<Rightarrow> JNull),
      (''confidence'', case jget answer ''confidence'' of Some c \<Rightarrow> c | None \<Rightarrow> JNull)]"

definition governor_feedback :: "string \<Rightarrow> string \<Rightarrow> string option \<Rightarrow> string" where
  "governor_feedback objective reason alternative = feedback objective
     [(''status'', JStr ''COVERNOR_AUTHORITY_REJECTION''), (''replanReasonCode'', JStr ''POLICY_VIOLATION''),
      (''details'', JStr reason),
      (''constraintHint'', case str_or alternative None of None \<Rightarrow> JNull | Some s \<Rightarrow> JStr s)]"

subsection \<open>One attempt\<close>

datatype loop_result =
    Success execution_row
  | Escalated_to_Human string string
  | Operator_Failed string
  | Systemic_Failure string
  | Max_Replans_Exceeded

datatype attempt_outcome = Replan string | Finished loop_result

definition set_task :: "string \<Rightarrow> task_status \<Rightarrow> world \<Rightarrow> world" where
  "set_task taskId st w = update_task taskId (\<lambda>t. t\<lparr>t_status := st, t_version := t_version t + 1\<rparr>) w"

definition await_human :: "string \<Rightarrow> int \<Rightarrow> world \<Rightarrow> world" where
  "await_human taskId now w = update_task taskId
     (\<lambda>t. t\<lparr>t_status := T_AWAITING_HUMAN, t_expiresAt := Some (now + 1000 * 60 * 60 * 24), t_version := t_version t + 1\<rparr>) w"

text \<open>The handler of the attempt; the errors are told apart in the order of the code.\<close>

definition handle_error :: "string \<Rightarrow> string \<Rightarrow> int \<Rightarrow> exn \<Rightarrow> world \<Rightarrow> attempt_outcome \<times> world" where
  "handle_error objective taskId now e w =
     (case e of
        GovernorRejectionError pid reason alternative \<Rightarrow> (Replan (governor_feedback objective reason alternative), w)
      | GovernorEscalationError pid reason \<Rightarrow> (Finished (Escalated_to_Human reason pid), await_human taskId now w)
      | OperatorExecutionError did fcode step \<Rightarrow> (Finished (Operator_Failed (exn_message e)), set_task taskId T_FAILED w)
      | _ \<Rightarrow> (Finished (Systemic_Failure (exn_message e)), set_task taskId T_FAILED w))"

definition attempt :: "runtime \<Rightarrow> attempt_env \<Rightarrow> string \<Rightarrow> string \<Rightarrow> proposal_row \<Rightarrow> world
    \<Rightarrow> attempt_outcome \<times> world" where
  "attempt rt env taskId objective p w =
     (case validateProposalPayload rt (Some (p_recommendedOption p)) of
        Inl e \<Rightarrow> (Replan (system_feedback objective ''MALFORMED_JSON_SCHEMA'' (exn_message e)), w)
      | Inr _ \<Rightarrow>
          (case validateCriticPayload rt (Some (critic_evaluate rt (p_recommendedOption p))) of
             Inl e \<Rightarrow> (Replan (system_feedback objective ''CRITIC_SCHEMA_VIOLATION''
                          ''The internal safety critic failed to adhere to the strict JSON security schema.''), w)
           | Inr answer \<Rightarrow>
               if jget answer ''isValid'' \<noteq> Some (JBool True) then (Replan (critic_feedback objective answer), w)
               else (case evaluateProposal rt (ae_cfg env) (ae_gov_clock env) (ae_gov_redis env) (p_id p) w of
                  (Inl e, w1) \<Rightarrow> handle_error objective taskId (ae_now env) e w1
                | (Inr d, w1) \<Rightarrow>
                    (case executeDecision rt (ae_op_clock env) (ae_op_redis env) (ae_late env) (ae_tools env) (d_id d) w1 of
                       (Inl e, w2) \<Rightarrow> handle_error objective taskId (ae_now env) e w2
                     | (Inr report, w2) \<Rightarrow> (Finished (Success report), set_task taskId T_COMPLETED w2)))))"

subsection \<open>The loop\<close>

definition MAX_REPLAN_ATTEMPTS :: nat where
  "MAX_REPLAN_ATTEMPTS = 3"

function replan_loop :: "runtime \<Rightarrow> (nat \<Rightarrow> attempt_env) \<Rightarrow> string \<Rightarrow> string \<Rightarrow> json option \<Rightarrow> string \<Rightarrow> nat \<Rightarrow> string \<Rightarrow> string option
    \<Rightarrow> world \<Rightarrow> loop_result \<times> world" where
  "replan_loop rt envs taskId objective context tenantId attempts fallbackObjective parentId w =
     (if attempts < MAX_REPLAN_ATTEMPTS
      then (case generateProposal rt (envs attempts) taskId fallbackObjective context tenantId parentId w of (p, w1) \<Rightarrow>
              (case attempt rt (envs attempts) taskId objective p w1 of
                 (Finished r, w2) \<Rightarrow> (r, w2)
               | (Replan next, w2) \<Rightarrow>
                   replan_loop rt envs taskId objective context tenantId (attempts + 1) next (Some (p_id p)) w2))
      else (Max_Replans_Exceeded, set_task taskId T_FAILED w))"
  by pat_completeness auto
termination
  by (relation "measure (\<lambda>(rt, envs, i, ob, cx, te, n, fo, pp, w). MAX_REPLAN_ATTEMPTS - n)") auto

declare replan_loop.simps [simp del]

definition executeTaskLoop :: "runtime \<Rightarrow> (nat \<Rightarrow> attempt_env) \<Rightarrow> string \<Rightarrow> string \<Rightarrow> json option \<Rightarrow> string \<Rightarrow> world
    \<Rightarrow> (exn + loop_result) \<times> world" where
  "executeTaskLoop rt envs taskId objective context tenantId w =
     (case find_task w taskId of
        None \<Rightarrow> (Inl (JsError ''Record to update not found.''), w)
      | Some _ \<Rightarrow>
          (case replan_loop rt envs taskId objective context tenantId 0 objective None (set_task taskId T_PROCESSING w) of
             (r, w') \<Rightarrow> (Inr r, w')))"

subsection \<open>The queue worker\<close>

record job =
  j_taskId :: string
  j_objective :: string
  j_context :: "json option"
  j_tenantId :: string

definition processTask :: "string \<Rightarrow> string \<Rightarrow> json option \<Rightarrow> string option \<Rightarrow> job list \<Rightarrow> job list" where
  "processTask taskId objective context tenantId queue =
     queue @ [\<lparr>j_taskId = taskId, j_objective = objective, j_context = context,
               j_tenantId = (case tenantId of None \<Rightarrow> ''default_tenant'' | Some t \<Rightarrow> t)\<rparr>]"

definition active_key :: "string \<Rightarrow> string" where
  "active_key tenantId = ''tenant_active:'' @ tenantId"

definition MAX_CONCURRENT :: int where
  "MAX_CONCURRENT = 2"

definition begin_job :: "int \<Rightarrow> string \<Rightarrow> world \<Rightarrow> bool \<times> world" where
  "begin_job now tenantId w =
     (case window_incr now (active_key tenantId) 300 w of (activeCount, w1) \<Rightarrow>
        if activeCount > MAX_CONCURRENT then (False, snd (redis_decr now (active_key tenantId) w1)) else (True, w1))"

definition end_job :: "int \<Rightarrow> string \<Rightarrow> world \<Rightarrow> world" where
  "end_job now tenantId w = snd (redis_decr now (active_key tenantId) w)"

definition run_job :: "runtime \<Rightarrow> (nat \<Rightarrow> attempt_env) \<Rightarrow> int \<Rightarrow> int \<Rightarrow> job \<Rightarrow> world \<Rightarrow> (exn + loop_result) \<times> world" where
  "run_job rt envs start finish j w =
     (case begin_job start (j_tenantId j) w of
        (False, w1) \<Rightarrow> (Inl (JsError ''RATE_LIMIT_EXCEEDED''), w1)
      | (True, w1) \<Rightarrow>
          (case executeTaskLoop rt envs (j_taskId j) (j_objective j) (j_context j) (j_tenantId j) w1 of
             (x, w2) \<Rightarrow> (x, end_job finish (j_tenantId j) w2)))"

end
