(* ===== verification/Workflow_Laws.thy ===== *)
theory Workflow_Laws
  imports Workflow
begin

section \<open>Laws of the workflow: every run settles, every call passed every gate\<close>

text \<open>
  What the governor and the operator leave alone of the tables the loop looks at, the outcome
  of the replan loop, and the quota of the queue worker as a step relation over the counter of
  a tenant.
\<close>

subsection \<open>What the steps of an attempt keep\<close>

definition steady :: "world \<Rightarrow> world \<Rightarrow> bool" where
  "steady w w' \<longleftrightarrow> map t_id (tasks w') = map t_id (tasks w) \<and> length (proposals w') = length (proposals w)"

lemma steady_refl [simp]: "steady w w"
  by (simp add: steady_def)

lemma steady_trans: "steady a b \<Longrightarrow> steady b c \<Longrightarrow> steady a c"
  by (simp add: steady_def)

lemma steady_update_task: "(\<And>t. t_id (f t) = t_id t) \<Longrightarrow> steady w (update_task i f w)"
  by (simp add: steady_def update_task_def map_update_where)

lemma steady_set_task [simp]: "steady w (set_task i st w)" "steady w (await_human i now w)"
  by (simp_all add: set_task_def await_human_def steady_update_task)

lemma set_task_frame [simp]:
  "calls (set_task i st w) = calls w" "proposals (set_task i st w) = proposals w"
  "calls (await_human i now w) = calls w" "proposals (await_human i now w) = proposals w"
  by (simp_all add: set_task_def await_human_def)

lemma evaluate_steady:
  assumes "evaluateProposal rt cfg clk up pid w = (x, w')"
  shows "steady w w' \<and> calls w' = calls w"
proof (cases "find_proposal w pid")
  case None
  then show ?thesis using assms by (simp add: evaluateProposal_def)
next
  case (Some p)
  from assms Some show ?thesis
  proof (cases rule: evaluateProposal_cases)
    case (engine act cap e)
    then show ?thesis using evaluateOptions_frame [OF engine(2)] by (simp add: steady_def)
  next
    case (decided act cap results vh w1 s w2 d)
    then show ?thesis
      using evaluateOptions_frame [OF decided(2)] decide_frame [OF decided(3)] record_decision_effect(4,6,7) [OF decided(4)]
      by (simp add: steady_def)
  qed simp
qed

lemma steady_fail_task [simp]: "steady w (fail_task did w)"
  by (simp add: fail_task_def steady_update_task split: option.split)

lemma execute_steady:
  assumes "executeDecision rt clk up late env did w = (x, w')"
  shows "steady w w' \<and> (calls w' = calls w \<or> (\<exists>c. calls w' = calls w @ [c] \<and> tc_decisionId c = did))"
proof -
  obtain w1 where w1: "execute_body rt clk up late env did w = (x, w1)" "w' = w1 \<or> w' = fail_task did w1"
    using body_calls_Inl [OF assms] .
  from w1(1) have "steady w w1 \<and> (calls w1 = calls w \<or> (\<exists>c. calls w1 = calls w @ [c] \<and> tc_decisionId c = did))"
  proof (cases rule: execute_body_cases)
    case (replay d p k act e)
    then show ?thesis using consumeToken_frame [OF replay(4)] by (simp add: steady_def)
  next
    case (run d p k act t w2)
    then show ?thesis
      using consumeToken_frame [OF run(5)] locked_execution_quiet [OF run(7)] find_decision_id [OF run(1)]
      by (auto simp: steady_def quiet_def call_of_def)
  qed simp
  then show ?thesis using w1(2) steady_trans by (metis steady_fail_task fail_task_frame(6))
qed

text \<open>The operator throws none of the governor's errors.\<close>

fun governor_error :: "exn \<Rightarrow> bool" where
  "governor_error (GovernorRejectionError pid r a) = True"
| "governor_error (GovernorEscalationError pid r) = True"
| "governor_error _ = False"

lemma locked_error:
  "locked_execution rt clk up late env d p t w = (Inl e, w') \<Longrightarrow> \<not> governor_error e"
  by (auto simp: locked_execution_def reserve_execution_def finalize_def Let_def fresh_uuid_def
      split: option.splits if_splits prod.splits sum.splits bool.splits)

lemma execute_error:
  assumes "executeDecision rt clk up late env did w = (Inl e, w')"
  shows "\<not> governor_error e"
proof -
  obtain w1 where "execute_body rt clk up late env did w = (Inl e, w1)" using body_calls_Inl [OF assms] by blast
  then show ?thesis
    using locked_error
    by (auto simp: execute_body_def check_token_def violation_def Let_def split: option.splits if_splits prod.splits sum.splits bool.splits)
qed

subsection \<open>One attempt\<close>

lemma generate_effect:
  assumes "generateProposal rt env taskId ob cx te pp w = (p, w')"
  shows "map t_id (tasks w') = map t_id (tasks w)" "calls w' = calls w" "length (proposals w') = Suc (length (proposals w))"
    "proposals w' \<noteq> [] \<and> last (proposals w') = p"
  using assms by (auto simp: generateProposal_def fresh_uuid_def Let_def)

text \<open>The status a result leaves the task in.\<close>

fun settled_status :: "loop_result \<Rightarrow> task_status" where
  "settled_status (Success r) = T_COMPLETED"
| "settled_status (Escalated_to_Human reason pid) = T_AWAITING_HUMAN"
| "settled_status _ = T_FAILED"

definition task_in :: "string \<Rightarrow> world \<Rightarrow> task_status \<Rightarrow> bool" where
  "task_in i w st \<longleftrightarrow> (\<exists>t. find_task w i = Some t \<and> t_status t = st)"

lemma task_in_set:
  "find_task w i \<noteq> None \<Longrightarrow> task_in i (set_task i st w) st"
  "find_task w i \<noteq> None \<Longrightarrow> task_in i (await_human i now w) T_AWAITING_HUMAN"
  by (auto simp: task_in_def set_task_def await_human_def find_task_update)

lemma find_task_ids: "find_task w i \<noteq> None \<longleftrightarrow> i \<in> set (map t_id (tasks w))"
  using find_first_None [of "\<lambda>t. t_id t = i" "tasks w"] by (auto simp: find_task_def)

lemma handle_error_cases:
  assumes "handle_error ob i now e w = (out, w')"
  shows "steady w w' \<and> calls w' = calls w
     \<and> (case out of Finished r \<Rightarrow> find_task w i \<noteq> None \<longrightarrow> task_in i w' (settled_status r) | Replan again \<Rightarrow> governor_error e)"
  using assms by (auto simp: handle_error_def task_in_set split: exn.splits)

text \<open>An attempt stops at a gate without a call, or passes them all and executes one decision.\<close>

lemma attempt_cases:
  assumes "attempt rt env i ob p w = (out, w')"
  obtains (stopped) "steady w w'" "calls w' = calls w"
      "case out of Finished r \<Rightarrow> find_task w i \<noteq> None \<longrightarrow> task_in i w' (settled_status r) | Replan again \<Rightarrow> True"
  | (executed) d w1 r y w2 where "BaseProposalSchema (Some (p_recommendedOption p))"
      "jget (critic_evaluate rt (p_recommendedOption p)) ''isValid'' = Some (JBool True)"
      "evaluateProposal rt (ae_cfg env) (ae_gov_clock env) (ae_gov_redis env) (p_id p) w = (Inr d, w1)"
      "executeDecision rt (ae_op_clock env) (ae_op_redis env) (ae_late env) (ae_tools env) (d_id d) w1 = (y, w2)"
      "steady w w'" "calls w1 = calls w" "calls w' = calls w2"
      "calls w2 = calls w1 \<or> (\<exists>c. calls w2 = calls w1 @ [c] \<and> tc_decisionId c = d_id d)"
      "out = Finished r" "find_task w i \<noteq> None \<longrightarrow> task_in i w' (settled_status r)"
proof -
  let ?rec = "p_recommendedOption p"
  have pick: "jget (pick [''isValid'', ''reasonCode'', ''confidence''] (Some v)) ''isValid'' = jget v ''isValid''" for v
    by (auto simp: pick_def obj_literal_def jget_opt_def split: option.split)
  show thesis
  proof (cases "BaseProposalSchema (Some ?rec) \<and> jget (critic_evaluate rt ?rec) ''isValid'' = Some (JBool True)")
    case False
    have "w' = w" "\<exists>again. out = Replan again"
      using assms False pick
      by (auto simp: attempt_def validateProposalPayload_def validateCriticPayload_def split: if_splits)
    then show thesis by (intro stopped) auto
  next
    case True
    have schema: "CriticOutputSchema (Some (critic_evaluate rt ?rec))" by (rule critic_schema_ok)
    obtain x w1 where x: "evaluateProposal rt (ae_cfg env) (ae_gov_clock env) (ae_gov_redis env) (p_id p) w = (x, w1)" by fastforce
    note ev = evaluate_steady [OF x]
    show thesis
    proof (cases x)
      case (Inl e)
      then have "handle_error ob i (ae_now env) e w1 = (out, w')"
        using assms True schema x pick by (simp add: attempt_def validateProposalPayload_def validateCriticPayload_def)
      note h = handle_error_cases [OF this]
      have "find_task w i \<noteq> None \<longleftrightarrow> find_task w1 i \<noteq> None" unfolding find_task_ids using ev by (simp add: steady_def)
      then show thesis using h ev steady_trans by (intro stopped) (auto split: attempt_outcome.splits)
    next
      case (Inr d)
      obtain y w2 where y: "executeDecision rt (ae_op_clock env) (ae_op_redis env) (ae_late env) (ae_tools env) (d_id d) w1 = (y, w2)"
        by fastforce
      note ex = execute_steady [OF y]
      have st: "steady w w2" using ev ex steady_trans by blast
      have exists: "find_task w i \<noteq> None \<longleftrightarrow> find_task w2 i \<noteq> None" unfolding find_task_ids using st by (simp add: steady_def)
      have step: "attempt rt env i ob p w = (case y of Inl e \<Rightarrow> handle_error ob i (ae_now env) e w2
          | Inr report \<Rightarrow> (Finished (Success report), set_task i T_COMPLETED w2))"
        using True schema x Inr y pick
        by (simp add: attempt_def validateProposalPayload_def validateCriticPayload_def split: sum.split)
      have "steady w w' \<and> calls w' = calls w2 \<and> (\<exists>r. out = Finished r \<and> (find_task w i \<noteq> None \<longrightarrow> task_in i w' (settled_status r)))"
      proof (cases y)
        case (Inl e)
        then have "handle_error ob i (ae_now env) e w2 = (out, w')" using step assms by simp
        from handle_error_cases [OF this] execute_error [OF y [unfolded Inl]] st steady_trans exists
        show ?thesis by (auto split: attempt_outcome.splits)
      next
        case (Inr report)
        then have "out = Finished (Success report)" "w' = set_task i T_COMPLETED w2" using step assms by simp_all
        moreover have "steady w (set_task i T_COMPLETED w2)" using st steady_set_task(1) steady_trans by blast
        ultimately show ?thesis using exists task_in_set(1) by simp
      qed
      then show thesis using executed [OF True [THEN conjunct1] True [THEN conjunct2] x [unfolded Inr] y] ex ev by auto
    qed
  qed
qed

subsection \<open>The whole run\<close>

definition gated_call :: "runtime \<Rightarrow> (nat \<Rightarrow> attempt_env) \<Rightarrow> tool_call \<Rightarrow> bool" where
  "gated_call rt envs c \<longleftrightarrow> (\<exists>n (p :: proposal_row) d (w1 :: world) w2 y w3. n < MAX_REPLAN_ATTEMPTS
     \<and> proposals w1 \<noteq> [] \<and> last (proposals w1) = p
     \<and> BaseProposalSchema (Some (p_recommendedOption p))
     \<and> jget (critic_evaluate rt (p_recommendedOption p)) ''isValid'' = Some (JBool True)
     \<and> evaluateProposal rt (ae_cfg (envs n)) (ae_gov_clock (envs n)) (ae_gov_redis (envs n)) (p_id p) w1 = (Inr d, w2)
     \<and> executeDecision rt (ae_op_clock (envs n)) (ae_op_redis (envs n)) (ae_late (envs n)) (ae_tools (envs n)) (d_id d) w2 = (y, w3)
     \<and> calls w3 = calls w2 @ [c] \<and> tc_decisionId c = d_id d)"

lemma replan_loop_effect:
  assumes "replan_loop rt envs i ob cx te n fo pp w = (r, w')" and "find_task w i \<noteq> None"
  shows "task_in i w' (settled_status r)
     \<and> length (proposals w') + n \<le> length (proposals w) + max n MAX_REPLAN_ATTEMPTS
     \<and> (calls w' = calls w \<or> (\<exists>c. calls w' = calls w @ [c] \<and> gated_call rt envs c))"
  using assms
proof (induction rt envs i ob cx te n fo pp w arbitrary: r w' rule: replan_loop.induct)
  case (1 rt envs i ob cx te n fo pp w)
  show ?case
  proof (cases "n < MAX_REPLAN_ATTEMPTS")
    case False
    then have "r = Max_Replans_Exceeded" "w' = set_task i T_FAILED w" using 1(2) by (simp_all add: replan_loop.simps)
    then show ?thesis using 1(3) task_in_set(1) by simp
  next
    case True
    obtain p w1 where g: "generateProposal rt (envs n) i fo cx te pp w = (p, w1)" by fastforce
    note gen = generate_effect [OF g]
    have t1: "find_task w1 i \<noteq> None" using 1(3) gen(1) by (metis find_task_ids)
    obtain out w2 where a: "attempt rt (envs n) i ob p w1 = (out, w2)" by fastforce
    have step: "replan_loop rt envs i ob cx te n fo pp w = (case out of Finished r \<Rightarrow> (r, w2)
        | Replan again \<Rightarrow> replan_loop rt envs i ob cx te (n + 1) again (Some (p_id p)) w2)"
      using True g a by (subst replan_loop.simps) (simp split: attempt_outcome.split)
    from a show ?thesis
    proof (cases rule: attempt_cases)
      case stopped
      show ?thesis
      proof (cases out)
        case (Finished s)
        then show ?thesis using stopped step 1(2) gen t1 True by (simp add: steady_def)
      next
        case (Replan again)
        have "find_task w2 i \<noteq> None" using t1 stopped(1) by (metis find_task_ids steady_def)
        moreover have "replan_loop rt envs i ob cx te (n + 1) again (Some (p_id p)) w2 = (r, w')" using step 1(2) Replan by simp
        ultimately have "task_in i w' (settled_status r)
            \<and> length (proposals w') + (n + 1) \<le> length (proposals w2) + max (n + 1) MAX_REPLAN_ATTEMPTS
            \<and> (calls w' = calls w2 \<or> (\<exists>c. calls w' = calls w2 @ [c] \<and> gated_call rt envs c))"
          using 1(1) [OF True g [symmetric] a [symmetric] Replan] by blast
        then show ?thesis using stopped gen True by (auto simp: steady_def)
      qed
    next
      case (executed d w3 s y w4)
      have "gated_call rt envs c" if "calls w4 = calls w3 @ [c]" "tc_decisionId c = d_id d" for c
        unfolding gated_call_def using executed(1-4) gen(4) that True by blast
      then show ?thesis using executed(5-) step 1(2) gen t1 True by (auto simp: steady_def)
    qed
  qed
qed

lemma task_loop_result:
  assumes "find_task w i \<noteq> None"
  shows "\<exists>r w'. executeTaskLoop rt envs i ob cx te w = (Inr r, w')
     \<and> task_in i w' (settled_status r) \<and> length (proposals w') \<le> length (proposals w) + 3"
proof -
  obtain r w' where run: "replan_loop rt envs i ob cx te 0 ob None (set_task i T_PROCESSING w) = (r, w')" by fastforce
  have "find_task (set_task i T_PROCESSING w) i \<noteq> None" using task_in_set(1) [OF assms] by (auto simp: task_in_def)
  from replan_loop_effect [OF run this] run assms show ?thesis
    by (auto simp: executeTaskLoop_def MAX_REPLAN_ATTEMPTS_def)
qed

text \<open>
  C15: every run of a task returns and settles it. After at most three proposals the task is
  COMPLETED, AWAITING_HUMAN or FAILED, as the answer says.
\<close>

theorem task_loop_settles:
  assumes "find_task w i \<noteq> None"
  shows "\<exists>r w'. executeTaskLoop rt envs i ob cx te w = (Inr r, w')
     \<and> task_in i w' (settled_status r) \<and> length (proposals w') \<le> length (proposals w) + 3"
  using task_loop_result [OF assms] .


subsection \<open>The quota of a tenant\<close>

text \<open>
  The queue worker runs jobs concurrently. A configuration is the store with the number of jobs
  of the tenant running; starting, refusing and finishing a job are its steps, each at a time.
  A step is timely when the counter has not expired under a running job.
\<close>

inductive quota_step :: "string \<Rightarrow> int \<Rightarrow> world \<times> nat \<Rightarrow> world \<times> nat \<Rightarrow> bool" for tenant where
  started: "begin_job now tenant w = (True, w') \<Longrightarrow> quota_step tenant now (w, n) (w', Suc n)"
| refused: "begin_job now tenant w = (False, w') \<Longrightarrow> quota_step tenant now (w, n) (w', n)"
| finished: "quota_step tenant now (w, Suc n) (end_job now tenant w, n)"

inductive_cases quota_stepE: "quota_step tenant now c c'"

definition timely :: "string \<Rightarrow> int \<Rightarrow> world \<times> nat \<Rightarrow> bool" where
  "timely tenant now c \<longleftrightarrow> snd c = 0 \<or> redis_live now (active_key tenant) (fst c) \<noteq> None"

inductive quota_reach :: "string \<Rightarrow> world \<times> nat \<Rightarrow> world \<times> nat \<Rightarrow> bool" for tenant where
  here: "quota_reach tenant c c"
| step: "quota_reach tenant c c' \<Longrightarrow> timely tenant now c' \<Longrightarrow> quota_step tenant now c' c'' \<Longrightarrow> quota_reach tenant c c''"

definition quota_inv :: "string \<Rightarrow> world \<times> nat \<Rightarrow> bool" where
  "quota_inv tenant c \<longleftrightarrow> (case c of (w, n) \<Rightarrow> int n \<le> MAX_CONCURRENT
     \<and> (case redis w (active_key tenant) of None \<Rightarrow> n = 0 | Some (v, ex) \<Rightarrow> v = int n))"

lemma counter_value:
  assumes "quota_inv tenant (w, n)" and "timely tenant now (w, n)"
  shows "fst (case redis_live now (active_key tenant) w of None \<Rightarrow> (0, None) | Some c \<Rightarrow> c) = int n"
  using assms by (auto simp: quota_inv_def timely_def redis_live_def split: option.splits if_splits prod.splits)

lemma quota_step_inv:
  assumes "quota_step tenant now c c'" and "quota_inv tenant c" and "timely tenant now c"
  shows "quota_inv tenant c'"
  using assms
proof (cases rule: quota_step.cases)
  case (started w w' n)
  note val = counter_value [of tenant w n now]
  show ?thesis
    using started assms(2,3) val
    by (auto simp: begin_job_def window_incr_def quota_inv_def Let_def split: prod.splits if_splits)
next
  case (refused w w' n)
  obtain v ex where live: "(case redis_live now (active_key tenant) w of None \<Rightarrow> (0, None) | Some c \<Rightarrow> c) = (v, ex)" by fastforce
  then have v: "v = int n" using counter_value [of tenant w n now] refused assms(2,3) by simp
  have many: "v + 1 > MAX_CONCURRENT" and w': "w' = snd (redis_decr now (active_key tenant)
      (redis_set (active_key tenant) (Some (v + 1, if v + 1 = 1 then Some (now + 300 * 1000) else ex)) w))"
    using refused(3) live by (auto simp: begin_job_def window_incr_def Let_def split: if_splits)
  then have "v = 2" using v assms(2) refused(1) by (simp add: quota_inv_def MAX_CONCURRENT_def)
  then obtain "redis_live now (active_key tenant) w = Some (2, ex)"
    using live by (auto split: option.splits)
  then have "redis_live now (active_key tenant) (redis_set (active_key tenant) (Some (3, ex)) w) = Some (3, ex)"
    by (auto simp: redis_live_def split: option.splits if_splits)
  then have "redis w' (active_key tenant) = Some (2, ex)"
    using w' \<open>v = 2\<close> by (simp add: redis_decr_def Let_def)
  then show ?thesis using refused v \<open>v = 2\<close> assms(2) by (simp add: quota_inv_def)
next
  case (finished w n)
  obtain v ex where live: "(case redis_live now (active_key tenant) w of None \<Rightarrow> (0, None) | Some c \<Rightarrow> c) = (v, ex)" by fastforce
  then have "v = int (Suc n)" using counter_value [of tenant w "Suc n" now] finished assms(2,3) by simp
  then show ?thesis using finished live assms(2) by (simp add: end_job_def redis_decr_def Let_def quota_inv_def)
qed

lemma quota_reach_inv: "quota_reach tenant c c' \<Longrightarrow> quota_inv tenant c \<Longrightarrow> quota_inv tenant c'"
  by (induction rule: quota_reach.induct) (auto intro: quota_step_inv)


text \<open>
  A job that outlives the five minutes of the counter leaves the counter at -1 without an
  expiry, and from then on, at any time, three jobs of the tenant start.
\<close>

theorem late_finish_raises_quota:
  "\<exists>w1 w2 w3 w4. begin_job 0 tenant empty_world = (True, w1)
     \<and> begin_job t tenant (end_job 300000 tenant w1) = (True, w2)
     \<and> begin_job t tenant w2 = (True, w3) \<and> begin_job t tenant w3 = (True, w4)"
  by (simp add: begin_job_def end_job_def window_incr_def redis_decr_def redis_live_def empty_world_def MAX_CONCURRENT_def Let_def)

end
