(* ===== verification/Workers.thy ===== *)
theory Workers
  imports Operator_Laws
begin

section \<open>The background workers (workers/*.ts)\<close>

text \<open>
  Each sweep reads a list of rows once and then works through it, so a sweep is a fold over a
  snapshot; the world it works on may have moved on since the read. The polling timers
  are in the theory Lifecycle; here a sweep is one call. The clock gives the time of the n-th access to the database.
\<close>

subsection \<open>Expired human escalations (human-escalation.worker.ts)\<close>

definition awaiting :: "task_row \<Rightarrow> bool" where
  "awaiting t \<longleftrightarrow> t_status t = T_AWAITING_HUMAN"

definition overdue :: "int \<Rightarrow> task_row \<Rightarrow> bool" where
  "overdue now t \<longleftrightarrow> awaiting t \<and> (case t_expiresAt t of None \<Rightarrow> False | Some e \<Rightarrow> e \<le> now)"

definition expire_task :: "task_row \<Rightarrow> task_row" where
  "expire_task t = t\<lparr>t_status := T_EXPIRED\<rparr>"

interpretation expiry: guarded_update t_id awaiting expire_task
  by unfold_locales (simp_all add: awaiting_def expire_task_def)

definition expiry_details :: "task_row \<Rightarrow> audit_details" where
  "expiry_details t =
     log_entry (if t_tenantId t = [] then ''system_worker'' else t_tenantId t)
       (obj_literal [(''event'', Some (JStr ''TASK_EXPIRED_AWAITING_HUMAN'')), (''taskId'', Some (JStr (t_id t)))])"

definition expire_one :: "runtime \<Rightarrow> int \<Rightarrow> task_row \<Rightarrow> world \<Rightarrow> world" where
  "expire_one rt now t w =
     (let p = (\<lambda>x. t_id x = t_id t \<and> awaiting x);
          w1 = w\<lparr>tasks := update_where p expire_task (tasks w)\<rparr>
      in if count_where p (tasks w) = 0 then w1 else logAction rt now (expiry_details t) w1)"

fun expire_all :: "runtime \<Rightarrow> (nat \<Rightarrow> int) \<Rightarrow> nat \<Rightarrow> task_row list \<Rightarrow> world \<Rightarrow> world" where
  "expire_all rt clk n [] w = w"
| "expire_all rt clk n (t # ts) w = expire_all rt clk (n + 1) ts (expire_one rt (clk n) t w)"

definition sweepExpiredEscalations :: "runtime \<Rightarrow> (nat \<Rightarrow> int) \<Rightarrow> world \<Rightarrow> world" where
  "sweepExpiredEscalations rt clk w = expire_all rt clk 1 (filter (overdue (clk 0)) (tasks w)) w"

subsection \<open>Ghost executions (execution-reconciliation.worker.ts)\<close>

definition ghost :: "int \<Rightarrow> execution_row \<Rightarrow> bool" where
  "ghost limit e \<longleftrightarrow> e_status e = E_EXECUTING \<and> (case e_startedAt e of None \<Rightarrow> False | Some s \<Rightarrow> s \<le> limit)"

definition force_unknown :: "int \<Rightarrow> execution_row \<Rightarrow> execution_row" where
  "force_unknown thresholdMs e = e\<lparr>e_status := E_UNKNOWN, e_lastError :=
     Some (''Reconciliation Worker: Forced to UNKNOWN after exceeding '' @ num_str (Fin thresholdMs 0) @ ''ms timeout without completion.'')\<rparr>"

definition ghost_details :: "execution_row \<Rightarrow> audit_details" where
  "ghost_details e = log_entry (e_tenantId e) (obj_literal
     [(''event'', Some (JStr ''RECONCILIATION_FORCED_UNKNOWN'')), (''executionRecordId'', Some (JStr (e_id e))),
      (''reason'', Some (JStr ''Forced to UNKNOWN after exceeding timeout''))])"

definition sweep_ghost :: "runtime \<Rightarrow> int \<Rightarrow> int \<Rightarrow> execution_row \<Rightarrow> world \<Rightarrow> world" where
  "sweep_ghost rt thresholdMs now e w =
     logAction rt now (ghost_details e) (update_record (e_id e) (force_unknown thresholdMs) w)"

fun sweep_ghosts :: "runtime \<Rightarrow> int \<Rightarrow> (nat \<Rightarrow> int) \<Rightarrow> nat \<Rightarrow> execution_row list \<Rightarrow> world \<Rightarrow> world" where
  "sweep_ghosts rt thresholdMs clk n [] w = w"
| "sweep_ghosts rt thresholdMs clk n (e # es) w =
     sweep_ghosts rt thresholdMs clk (n + 1) es (sweep_ghost rt thresholdMs (clk n) e w)"

definition sweepGhostExecutions :: "runtime \<Rightarrow> int \<Rightarrow> (nat \<Rightarrow> int) \<Rightarrow> world \<Rightarrow> world" where
  "sweepGhostExecutions rt thresholdMs clk w =
     sweep_ghosts rt thresholdMs clk 1 (filter (ghost (clk 0 - thresholdMs)) (executions w)) w"

subsection \<open>Reconciliation with the providers (reconciliation.worker.ts)\<close>

datatype provider_state = PS_SUCCESS | PS_FAILED | PS_UNAVAILABLE | PS_TIMEOUT

definition mockPollProvider :: "string option \<Rightarrow> provider_state" where
  "mockPollProvider ptid = (case str_or ptid None of None \<Rightarrow> PS_FAILED | Some _ \<Rightarrow> PS_SUCCESS)"

definition MAX_RECONCILIATION_ATTEMPTS :: int where
  "MAX_RECONCILIATION_ATTEMPTS = 5"

definition reconcile_details :: "string \<Rightarrow> string \<Rightarrow> string option \<Rightarrow> audit_details" where
  "reconcile_details recordId statusText ptid = log_entry ''system_worker'' (obj_literal
     [(''event'', Some (JStr ''RECONCILIATION_SWEEP'')), (''result'', Some (JStr statusText)),
      (''executionRecordId'', Some (JStr recordId)),
      (''providerTransactionId'', Some (case ptid of None \<Rightarrow> JNull | Some s \<Rightarrow> JStr s))])"

definition markReconciled :: "runtime \<Rightarrow> int \<Rightarrow> string \<Rightarrow> string \<Rightarrow> string option \<Rightarrow> world \<Rightarrow> world" where
  "markReconciled rt now recordId statusText ptid w =
     (let w1 = logAction rt now (reconcile_details recordId statusText ptid) w
      in if statusText \<in> set [''RECONCILED'', ''DISCREPANCY_FOUND_AND_FIXED'', ''RECONCILIATION_FAILED'', ''DISCREPANCY_PROVIDER_FAILED'']
         then update_record recordId (\<lambda>e. e\<lparr>e_reconciledAt := Some now\<rparr>) w1 else w1)"

definition reconcile_record :: "runtime \<Rightarrow> int \<Rightarrow> provider_state \<Rightarrow> execution_row \<Rightarrow> world \<Rightarrow> world" where
  "reconcile_record rt now state r w =
     (case state of
        PS_SUCCESS \<Rightarrow>
          if e_status r = E_COMPLETED
          then markReconciled rt now (e_id r) ''RECONCILED'' (e_providerTransactionId r) w
          else update_record (e_id r) (\<lambda>e. e\<lparr>e_status := E_COMPLETED\<rparr>)
                 (markReconciled rt now (e_id r) ''DISCREPANCY_FOUND_AND_FIXED'' (e_providerTransactionId r) w)
      | PS_FAILED \<Rightarrow> markReconciled rt now (e_id r) ''DISCREPANCY_PROVIDER_FAILED'' (e_providerTransactionId r) w
      | _ \<Rightarrow>
          (let currentAttempts = e_reconciliationAttempts r
           in if currentAttempts \<ge> MAX_RECONCILIATION_ATTEMPTS
              then update_record (e_id r)
                     (\<lambda>e. e\<lparr>e_status := E_RECONCILIATION_FAILED, e_reconciliationAttempts := currentAttempts + 1\<rparr>)
                     (markReconciled rt now (e_id r) ''RECONCILIATION_FAILED'' (e_providerTransactionId r) w)
              else update_record (e_id r) (\<lambda>e. e\<lparr>e_reconciliationAttempts := currentAttempts + 1\<rparr>) w))"

definition to_reconcile :: "execution_row \<Rightarrow> bool" where
  "to_reconcile e \<longleftrightarrow> e_status e = E_COMPLETED \<or> e_status e = E_UNKNOWN \<or> e_status e = E_RECONCILIATION_REQUIRED"

fun reconcile_all :: "runtime \<Rightarrow> (nat \<Rightarrow> int) \<Rightarrow> nat \<Rightarrow> execution_row list \<Rightarrow> world \<Rightarrow> world" where
  "reconcile_all rt clk n [] w = w"
| "reconcile_all rt clk n (r # rs) w =
     reconcile_all rt clk (n + 1) rs (reconcile_record rt (clk n) (mockPollProvider (e_providerTransactionId r)) r w)"

definition reconciliation_sweep :: "runtime \<Rightarrow> (nat \<Rightarrow> int) \<Rightarrow> world \<Rightarrow> world" where
  "reconciliation_sweep rt clk w = reconcile_all rt clk 0 (filter to_reconcile (executions w)) w"

subsection \<open>Laws of the escalation sweep\<close>

lemma expire_one_tasks:
  "tasks (expire_one rt now t w) = update_where (\<lambda>x. t_id x = t_id t \<and> awaiting x) expire_task (tasks w)"
  by (simp add: expire_one_def Let_def)

lemma expire_all_tasks:
  "tasks (expire_all rt clk n ts w) = map (\<lambda>x. if t_id x \<in> t_id ` set ts \<and> awaiting x then expire_task x else x) (tasks w)"
proof (induction ts arbitrary: n w)
  case (Cons t ts)
  show ?case
    by (auto simp: Cons expire_one_tasks update_where_def awaiting_def expire_task_def)
qed simp

lemma expire_one_audits:
  "\<exists>rs. audits (expire_one rt now t w) = audits w @ rs
     \<and> length rs = (if count_where (\<lambda>x. t_id x = t_id t \<and> awaiting x) (tasks w) = 0 then 0 else 1)"
  using logAction_appends [of rt now "expiry_details t" "w\<lparr>tasks := update_where (\<lambda>x. t_id x = t_id t \<and> awaiting x) expire_task (tasks w)\<rparr>"]
  by (auto simp: expire_one_def Let_def)

lemma expire_all_audits:
  assumes "distinct (map t_id ts)" and "\<forall>t \<in> set ts. \<exists>x \<in> set (tasks w). t_id x = t_id t \<and> awaiting x"
  shows "\<exists>rs. audits (expire_all rt clk n ts w) = audits w @ rs \<and> length rs = length ts"
  using assms
proof (induction ts arbitrary: n w)
  case (Cons t ts)
  let ?w = "expire_one rt (clk n) t w"
  have "count_where (\<lambda>x. t_id x = t_id t \<and> awaiting x) (tasks w) \<noteq> 0" using Cons.prems by (auto simp: count_where_0)
  then obtain r where r: "audits ?w = audits w @ [r]"
    using expire_one_audits [of rt "clk n" t w] by (auto simp: length_Suc_conv)
  have "\<exists>x \<in> set (tasks ?w). t_id x = t_id u \<and> awaiting x" if "u \<in> set ts" for u
  proof -
    have "t_id u \<in> t_id ` set ts" using that by simp
    then have "t_id u \<noteq> t_id t" using Cons.prems(1) by (metis distinct.simps(2) list.simps(9) list.set_map)
    then show ?thesis using Cons.prems(2) that unfolding expire_one_tasks set_update_where by fastforce
  qed
  then obtain rs where "audits (expire_all rt clk (n + 1) ts ?w) = audits ?w @ rs" "length rs = length ts"
    using Cons.IH [of ?w "n + 1"] Cons.prems(1) by auto
  then show ?case using r by auto
qed simp

text \<open>
  C36: the escalation sweep expires exactly the overdue tasks, those that wait for a human past
  their deadline, changes nothing else of any task and writes one audit entry for each.
\<close>

theorem escalation_sweep_exact:
  assumes "distinct (map t_id (tasks w))"
  shows "tasks (sweepExpiredEscalations rt clk w) = map (\<lambda>t. if overdue (clk 0) t then expire_task t else t) (tasks w)
     \<and> length (audits (sweepExpiredEscalations rt clk w)) = length (audits w) + count_where (overdue (clk 0)) (tasks w)"
proof -
  let ?ts = "filter (overdue (clk 0)) (tasks w)"
  have "(t_id x \<in> t_id ` set ?ts \<and> awaiting x) = overdue (clk 0) x" if "x \<in> set (tasks w)" for x
    using that assms by (auto simp: overdue_def distinct_map inj_on_def)
  then have "tasks (expire_all rt clk 1 ?ts w) = map (\<lambda>t. if overdue (clk 0) t then expire_task t else t) (tasks w)"
    unfolding expire_all_tasks by (intro map_cong) (auto simp del: set_filter)
  moreover have "\<exists>rs. audits (expire_all rt clk 1 ?ts w) = audits w @ rs \<and> length rs = length ?ts"
    using assms by (intro expire_all_audits) (auto simp: overdue_def distinct_map_filter)
  ultimately show ?thesis by (auto simp: sweepExpiredEscalations_def count_where_def)
qed

subsection \<open>A rolled-back action is reopened by reconciliation\<close>

definition record_at :: "world \<Rightarrow> string \<Rightarrow> execution_row option" where
  "record_at w i = find_first (\<lambda>e. e_id e = i) (executions w)"

lemma record_at_update:
  assumes "\<And>e. e_id (f e) = e_id e"
  shows "record_at (update_record j f w) i = (if i = j then map_option f (record_at w i) else record_at w i)"
proof (cases "i = j")
  case True
  then show ?thesis using assms by (simp add: record_at_def update_record_def find_first_update_key)
next
  case False
  have "find_first (\<lambda>e. e_id e = i) (update_where (\<lambda>e. e_id e = j) f (executions w)) = find_first (\<lambda>e. e_id e = i) (executions w)"
    using False assms by (intro find_update_other) auto
  then show ?thesis using False by (simp add: record_at_def update_record_def)
qed

lemma record_at_log [simp]: "record_at (logAction rt now dt w) i = record_at w i"
  by (simp add: record_at_def)

definition frame_but_executions :: "world \<Rightarrow> world \<Rightarrow> bool" where
  "frame_but_executions w w' \<longleftrightarrow> decisions w' = decisions w \<and> proposals w' = proposals w \<and> calls w' = calls w \<and> files w' = files w"

text \<open>With the mocked provider a record that has a transaction id ends COMPLETED.\<close>

lemma reconcile_record_at:
  "record_at (reconcile_record rt now (mockPollProvider (e_providerTransactionId r)) r w) i =
     (if i = e_id r
      then map_option (\<lambda>e. if str_or (e_providerTransactionId r) None = None \<or> e_status r = E_COMPLETED
                           then e\<lparr>e_reconciledAt := Some now\<rparr> else e\<lparr>e_reconciledAt := Some now, e_status := E_COMPLETED\<rparr>) (record_at w i)
      else record_at w i)"
  by (auto simp: reconcile_record_def mockPollProvider_def markReconciled_def record_at_update Let_def option.map_comp o_def
      split: option.splits)

lemma reconcile_record_frame:
  "frame_but_executions w (reconcile_record rt now st r w)"
  by (cases st) (simp_all add: frame_but_executions_def reconcile_record_def markReconciled_def update_record_def Let_def)

lemma reconcile_all_frame: "frame_but_executions w (reconcile_all rt clk n rs w)"
proof (induction rs arbitrary: n w)
  case (Cons r rs)
  show ?case
    using Cons [of "reconcile_record rt (clk n) (mockPollProvider (e_providerTransactionId r)) r w" "n + 1"]
      reconcile_record_frame [of w rt "clk n" "mockPollProvider (e_providerTransactionId r)" r]
    by (simp add: frame_but_executions_def)
qed (simp add: frame_but_executions_def)

lemma reconcile_all_other:
  "i \<notin> e_id ` set rs \<Longrightarrow> record_at (reconcile_all rt clk n rs w) i = record_at w i"
  by (induction rs arbitrary: n w) (auto simp: reconcile_record_at)

lemma reconcile_all_at:
  assumes "distinct (map e_id rs)" and "r \<in> set rs" and "record_at w (e_id r) = Some r"
    and "e_providerTransactionId r = Some s" "s \<noteq> []"
  shows "\<exists>at. record_at (reconcile_all rt clk n rs w) (e_id r) = Some (r\<lparr>e_reconciledAt := Some at, e_status := E_COMPLETED\<rparr>)"
  using assms(1-3)
proof (induction rs arbitrary: n w)
  case (Cons q rs)
  let ?w = "reconcile_record rt (clk n) (mockPollProvider (e_providerTransactionId q)) q w"
  show ?case
  proof (cases "q = r")
    case True
    have "e_id r \<notin> e_id ` set rs" using Cons.prems(1) True by simp
    moreover have "record_at ?w (e_id r) = Some (r\<lparr>e_reconciledAt := Some (clk n), e_status := E_COMPLETED\<rparr>)"
      using reconcile_record_at [of rt "clk n" r w "e_id r"] True Cons.prems(3) assms(4,5) by (simp add: str_or_def)
    ultimately show ?thesis using True by (auto simp: reconcile_all_other)
  next
    case False
    then have r: "r \<in> set rs" using Cons.prems(2) by simp
    then have "e_id r \<in> e_id ` set rs" by simp
    then have "e_id r \<noteq> e_id q" using Cons.prems(1) by (metis distinct.simps(2) list.simps(9) list.set_map)
    then have "record_at ?w (e_id r) = Some r" using Cons.prems(3) by (simp add: reconcile_record_at)
    then show ?thesis using Cons.IH [of ?w "n + 1"] Cons.prems(1) r by simp
  qed
qed simp

text \<open>
  Reconciling does not take a record off the list: a completed record is read again by the next
  sweep, whatever its time of reconciliation.
\<close>

theorem reconciled_records_stay:
  assumes "record_at w i = Some r" and "to_reconcile r" and "e_providerTransactionId r = Some s" and "s \<noteq> []"
    and "distinct (map e_id (executions w))"
  shows "\<exists>q. record_at (reconciliation_sweep rt clk w) i = Some q \<and> e_reconciledAt q \<noteq> None \<and> to_reconcile q"
proof -
  have r: "r \<in> set (executions w)" "e_id r = i"
    using assms(1) find_first_in find_first_sat by (force simp: record_at_def)+
  have "distinct (map e_id (filter to_reconcile (executions w)))" using assms(5) by (rule distinct_map_filter)
  then have "\<exists>at. record_at (reconciliation_sweep rt clk w) (e_id r) = Some (r\<lparr>e_reconciledAt := Some at, e_status := E_COMPLETED\<rparr>)"
    unfolding reconciliation_sweep_def by (rule reconcile_all_at) (use assms r in simp_all)
  then show ?thesis using r(2) by (auto simp: to_reconcile_def)
qed

text \<open>What a rollback of a transfer needs, and what it does to its record.\<close>

definition refundable :: "world \<Rightarrow> string \<Rightarrow> execution_row \<Rightarrow> bool" where
  "refundable w i r \<longleftrightarrow> record_at w i = Some r \<and> e_status r = E_COMPLETED
     \<and> (\<exists>d p kvs. find_decision w (e_decisionId r) = Some d \<and> find_proposal w (d_proposalId d) = Some p
        \<and> jget (p_recommendedOption p) ''actionType'' = Some (JStr ''TRANSFER_FUNDS'')
        \<and> jget (p_recommendedOption p) ''parameters'' = Some (JObj kvs))"

lemma refund_runs:
  assumes "refundable w i r"
  obtains w' where "executeRollback rt now env i w = (Inr True, w')"
    "record_at w' i = Some (r\<lparr>e_status := E_UNKNOWN, e_lastError := Some ''Rollback invoked''\<rparr>)"
    "decisions w' = decisions w" "proposals w' = proposals w" "map e_id (executions w') = map e_id (executions w)"
proof -
  obtain d p kvs where f: "record_at w i = Some r" "e_status r = E_COMPLETED" "find_decision w (e_decisionId r) = Some d"
      "find_proposal w (d_proposalId d) = Some p"
      "jget (p_recommendedOption p) ''actionType'' = Some (JStr ''TRANSFER_FUNDS'')"
      "jget (p_recommendedOption p) ''parameters'' = Some (JObj kvs)"
    using assms by (auto simp: refundable_def)
  have tool: "find_tool (Some (JStr ''TRANSFER_FUNDS'')) = Some TransferFundsOperator" by (simp add: find_tool_iff)
  let ?f = "\<lambda>e. e\<lparr>e_status := E_UNKNOWN, e_lastError := Some ''Rollback invoked''\<rparr>"
  let ?w = "logAction rt now (rollback_details r (Some (JStr ''TRANSFER_FUNDS'')) True) (update_record i ?f w)"
  have "executeRollback rt now env i w = (Inr True, ?w)"
    using f tool by (simp add: executeRollback_def Let_def record_at_def transfer_rollback_def)
  moreover have "record_at ?w i = Some (?f r)" using f(1) by (simp add: record_at_update)
  moreover have "map e_id (executions ?w) = map e_id (executions w)" by (simp add: update_record_def map_update_where)
  ultimately show thesis using that [of ?w] by (simp add: update_record_def)
qed

text \<open>
  C38: a refunded transfer is refunded again. Rolling back a completed transfer leaves its record
  UNKNOWN; the next reconciliation sweep asks the (mocked) provider, which reports success, and
  sets the record to COMPLETED, so that a second rollback of the same record runs and succeeds.
\<close>

theorem transfer_refunded_twice:
  assumes "refundable w i r" and "e_providerTransactionId r = Some s" and "s \<noteq> []" and "distinct (map e_id (executions w))"
  shows "\<exists>w1 w2. executeRollback rt now env i w = (Inr True, w1)
     \<and> executeRollback rt later env i (reconciliation_sweep rt clk w1) = (Inr True, w2)"
proof -
  obtain w1 where w1: "executeRollback rt now env i w = (Inr True, w1)"
    "record_at w1 i = Some (r\<lparr>e_status := E_UNKNOWN, e_lastError := Some ''Rollback invoked''\<rparr>)" (is "_ = Some ?r")
    "decisions w1 = decisions w" "proposals w1 = proposals w" "map e_id (executions w1) = map e_id (executions w)"
    using refund_runs [OF assms(1)] .
  let ?rs = "filter to_reconcile (executions w1)"
  have in1: "?r \<in> set (executions w1)" "e_id ?r = i"
    using w1(2) find_first_in find_first_sat by (force simp: record_at_def)+
  have "distinct (map e_id ?rs)" using assms(4) w1(5) by (metis distinct_map_filter)
  moreover have "?r \<in> set ?rs" using in1 by (simp add: to_reconcile_def)
  moreover have "record_at w1 (e_id ?r) = Some ?r" using w1(2) in1(2) by simp
  ultimately have "\<exists>at. record_at (reconcile_all rt clk 0 ?rs w1) (e_id ?r) = Some (?r\<lparr>e_reconciledAt := Some at, e_status := E_COMPLETED\<rparr>)"
    by (rule reconcile_all_at) (use assms(2,3) in simp_all)
  then obtain at where "record_at (reconciliation_sweep rt clk w1) i = Some (?r\<lparr>e_reconciledAt := Some at, e_status := E_COMPLETED\<rparr>)"
    using in1(2) by (auto simp: reconciliation_sweep_def)
  then have "refundable (reconciliation_sweep rt clk w1) i (?r\<lparr>e_reconciledAt := Some at, e_status := E_COMPLETED\<rparr>)"
    using assms(1) w1(3,4) reconcile_all_frame [of w1 rt clk 0 ?rs]
    by (auto simp: refundable_def frame_but_executions_def reconciliation_sweep_def find_decision_def find_proposal_def)
  from refund_runs [OF this] obtain w2 where "executeRollback rt later env i (reconciliation_sweep rt clk w1) = (Inr True, w2)" .
  then show ?thesis using w1(1) by blast
qed

text \<open>
  The ghost sweep writes without a guard: a record that completed after the sweep read it is
  forced back to UNKNOWN.
\<close>

lemma ghost_overwrites_completed:
  assumes "record_at w (e_id e) = Some r" and "e_status r = E_COMPLETED"
  shows "\<exists>q. record_at (sweep_ghost rt th now e w) (e_id e) = Some q \<and> e_status q = E_UNKNOWN"
  using assms by (simp add: sweep_ghost_def record_at_update force_unknown_def)

end
