(* ===== verification/Dates.thy ===== *)
theory Dates
  imports Json_Parse
begin

section \<open>Dates of the language as text\<close>

text \<open>
  \<open>toISOString\<close> on milliseconds of the epoch, for the years its four-digit form covers, and the
  \<open>Date\<close> constructor on that form; any other text goes to the date parser of the runtime, a
  parameter. The main fact is that the constructor reads back what \<open>toISOString\<close> prints.
\<close>

subsection \<open>The proleptic Gregorian calendar\<close>

text \<open>Years begin in March here, so that a leap day is the last day of its year.\<close>

definition year_day :: "int \<Rightarrow> int \<times> int" where
  "year_day doe =
     (let c = min 3 (doe div 36524); q = (doe - 36524 * c) div 1461; r = (doe - 36524 * c) mod 1461;
          a = min 3 (r div 365)
      in (100 * c + 4 * q + a, r - 365 * a))"

definition month_day :: "int \<Rightarrow> int \<times> int" where
  "month_day doy = (let k = (5 * doy + 2) div 153 in (k, doy - (153 * k + 2) div 5 + 1))"

definition civil :: "int \<Rightarrow> int \<times> int \<times> int" where
  "civil days =
     (let z = days + 719468; (yoe, doy) = year_day (z mod 146097); (k, d) = month_day doy;
          m = (if k < 10 then k + 3 else k - 9)
      in (400 * (z div 146097) + yoe + (if m \<le> 2 then 1 else 0), m, d))"

definition days_of :: "int \<Rightarrow> int \<Rightarrow> int \<Rightarrow> int" where
  "days_of y m d =
     (let y' = (if m \<le> 2 then y - 1 else y); yoe = y' mod 400; k = (if m \<le> 2 then m + 9 else m - 3)
      in 146097 * (y' div 400) + (365 * yoe + yoe div 4 - yoe div 100) + ((153 * k + 2) div 5 + d - 1) - 719468)"

lemma month_day_cases:
  assumes "month_day doy = (k, d)" and "0 \<le> doy" and "doy \<le> 365"
  shows "(153 * k + 2) div 5 + d - 1 = doy \<and> 0 \<le> k \<and> k \<le> 11 \<and> 1 \<le> d \<and> d \<le> 31"
proof -
  have k: "k = (5 * doy + 2) div 153" and d: "d = doy - (153 * k + 2) div 5 + 1"
    using assms(1) unfolding month_day_def Let_def by (metis prod.inject)+
  have "153 * k \<le> 5 * doy + 2" "5 * doy + 2 < 153 * k + 153" unfolding k by simp_all
  moreover obtain j where j: "j = (153 * k + 2) div 5" by simp
  moreover have "5 * j \<le> 153 * k + 2" "153 * k + 2 < 5 * j + 5" unfolding j by simp_all
  ultimately show ?thesis unfolding d j [symmetric] using assms(2,3) by auto
qed

lemma year_day_cases:
  assumes "year_day doe = (yoe, doy)" and "0 \<le> doe" and "doe < 146097"
  shows "365 * yoe + yoe div 4 - yoe div 100 + doy = doe \<and> 0 \<le> yoe \<and> yoe < 400 \<and> 0 \<le> doy \<and> doy \<le> 365"
proof -
  obtain c where c: "c = min 3 (doe div 36524)" by simp
  have c': "0 \<le> c" "c \<le> 3" "36524 * c \<le> doe" "doe \<le> 36524 * c + 36524"
    unfolding c using assms(2,3) by linarith+
  obtain q r where qr: "q = (doe - 36524 * c) div 1461" "r = (doe - 36524 * c) mod 1461" by simp
  have r: "doe = 36524 * c + 1461 * q + r" "0 \<le> r" "r < 1461" unfolding qr by simp_all
  have q: "0 \<le> q" "q \<le> 24" using r c' by linarith+
  obtain a where a: "a = min 3 (r div 365)" by simp
  have a': "0 \<le> a" "a \<le> 3" "365 * a \<le> r" "r \<le> 365 * a + 365" unfolding a using r by linarith+
  have yoe: "yoe = 100 * c + 4 * q + a" and doy: "doy = r - 365 * a"
    using assms(1) by (simp_all add: year_day_def Let_def flip: c qr a)
  have "yoe div 4 = 25 * c + q" "yoe div 100 = c" unfolding yoe using q a' c' by linarith+
  then show ?thesis using yoe doy r q a' c' by auto
qed

lemma days_of_civil:
  assumes "civil days = (y, m, d)"
  shows "days_of y m d = days \<and> 1 \<le> m \<and> m \<le> 12 \<and> 1 \<le> d \<and> d \<le> 31"
proof -
  let ?z = "days + 719468"
  obtain yoe doy where yd: "year_day (?z mod 146097) = (yoe, doy)" by fastforce
  obtain k where md: "month_day doy = (k, d)" and m: "m = (if k < 10 then k + 3 else k - 9)"
    and y: "y = 400 * (?z div 146097) + yoe + (if m \<le> 2 then 1 else 0)"
    using assms yd by (auto simp: civil_def Let_def split: prod.splits)
  note yc = year_day_cases [OF yd]
  then have yc: "365 * yoe + yoe div 4 - yoe div 100 + doy = ?z mod 146097" "0 \<le> yoe" "yoe < 400" "0 \<le> doy" "doy \<le> 365" by simp_all
  note mc = month_day_cases [OF md yc(4,5)]
  have y': "(if m \<le> 2 then y - 1 else y) = 400 * (?z div 146097) + yoe" using y by simp
  have k: "(if m \<le> 2 then m + 9 else m - 3) = k" using m mc by auto
  have "(400 * (?z div 146097) + yoe) div 400 = ?z div 146097" "(400 * (?z div 146097) + yoe) mod 400 = yoe"
    using yc by simp_all
  then have "days_of y m d = 146097 * (?z div 146097) + (365 * yoe + yoe div 4 - yoe div 100) + ((153 * k + 2) div 5 + d - 1) - 719468"
    unfolding days_of_def Let_def y' k by (simp only:)
  also have "\<dots> = 146097 * (?z div 146097) + ?z mod 146097 - 719468"
    unfolding yc(1) [symmetric] using mc by simp
  also have "\<dots> = days" by simp
  finally show ?thesis using m mc by auto
qed

subsection \<open>Printing\<close>

definition padded :: "nat \<Rightarrow> int \<Rightarrow> string" where
  "padded n i = (let ds = nat_digits (nat i) in replicate (n - length ds) (CHR ''0'') @ ds)"

definition iso_date :: "int \<Rightarrow> string" where
  "iso_date ms = (case civil (ms div 86400000) of (y, m, d) \<Rightarrow> padded 4 y @ ''-'' @ padded 2 m @ ''-'' @ padded 2 d)"

definition iso_clock :: "int \<Rightarrow> string" where
  "iso_clock r = padded 2 (r div 3600000) @ '':'' @ padded 2 (r div 60000 mod 60) @ '':''
     @ padded 2 (r div 1000 mod 60) @ ''.'' @ padded 3 (r mod 1000) @ ''Z''"

definition iso_string :: "int \<Rightarrow> string" where
  "iso_string ms = iso_date ms @ ''T'' @ iso_clock (ms mod 86400000)"

lemma iso_string_filled [simp]: "iso_string ms \<noteq> []"
  by (simp add: iso_string_def)

subsection \<open>Reading\<close>

definition field :: "nat \<Rightarrow> nat \<Rightarrow> string \<Rightarrow> int" where
  "field i n s = int (nat_of_digits (take n (drop i s)))"

definition iso_time :: "string \<Rightarrow> int" where
  "iso_time s = days_of (field 0 4 s) (field 5 2 s) (field 8 2 s) * 86400000
     + (field 11 2 s * 3600000 + field 14 2 s * 60000 + field 17 2 s * 1000 + field 20 3 s)"

definition date_of_text :: "(string \<Rightarrow> int option) \<Rightarrow> string \<Rightarrow> int option" where
  "date_of_text dates s = (if iso_string (iso_time s) = s then Some (iso_time s) else dates s)"

text \<open>A number is truncated to a whole millisecond; beyond the range of dates it is invalid.\<close>

definition date_of_num :: "num \<Rightarrow> int option" where
  "date_of_num n =
     (case n of
        Fin m e \<Rightarrow> (let v = (if 0 \<le> e then m * 10 ^ nat e else sgn m * (\<bar>m\<bar> div 10 ^ nat (- e)))
                   in if \<bar>v\<bar> \<le> 8640000000000000 then Some v else None)
      | _ \<Rightarrow> None)"

definition new_Date :: "(string \<Rightarrow> int option) \<Rightarrow> json \<Rightarrow> int option" where
  "new_Date dates v =
     (case v of
        JNull \<Rightarrow> Some 0
      | JBool b \<Rightarrow> Some (if b then 1 else 0)
      | JNum n \<Rightarrow> date_of_num n
      | JStr s \<Rightarrow> date_of_text dates s
      | _ \<Rightarrow> date_of_text dates (js_string v))"

subsection \<open>Reading back\<close>

lemma padded_value: "0 \<le> i \<Longrightarrow> int (nat_of_digits (padded n i)) = i"
  by (simp add: padded_def Let_def nat_of_digits_append)

lemma nat_digits_length: "0 < n \<Longrightarrow> k < 10 ^ n \<Longrightarrow> length (nat_digits k) \<le> n"
proof (induction n arbitrary: k)
  case (Suc n)
  show ?case
  proof (cases "k < 10")
    case True
    then show ?thesis by (subst nat_digits.simps) simp
  next
    case False
    then have "0 < n" using Suc.prems by (cases n) auto
    moreover have "k div 10 < 10 ^ n" using Suc.prems by (simp add: less_mult_imp_div_less mult.commute)
    ultimately have "length (nat_digits (k div 10)) \<le> n" by (rule Suc.IH)
    then show ?thesis using False by (subst nat_digits.simps) simp
  qed
qed simp

lemma padded_length: "0 < n \<Longrightarrow> 0 \<le> i \<Longrightarrow> i < 10 ^ n \<Longrightarrow> length (padded n i) = n"
  using nat_digits_length [of n "nat i"] by (simp add: padded_def Let_def nat_less_iff)

definition four_digit_year :: "int \<Rightarrow> bool" where
  "four_digit_year ms \<longleftrightarrow> (case civil (ms div 86400000) of (y, _) \<Rightarrow> 0 \<le> y \<and> y \<le> 9999)"

lemma clock_parts:
  "r div 3600000 * 3600000 + r div 60000 mod 60 * 60000 + r div 1000 mod 60 * 1000 + r mod 1000 = (r :: int)"
proof -
  have parts: "a * 3600000 + b * 60000 + d * 1000 + f = r"
    if "a * 60 + b = c" "c * 60 + d = x" "x * 1000 + f = r" for a b c d x f :: int
    using that by linarith
  have split: "k div 60 * 60 + k mod 60 = k" for k :: int by simp
  have nest: "r div 60000 = r div 1000 div 60" "r div 3600000 = r div 60000 div 60"
    by (simp_all add: zdiv_zmult2_eq [symmetric])
  show ?thesis
    by (rule parts [of _ _ "r div 60000" _ "r div 1000"]) (simp only: nest(2) split, simp only: nest(1) split, simp)
qed

lemma iso_layout:
  assumes "length y = 4" and "length m = 2" and "length d = 2" and "length h = 2" and "length i = 2" and "length s = 2" and "length f = 3"
  shows "iso_time (y @ ''-'' @ m @ ''-'' @ d @ ''T'' @ h @ '':'' @ i @ '':'' @ s @ ''.'' @ f @ ''Z'')
    = days_of (int (nat_of_digits y)) (int (nat_of_digits m)) (int (nat_of_digits d)) * 86400000
      + (int (nat_of_digits h) * 3600000 + int (nat_of_digits i) * 60000 + int (nat_of_digits s) * 1000 + int (nat_of_digits f))"
  unfolding iso_time_def field_def by (simp add: assms)

lemma iso_time_reads:
  assumes "four_digit_year ms"
  shows "iso_time (iso_string ms) = ms"
proof -
  obtain y m d where c: "civil (ms div 86400000) = (y, m, d)" by (metis prod_cases3)
  then have y: "0 \<le> y" "y \<le> 9999" using assms by (simp_all add: four_digit_year_def)
  note md = days_of_civil [OF c]
  obtain r where r: "r = ms mod 86400000" by simp
  then have r': "0 \<le> r" "r < 86400000" by simp_all
  let ?h = "r div 3600000" and ?i = "r div 60000 mod 60" and ?s = "r div 1000 mod 60" and ?f = "r mod 1000"
  have h: "0 \<le> ?h" "?h < 24" and i: "0 \<le> ?i" "?i < 60" and s: "0 \<le> ?s" "?s < 60" and f: "0 \<le> ?f" "?f < 1000"
    using r' by auto
  have len2: "length (padded 2 i) = 2" if "0 \<le> i" "i < 100" for i using padded_length [of 2 i] that by simp
  have len: "length (padded 4 y) = 4" "length (padded 2 m) = 2" "length (padded 2 d) = 2" "length (padded 2 ?h) = 2"
    "length (padded 2 ?i) = 2" "length (padded 2 ?s) = 2" "length (padded 3 ?f) = 3"
    subgoal using padded_length [of 4 y] y by simp
    subgoal by (rule len2) (use md in linarith)+
    subgoal by (rule len2) (use md in linarith)+
    subgoal by (rule len2) (use h in linarith)+
    subgoal by (rule len2) (use i in linarith)+
    subgoal by (rule len2) (use s in linarith)+
    subgoal using padded_length [of 3 ?f] f by simp
    done
  have val: "int (nat_of_digits (padded 4 y)) = y" "int (nat_of_digits (padded 2 m)) = m" "int (nat_of_digits (padded 2 d)) = d"
    "int (nat_of_digits (padded 2 ?h)) = ?h" "int (nat_of_digits (padded 2 ?i)) = ?i" "int (nat_of_digits (padded 2 ?s)) = ?s"
    "int (nat_of_digits (padded 3 ?f)) = ?f"
    using md by (simp_all add: padded_value y(1) h(1) i(1) s(1) f(1))
  have "iso_time (iso_string ms) = days_of y m d * 86400000 + (?h * 3600000 + ?i * 60000 + ?s * 1000 + ?f)"
    unfolding iso_string_def iso_date_def iso_clock_def c r [symmetric] prod.case append.assoc iso_layout [OF len] val ..
  also have "?h * 3600000 + ?i * 60000 + ?s * 1000 + ?f = r" by (rule clock_parts)
  finally show ?thesis using md r by simp
qed

lemma date_reads_back: "four_digit_year ms \<Longrightarrow> new_Date dates (JStr (iso_string ms)) = Some ms"
  by (simp add: new_Date_def date_of_text_def iso_time_reads)

end
