(* ===== verification/Snapshot.thy ===== *)
theory Snapshot
  imports Schema Dates "HOL-Library.Product_Lexorder" "HOL-Library.Multiset"
begin

section \<open>The audit snapshot worker (workers/audit-snapshot.worker.ts)\<close>

text \<open>
  A sweep reads the audit rows after its cursor in the order of (timestamp, id), at most a
  thousand, appends them to one file per day and writes the cursor file with the key of the last
  of them. The database log is an input of each sweep, because it grows between sweeps; whether
  the disk takes a write is an input too. The flag that keeps two sweeps of a worker apart and
  its timers are in the theory Lifecycle.
\<close>

subsection \<open>A sweep\<close>

type_synonym cursor = "(int \<times> string) option"

definition log_key :: "audit_row \<Rightarrow> int \<times> string" where
  "log_key r = (a_timestamp r, a_id r)"

definition after_cursor :: "cursor \<Rightarrow> audit_row \<Rightarrow> bool" where
  "after_cursor c r \<longleftrightarrow> (case c of None \<Rightarrow> True
     | Some (ts, i) \<Rightarrow> ts < a_timestamp r \<or> (a_timestamp r = ts \<and> i < a_id r))"

definition batch_size :: nat where
  "batch_size = 1000"

definition logsToExport :: "cursor \<Rightarrow> audit_row list \<Rightarrow> audit_row list" where
  "logsToExport c rows = take batch_size (sort_key log_key (filter (after_cursor c) rows))"

definition json_opt :: "string option \<Rightarrow> json" where
  "json_opt v = (case v of None \<Rightarrow> JNull | Some s \<Rightarrow> JStr s)"

definition audit_json :: "audit_row \<Rightarrow> json" where
  "audit_json r = JObj
     [(''id'', JStr (a_id r)), (''tenantId'', JStr (a_tenantId r)), (''timestamp'', JStr (iso_string (a_timestamp r))),
      (''proposalId'', json_opt (a_proposalId r)), (''decisionId'', json_opt (a_decisionId r)), (''actionDetails'', a_actionDetails r),
      (''amount'', case a_amount r of None \<Rightarrow> JNull | Some n \<Rightarrow> JNum n), (''currency'', json_opt (a_currency r)),
      (''recipientAccount'', json_opt (a_recipientAccount r)), (''providerTransactionId'', json_opt (a_providerTransactionId r)),
      (''policyVersion'', json_opt (a_policyVersion r)), (''approverIdentities'', json_opt (a_approverIdentities r)),
      (''reconciliationStatus'', json_opt (a_reconciliationStatus r)), (''previousHash'', json_opt (a_previousHash r)),
      (''currentHash'', JStr (a_currentHash r))]"

definition date_key :: "audit_row \<Rightarrow> string" where
  "date_key r = hd (js_split (CHR ''T'') (iso_string (a_timestamp r)))"

text \<open>Rows grouped by day, the days in the order they first occur.\<close>

fun add_to_group :: "string \<Rightarrow> audit_row \<Rightarrow> (string \<times> audit_row list) list \<Rightarrow> (string \<times> audit_row list) list" where
  "add_to_group k r [] = [(k, [r])]"
| "add_to_group k r ((k', rs) # gs) = (if k = k' then (k', rs @ [r]) # gs else (k', rs) # add_to_group k r gs)"

definition groupedByDate :: "audit_row list \<Rightarrow> (string \<times> audit_row list) list" where
  "groupedByDate rows = fold (\<lambda>r gs. add_to_group (date_key r) r gs) rows []"

definition line_end :: string where
  "line_end = [CHR 0x0A]"

definition jsonl :: "audit_row list \<Rightarrow> string" where
  "jsonl rs = js_join line_end (map (\<lambda>r. json_stringify (audit_json r)) rs) @ line_end"

text \<open>The files of the snapshot directory, by day.\<close>

type_synonym snapshot_files = "string \<Rightarrow> string option"

definition append_file :: "string \<Rightarrow> string \<Rightarrow> snapshot_files \<Rightarrow> snapshot_files" where
  "append_file k s fs = fs(k \<mapsto> (case fs k of None \<Rightarrow> s | Some old \<Rightarrow> old @ s))"

subsection \<open>The cursor file\<close>

text \<open>
  A missing file, a text that is not JSON and a value without the two properties are no cursor.
  The date of a cursor may be invalid and its id no string: the query of the sweep then fails.
\<close>

definition getLastCursor :: "(string \<Rightarrow> int option) \<Rightarrow> string option \<Rightarrow> (int option \<times> json) option" where
  "getLastCursor dates file =
     (case file of
        None \<Rightarrow> None
      | Some cursorStr \<Rightarrow>
          (case JSON_parse (js_trim cursorStr) of
             None \<Rightarrow> None
           | Some parsed \<Rightarrow>
               (case (jget parsed ''timestamp'', jget parsed ''id'') of
                  (Some ts, Some i) \<Rightarrow> if truthy ts \<and> truthy i then Some (new_Date dates ts, i) else None
                | _ \<Rightarrow> None)))"

definition updateCursor :: "int \<times> string \<Rightarrow> string" where
  "updateCursor k = (case k of (ts, i) \<Rightarrow> json_stringify (JObj [(''timestamp'', JStr (iso_string ts)), (''id'', JStr i)]))"

text \<open>The outer option: does the query of the sweep accept the cursor.\<close>

definition sweep_cursor :: "(string \<Rightarrow> int option) \<Rightarrow> string option \<Rightarrow> cursor option" where
  "sweep_cursor dates file =
     (case getLastCursor dates file of
        None \<Rightarrow> Some None
      | Some (Some ts, JStr i) \<Rightarrow> Some (Some (ts, i))
      | Some _ \<Rightarrow> None)"

subsection \<open>The sweep on the disk\<close>

record snapshot_dir =
  sd_files :: snapshot_files
  sd_cursor :: "string option"

record disk =
  dk_append :: "string \<Rightarrow> bool"
  dk_cursor :: bool

fun append_all :: "(string \<Rightarrow> bool) \<Rightarrow> (string \<times> audit_row list) list \<Rightarrow> snapshot_files \<Rightarrow> bool \<times> snapshot_files" where
  "append_all ok [] fs = (True, fs)"
| "append_all ok ((dateKey, logs) # gs) fs =
     (if ok dateKey then append_all ok gs (append_file dateKey (jsonl logs) fs) else (False, fs))"

text \<open>
  A failing query or write ends the sweep where it stands; what was appended before stays. A
  failed write of the cursor file leaves its text.
\<close>

definition runSweep :: "(string \<Rightarrow> int option) \<Rightarrow> disk \<Rightarrow> audit_row list \<Rightarrow> snapshot_dir \<Rightarrow> snapshot_dir" where
  "runSweep dates dk rows dir =
     (case sweep_cursor dates (sd_cursor dir) of
        None \<Rightarrow> dir
      | Some c \<Rightarrow>
          (let logs = logsToExport c rows
           in if logs = [] then dir
              else (case append_all (dk_append dk) (groupedByDate logs) (sd_files dir) of
                      (ok, fs) \<Rightarrow>
                        if ok \<and> dk_cursor dk then \<lparr>sd_files = fs, sd_cursor = Some (updateCursor (log_key (last logs)))\<rparr>
                        else dir\<lparr>sd_files := fs\<rparr>)))"

subsection \<open>The sweep on the parsed cursor\<close>

text \<open>The abstract sweep of a disk that takes every write; the sweep above refines it.\<close>

definition snapshot_sweep :: "audit_row list \<Rightarrow> cursor \<times> snapshot_files \<Rightarrow> cursor \<times> snapshot_files" where
  "snapshot_sweep rows st =
     (case st of (c, fs) \<Rightarrow>
        let logs = logsToExport c rows
        in if logs = [] then (c, fs)
           else (Some (log_key (last logs)),
                 fold (\<lambda>(k, rs) fs. append_file k (jsonl rs) fs) (groupedByDate logs) fs))"

definition good_disk :: disk where
  "good_disk = \<lparr>dk_append = (\<lambda>_. True), dk_cursor = True\<rparr>"

lemma append_all_good: "append_all (\<lambda>_. True) gs fs = (True, fold (\<lambda>(k, rs) fs. append_file k (jsonl rs) fs) gs fs)"
  by (induction "\<lambda>_ :: string. True" gs fs rule: append_all.induct) simp_all

text \<open>A key the cursor file can carry: an id of at least one character, a year of four digits.\<close>

definition storable :: "int \<times> string \<Rightarrow> bool" where
  "storable k \<longleftrightarrow> snd k \<noteq> [] \<and> four_digit_year (fst k)"

lemma cursor_reads_back:
  assumes "storable k"
  shows "sweep_cursor dates (Some (updateCursor k)) = Some (Some k)"
proof -
  obtain ts i where k: "k = (ts, i)" by fastforce
  let ?v = "JObj [(''timestamp'', JStr (iso_string ts)), (''id'', JStr i)]"
  have "hd (json_stringify ?v) = CHR ''{''" "last (json_stringify ?v) = CHR ''}''" "json_stringify ?v \<noteq> []"
    by simp_all
  then have "js_trim (json_stringify ?v) = json_stringify ?v"
    using trim_core [of "[]" "[]" "json_stringify ?v"] by (simp add: is_space_def code_def)
  moreover have "JSON_parse (json_stringify ?v) = Some ?v"
    using JSON_parse_stringify [of ?v "[]" "[]"] by (simp add: enumeration_def array_index_def list_all_iff is_digit_def code_def)
  ultimately show ?thesis
    using assms by (simp add: k storable_def sweep_cursor_def getLastCursor_def updateCursor_def date_reads_back)
qed

subsection \<open>What the files hold\<close>

definition lines_of :: "string \<Rightarrow> audit_row list \<Rightarrow> string" where
  "lines_of k rs = concat (map (\<lambda>r. json_stringify (audit_json r) @ line_end) (filter (\<lambda>r. date_key r = k) rs))"

lemma jsonl_lines: "rs \<noteq> [] \<Longrightarrow> jsonl rs = concat (map (\<lambda>r. json_stringify (audit_json r) @ line_end) rs)"
proof (induction rs rule: rev_induct)
  case (snoc r rs)
  then show ?case by (cases "rs = []") (simp_all add: jsonl_def join_snoc)
qed simp

lemma map_of_add: "map_of (add_to_group k r gs) = (map_of gs)(k \<mapsto> (case map_of gs k of None \<Rightarrow> [r] | Some rs \<Rightarrow> rs @ [r]))"
  by (induction k r gs rule: add_to_group.induct) (auto simp: fun_eq_iff)

lemma keys_add: "fst ` set (add_to_group k r gs) = insert k (fst ` set gs)"
  by (induction k r gs rule: add_to_group.induct) auto

lemma distinct_add: "distinct (map fst gs) \<Longrightarrow> distinct (map fst (add_to_group k r gs))"
  by (induction k r gs rule: add_to_group.induct) (auto simp: keys_add)

lemma grouped_groups:
  "distinct (map fst (groupedByDate rows)) \<and> map_of (groupedByDate rows) k =
     (if filter (\<lambda>r. date_key r = k) rows = [] then None else Some (filter (\<lambda>r. date_key r = k) rows))"
proof (induction rows rule: rev_induct)
  case Nil
  then show ?case by (simp add: groupedByDate_def)
next
  case (snoc r rows)
  have "groupedByDate (rows @ [r]) = add_to_group (date_key r) r (groupedByDate rows)" by (simp add: groupedByDate_def)
  then show ?case using snoc by (auto simp: map_of_add distinct_add)
qed

lemma append_groups:
  "distinct (map fst gs) \<Longrightarrow>
   fold (\<lambda>(k, rs) fs. append_file k (jsonl rs) fs) gs fs k =
     (case map_of gs k of None \<Rightarrow> fs k | Some rs \<Rightarrow> Some ((case fs k of None \<Rightarrow> [] | Some s \<Rightarrow> s) @ jsonl rs))"
proof (induction gs arbitrary: fs)
  case (Cons g gs)
  obtain k' rs where g: "g = (k', rs)" by fastforce
  have "k' \<notin> fst ` set gs" using Cons.prems g by simp
  then have "map_of gs k' = None" by (simp add: map_of_eq_None_iff)
  then show ?case using Cons g by (auto simp: append_file_def split: option.splits)
qed simp

text \<open>The rows up to the cursor, in order, and the text of a day.\<close>

definition exported :: "cursor \<Rightarrow> audit_row list \<Rightarrow> audit_row list" where
  "exported c rows = sort_key log_key (filter (\<lambda>r. \<not> after_cursor c r) rows)"

definition files_hold :: "audit_row list \<Rightarrow> snapshot_files \<Rightarrow> bool" where
  "files_hold rs fs \<longleftrightarrow> (\<forall>k. fs k = (if filter (\<lambda>r. date_key r = k) rs = [] then None else Some (lines_of k rs)))"

lemma files_hold_append:
  assumes "files_hold rs fs"
  shows "files_hold (rs @ logs) (fold (\<lambda>(k, rs) fs. append_file k (jsonl rs) fs) (groupedByDate logs) fs)"
  unfolding files_hold_def
proof
  fix k
  let ?l = "filter (\<lambda>r. date_key r = k) logs"
  have gs: "distinct (map fst (groupedByDate logs))" "map_of (groupedByDate logs) k = (if ?l = [] then None else Some ?l)"
    using grouped_groups [of logs k] by auto
  have "jsonl ?l = lines_of k logs" if "?l \<noteq> []" using jsonl_lines [OF that] by (simp add: lines_of_def)
  then show "fold (\<lambda>(k, rs) fs. append_file k (jsonl rs) fs) (groupedByDate logs) fs k
      = (if filter (\<lambda>r. date_key r = k) (rs @ logs) = [] then None else Some (lines_of k (rs @ logs)))"
    using assms unfolding append_groups [OF gs(1)] gs(2) files_hold_def by (auto simp: lines_of_def)
qed

subsection \<open>Keyset pagination\<close>

lemma after_key: "after_cursor (Some k) r \<longleftrightarrow> k < log_key r"
  by (cases k) (auto simp: after_cursor_def log_key_def less_prod_def)

definition ascending :: "audit_row list \<Rightarrow> bool" where
  "ascending rs \<longleftrightarrow> sorted_wrt (\<lambda>a b. log_key a < log_key b) rs"

lemma ascending_sort:
  assumes "distinct (map log_key rows)"
  shows "ascending (sort_key log_key rows)"
proof -
  have "sorted (map log_key (sort_key log_key rows))" by simp
  moreover have "distinct (map log_key (sort_key log_key rows))"
    using assms by (metis distinct_map distinct_sort inj_on_cong set_sort)
  ultimately have "sorted_wrt (<) (map log_key (sort_key log_key rows))" by (simp add: strict_sorted_iff)
  then show ?thesis by (simp add: ascending_def sorted_wrt_map)
qed

lemma cut_at_cursor:
  "ascending rs \<Longrightarrow> rs = filter (\<lambda>r. \<not> after_cursor c r) rs @ filter (after_cursor c) rs"
proof (induction rs)
  case (Cons r rs)
  show ?case
  proof (cases "after_cursor c r")
    case True
    have "after_cursor c q" if "q \<in> set rs" for q
      using True that Cons.prems by (cases c) (auto simp: after_key after_cursor_def [of None] ascending_def)
    then show ?thesis using True by (simp add: filter_id_conv filter_empty_conv)
  next
    case False
    then show ?thesis using Cons by (simp add: ascending_def)
  qed
qed simp

lemma cut_at_row:
  assumes "ascending (xs @ r # ys)"
  shows "filter (\<lambda>q. \<not> after_cursor (Some (log_key r)) q) (xs @ r # ys) = xs @ [r]"
  using assms by (force simp: after_key ascending_def sorted_wrt_append filter_id_conv filter_empty_conv)

lemma exported_filter: "exported c rows = filter (\<lambda>r. \<not> after_cursor c r) (sort_key log_key rows)"
  by (simp add: exported_def filter_sort)

lemma exported_advances:
  assumes "distinct (map log_key rows)" and "logsToExport c rows \<noteq> []"
  shows "exported (Some (log_key (last (logsToExport c rows)))) rows = exported c rows @ logsToExport c rows"
proof -
  let ?s = "sort_key log_key rows" and ?new = "sort_key log_key (filter (after_cursor c) rows)"
  let ?logs = "logsToExport c rows"
  have s: "?s = exported c rows @ ?new"
    using cut_at_cursor [OF ascending_sort [OF assms(1)], of c] by (simp add: exported_filter filter_sort)
  have "?new = ?logs @ drop batch_size ?new" by (simp add: logsToExport_def)
  then have split: "?s = (exported c rows @ butlast ?logs) @ last ?logs # drop batch_size ?new"
    using s assms(2) by (metis append.assoc append_butlast_last_id append_Cons append_Nil)
  have "ascending ((exported c rows @ butlast ?logs) @ last ?logs # drop batch_size ?new)"
    using ascending_sort [OF assms(1)] unfolding split .
  from cut_at_row [OF this] show ?thesis
    unfolding exported_filter [of "Some _"] split [symmetric] using assms(2) by simp
qed

lemma exported_all:
  assumes "distinct (map log_key rows)" and "logsToExport c rows = []"
  shows "exported c rows = sort_key log_key rows"
proof -
  have "sort_key log_key (filter (after_cursor c) rows) = []"
    using assms(2) by (auto simp: logsToExport_def batch_size_def take_eq_Nil)
  then show ?thesis
    using cut_at_cursor [OF ascending_sort [OF assms(1)], of c] by (simp add: exported_filter filter_sort)
qed

lemma exported_growth:
  "\<forall>r \<in> set new. after_cursor c r \<Longrightarrow> exported c (rows @ new) = exported c rows"
  by (simp add: exported_def filter_empty_conv)

lemma snapshot_sweep_holds:
  assumes "files_hold (exported c rows) fs" and "distinct (map log_key rows)" and "snapshot_sweep rows (c, fs) = (c', fs')"
  shows "files_hold (exported c' rows) fs'"
proof (cases "logsToExport c rows = []")
  case True
  then show ?thesis using assms by (simp add: snapshot_sweep_def)
next
  case False
  then have c': "c' = Some (log_key (last (logsToExport c rows)))"
    and fs': "fs' = fold (\<lambda>(k, rs) fs. append_file k (jsonl rs) fs) (groupedByDate (logsToExport c rows)) fs"
    using assms(3) by (simp_all add: snapshot_sweep_def Let_def)
  show ?thesis
    unfolding c' exported_advances [OF assms(2) False] fs' by (rule files_hold_append) (rule assms(1))
qed

text \<open>Sweeps over a log that grows between them, each time by rows after the cursor.\<close>

fun sweeps :: "audit_row list list \<Rightarrow> audit_row list \<times> cursor \<times> snapshot_files \<Rightarrow> audit_row list \<times> cursor \<times> snapshot_files" where
  "sweeps [] st = st"
| "sweeps (new # news) (rows, st) = sweeps news (rows @ new, snapshot_sweep (rows @ new) st)"

fun in_time :: "audit_row list list \<Rightarrow> audit_row list \<times> cursor \<times> snapshot_files \<Rightarrow> bool" where
  "in_time [] st = True"
| "in_time (new # news) (rows, c, fs) =
     (list_all (after_cursor c) new \<and> in_time news (rows @ new, snapshot_sweep (rows @ new) (c, fs)))"

lemma sweeps_rows: "fst (sweeps news (rows, st)) = rows @ concat news"
  by (induction news arbitrary: rows st) simp_all

lemma sweeps_hold:
  assumes "files_hold (exported c rows) fs" and "in_time news (rows, c, fs)" and "distinct (map log_key (rows @ concat news))"
    and "sweeps news (rows, c, fs) = (rows', c', fs')"
  shows "files_hold (exported c' rows') fs'"
  using assms
proof (induction news arbitrary: rows c fs)
  case (Cons new news)
  obtain c1 fs1 where sw: "snapshot_sweep (rows @ new) (c, fs) = (c1, fs1)" by fastforce
  have "exported c (rows @ new) = exported c rows" using Cons.prems(2) by (intro exported_growth) (simp add: list_all_iff)
  then have hold: "files_hold (exported c1 (rows @ new)) fs1"
    using Cons.prems by (intro snapshot_sweep_holds [OF _ _ sw]) auto
  show ?case by (rule Cons.IH [OF hold]) (use Cons.prems sw in simp_all)
qed simp

subsection \<open>The sweep on the disk refines the sweep on the cursor\<close>

definition dir_of :: "cursor \<times> snapshot_files \<Rightarrow> snapshot_dir" where
  "dir_of st = \<lparr>sd_files = snd st, sd_cursor = map_option updateCursor (fst st)\<rparr>"

definition storable_cursor :: "cursor \<Rightarrow> bool" where
  "storable_cursor c \<longleftrightarrow> (case c of None \<Rightarrow> True | Some k \<Rightarrow> storable k)"

lemma sweep_cursor_of: "storable_cursor c \<Longrightarrow> sweep_cursor dates (map_option updateCursor c) = Some c"
  by (cases c) (simp_all add: storable_cursor_def cursor_reads_back, simp add: sweep_cursor_def getLastCursor_def)

lemma logsToExport_rows: "set (logsToExport c rows) \<subseteq> set rows"
  by (auto simp: logsToExport_def dest: in_set_takeD)

lemma runSweep_refines:
  assumes "storable_cursor (fst st)" and "\<forall>r \<in> set rows. storable (log_key r)"
  shows "runSweep dates good_disk rows (dir_of st) = dir_of (snapshot_sweep rows st)
     \<and> storable_cursor (fst (snapshot_sweep rows st))"
proof (cases st)
  case (Pair c fs)
  show ?thesis
  proof (cases "logsToExport c rows = []")
    case True
    then show ?thesis using assms(1) Pair
      by (simp add: runSweep_def snapshot_sweep_def dir_of_def sweep_cursor_of)
  next
    case False
    then have "last (logsToExport c rows) \<in> set rows" using logsToExport_rows last_in_set by blast
    then have "storable (log_key (last (logsToExport c rows)))" using assms(2) by blast
    then show ?thesis using assms(1) Pair False
      by (simp add: runSweep_def snapshot_sweep_def dir_of_def sweep_cursor_of good_disk_def append_all_good storable_cursor_def Let_def)
  qed
qed

text \<open>Sweeps of the worker over a log that grows between them, from an empty directory.\<close>

fun sweep_runs :: "(string \<Rightarrow> int option) \<Rightarrow> audit_row list list \<Rightarrow> audit_row list \<times> snapshot_dir \<Rightarrow> audit_row list \<times> snapshot_dir" where
  "sweep_runs dates [] st = st"
| "sweep_runs dates (new # news) (rows, dir) = sweep_runs dates news (rows @ new, runSweep dates good_disk (rows @ new) dir)"

definition last_exported :: "(string \<Rightarrow> int option) \<Rightarrow> snapshot_dir \<Rightarrow> cursor" where
  "last_exported dates dir = (case sweep_cursor dates (sd_cursor dir) of None \<Rightarrow> None | Some c \<Rightarrow> c)"

fun on_time :: "(string \<Rightarrow> int option) \<Rightarrow> audit_row list list \<Rightarrow> audit_row list \<times> snapshot_dir \<Rightarrow> bool" where
  "on_time dates [] st = True"
| "on_time dates (new # news) (rows, dir) =
     (list_all (after_cursor (last_exported dates dir)) new
      \<and> on_time dates news (rows @ new, runSweep dates good_disk (rows @ new) dir))"

definition no_snapshots :: snapshot_dir where
  "no_snapshots = \<lparr>sd_files = Map.empty, sd_cursor = None\<rparr>"

lemma last_exported_of: "storable_cursor (fst st) \<Longrightarrow> last_exported dates (dir_of st) = fst st"
  by (simp add: last_exported_def dir_of_def sweep_cursor_of)

lemma sweep_runs_refine:
  assumes "storable_cursor (fst st)" and "\<forall>r \<in> set rows \<union> set (concat news). storable (log_key r)"
  shows "sweep_runs dates news (rows, dir_of st) = map_prod id dir_of (sweeps news (rows, st))
     \<and> on_time dates news (rows, dir_of st) = in_time news (rows, st)
     \<and> storable_cursor (fst (snd (sweeps news (rows, st))))"
  using assms
proof (induction news arbitrary: rows st)
  case (Cons new news)
  obtain c fs where st: "st = (c, fs)" by fastforce
  have "\<forall>r \<in> set (rows @ new). storable (log_key r)" using Cons.prems(2) by auto
  note step = runSweep_refines [OF Cons.prems(1) this, of dates]
  have "\<forall>r \<in> set (rows @ new) \<union> set (concat news). storable (log_key r)" using Cons.prems(2) by auto
  note rest = Cons.IH [OF conjunct2 [OF step] this]
  then show ?case using step last_exported_of [OF Cons.prems(1), of dates] by (simp add: st)
qed simp


subsection \<open>A failed write repeats rows\<close>

text \<open>
  When the cursor file cannot be written after the rows were appended, the next sweep appends the
  same rows again: every line of the batch is in its file twice.
\<close>

theorem failed_cursor_repeats:
  assumes "sweep_cursor dates (sd_cursor dir) = Some c" and "logsToExport c rows \<noteq> []"
    and "\<forall>k. dk_append dk k" and "\<not> dk_cursor dk" and "r \<in> set (logsToExport c rows)"
  shows "sd_files (runSweep dates good_disk rows (runSweep dates dk rows dir)) (date_key r)
    = Some ((case sd_files dir (date_key r) of None \<Rightarrow> [] | Some s \<Rightarrow> s)
            @ lines_of (date_key r) (logsToExport c rows) @ lines_of (date_key r) (logsToExport c rows))"
proof -
  let ?logs = "logsToExport c rows"
  let ?day = "filter (\<lambda>q. date_key q = date_key r) ?logs"
  have day: "?day \<noteq> []" using assms(5) by (auto simp: filter_empty_conv)
  have gs: "distinct (map fst (groupedByDate ?logs))" "map_of (groupedByDate ?logs) (date_key r) = Some ?day"
    using grouped_groups [of ?logs "date_key r"] day by auto
  have "dk_append dk = (\<lambda>_. True)" using assms(3) by auto
  then have once: "runSweep dates dk rows dir = dir\<lparr>sd_files := fold (\<lambda>(k, rs) fs. append_file k (jsonl rs) fs) (groupedByDate ?logs) (sd_files dir)\<rparr>"
    using assms(1,2,4) by (simp add: runSweep_def append_all_good)
  have "jsonl ?day = lines_of (date_key r) ?logs" using jsonl_lines [OF day] by (simp add: lines_of_def)
  then show ?thesis
    using assms(1,2) unfolding once
    by (simp add: runSweep_def good_disk_def append_all_good append_groups [OF gs(1)] gs(2) Let_def)
qed

end
