(* ===== verification/Pii.thy ===== *)
theory Pii
  imports Regex
begin

section \<open>Redaction of personal data (utils/pii.redactor.ts)\<close>

text \<open>
  The four sweeps over a string and the recursion over JSON values. The main result is that a
  redacted text has no match of any of the four patterns: a sweep leaves no match of its own
  pattern, and a later sweep cannot create one, because every replacement is in brackets and
  no pattern matches a bracket.
\<close>

subsection \<open>The patterns\<close>

definition ascii_alnum :: "char \<Rightarrow> bool" where
  "ascii_alnum c \<longleftrightarrow> is_digit c \<or> (65 \<le> code c \<and> code c \<le> 90) \<or> (97 \<le> code c \<and> code c \<le> 122)"

definition mail_char :: rex where
  "mail_char = Cls (\<lambda>c. ascii_alnum c \<or> c \<in> set ''._-'')"

definition mail_last :: rex where
  "mail_last = Cls (\<lambda>c. ascii_alnum c \<or> c \<in> set ''_-'')"

definition email_regex :: rex where
  "email_regex = seqs [plus1 mail_char, exact ''@'', plus1 mail_char, exact ''.'', plus1 mail_last]"

definition phone_sep :: rex where
  "phone_sep = Cls (\<lambda>c. c \<in> set ''-.'' \<or> is_space c)"

definition phone_regex :: rex where
  "phone_regex = seqs
     [opt (seqs [opt (exact ''+''), between 1 3 dig, opt phone_sep]),
      opt (seqs [opt (exact ''(''), times 3 dig, opt (exact '')''), opt phone_sep]),
      times 3 dig, opt phone_sep, times 4 dig]"

definition grouped_number :: rex where
  "grouped_number = seqs [between 1 3 dig, Star (Seq (exact '','') (times 3 dig)), opt (Seq (exact ''.'') (times 2 dig))]"

definition currency_regex :: rex where
  "currency_regex = Alt (Seq (exact ''$'') grouped_number)
     (seqs [grouped_number, sp0,
        alts [anycase ''USD'', anycase ''EUR'', anycase ''GBP'', anycase ''KHR'', anycase ''riel'', Seq (anycase ''dollar'') (opt (anycase ''s''))]])"

definition card_regex :: rex where
  "card_regex = between 13 19 (Seq dig (LazyStar (one_of '' -'')))"

subsection \<open>The sweeps\<close>

definition redact_email :: "string \<Rightarrow> string" where
  "redact_email s = re_replace email_regex ''[REDACTED_EMAIL]'' s"

definition redact_phone :: "string \<Rightarrow> string" where
  "redact_phone s = re_replace phone_regex ''[REDACTED_PHONE]'' s"

definition redact_currency :: "string \<Rightarrow> string" where
  "redact_currency s = re_replace currency_regex ''[REDACTED_AMOUNT]'' s"

definition redact_card :: "string \<Rightarrow> string" where
  "redact_card s = re_replace card_regex ''[REDACTED_ACCOUNT]'' s"

definition redact :: "string \<Rightarrow> string" where
  "redact text = (if text = [] then text else redact_card (redact_currency (redact_phone (redact_email text))))"

definition amount_key :: "string \<Rightarrow> bool" where
  "amount_key k \<longleftrightarrow> js_includes k ''amount'' \<or> js_includes k ''price'' \<or> js_includes k ''balance'' \<or> js_includes k ''cost''"

definition account_key :: "string \<Rightarrow> bool" where
  "account_key k \<longleftrightarrow> js_includes k ''account'' \<or> js_includes k ''card'' \<or> js_includes k ''phone''"

definition redact_number :: "string \<Rightarrow> num \<Rightarrow> json" where
  "redact_number key n =
     (let lowerKey = js_lower key
      in if amount_key lowerKey then JStr ''[REDACTED_NUMERIC_AMOUNT]''
         else if account_key lowerKey then JStr ''[REDACTED_COMPLIANCE_NUMBER]''
         else JNum n)"

fun redactObject :: "json \<Rightarrow> json" where
  "redactObject (JStr s) = JStr (redact s)"
| "redactObject (JArr xs) = JArr (map redactObject xs)"
| "redactObject (JObj kvs) = JObj (map (\<lambda>(k, v). (k, case v of JNum n \<Rightarrow> redact_number k n | _ \<Rightarrow> redactObject v)) kvs)"
| "redactObject v = v"

subsection \<open>Replacements leave no match\<close>

text \<open>A bracket-free prefix of a swept text is a prefix of the text, before any match.\<close>

lemma replace_prefix:
  assumes "t = CHR ''['' # t'" and "prefix v (replace_from r t b s)" and "CHR ''['' \<notin> set v"
  shows "prefix v s \<and> (v \<noteq> [] \<longrightarrow> matches_at r (b, s) = [])"
  using assms
proof (induction r t b s arbitrary: v rule: replace_from.induct)
  case (1 r t b s)
  show ?case
  proof (cases "matches_at r (b, s)")
    case Nil
    note no = this
    have pre: "prefix v (case s of [] \<Rightarrow> [] | c # s' \<Rightarrow> c # replace_from r t (Some c) s')"
      using "1.prems"(2) no by (subst (asm) replace_from.simps) simp
    show ?thesis
    proof (cases s)
      case (Cons c s')
      note IH = "1.IH"(1) [OF no Cons "1.prems"(1)]
      show ?thesis
      proof (cases v)
        case (Cons d v')
        with pre \<open>s = c # s'\<close> have "d = c" "prefix v' (replace_from r t (Some c) s')" by simp_all
        then show ?thesis using IH "1.prems"(3) no Cons \<open>s = c # s'\<close> by simp
      qed simp
    qed (use pre in simp)
  next
    case (Cons y ys)
    have "v = []"
      using "1.prems" Cons by (subst (asm) replace_from.simps) (auto simp: prefix_Cons split: if_splits)
    then show ?thesis by simp
  qed
qed

text \<open>
  D is a set of words without brackets. If no word of D lies in the replacement, and none
  starts where the sweep finds no match, none lies in the swept text.
\<close>

lemma sublist_bracketed:
  assumes "sublist v (CHR ''['' # mid @ '']'' @ rest)" and "v \<noteq> []" and "CHR ''['' \<notin> set v" and "CHR '']'' \<notin> set v"
  shows "sublist v mid \<or> sublist v rest"
proof -
  have "sublist v (mid @ CHR '']'' # rest)" using assms by (auto simp: sublist_Cons_right prefix_Cons)
  then consider "sublist v mid" | "sublist v (CHR '']'' # rest)"
    | v1 v2 where "v = v1 @ v2" "suffix v1 mid" "prefix v2 (CHR '']'' # rest)"
    by (auto simp: sublist_append)
  then show ?thesis
  proof cases
    case 2
    then show ?thesis using assms by (auto simp: sublist_Cons_right prefix_Cons)
  next
    case 3
    then have "v2 = []" using assms(4) by (auto simp: prefix_Cons)
    then show ?thesis using 3 by simp
  qed simp
qed

lemma replace_no_word:
  assumes "t = CHR ''['' # mid @ '']''"
    and words: "\<And>v. D v \<Longrightarrow> v \<noteq> [] \<and> CHR ''['' \<notin> set v \<and> CHR '']'' \<notin> set v"
    and mid: "\<And>v. sublist v mid \<Longrightarrow> \<not> D v"
    and gap: "\<And>b' s' v. suffix s' s \<Longrightarrow> matches_at r (b', s') = [] \<Longrightarrow> prefix v s' \<Longrightarrow> \<not> D v"
    and eats: "nonempty_words r" "no_bound r"
    and sub: "sublist v (replace_from r t b s)"
  shows "\<not> D v"
  using assms(1) gap eats sub
proof (induction r t b s rule: replace_from.induct)
  case (1 r t b s)
  show ?case
  proof
    assume "D v"
    then have v: "v \<noteq> []" "CHR ''['' \<notin> set v" "CHR '']'' \<notin> set v" using words by blast+
    show False
    proof (cases "matches_at r (b, s)")
      case Nil
      note no = this
      show False
      proof (cases s)
        case (Cons c s')
        have IH: "\<not> D v" if "sublist v (replace_from r t (Some c) s')"
          by (rule "1.IH"(1) [OF no Cons "1.prems"(1) _ "1.prems"(3,4) that], rule "1.prems"(2))
            (simp_all add: Cons suffix_Cons)
        have out: "replace_from r t b s = c # replace_from r t (Some c) s'"
          using no Cons by (subst replace_from.simps) simp
        then have "prefix v (replace_from r t b s)"
          using "1.prems"(5) IH \<open>D v\<close> by (auto simp: sublist_Cons_right)
        then have "prefix v s" using replace_prefix [OF "1.prems"(1)] v by blast
        then show False using "1.prems"(2) [OF suffix_order.refl no] \<open>D v\<close> by blast
      qed (use "1.prems"(5) no v in \<open>subst (asm) replace_from.simps, simp\<close>)
    next
      case (Cons y ys)
      have "rmatch r (b, s) y" using Cons by (simp add: matcher_complete [symmetric])
      then obtain u where u: "s = u @ snd y" "lang r u" using rmatch_word "1.prems"(4) by fastforce
      then have short: "length (snd y) < length s" using lang_nonempty "1.prems"(3) by auto
      have "suffix (snd y) s" using u by (simp add: suffix_def)
      have IH: "\<not> D v" if "sublist v (replace_from r t (fst y) (snd y))"
        by (rule "1.IH"(2) [OF Cons short "1.prems"(1) _ "1.prems"(3,4) that], rule "1.prems"(2))
          (use \<open>suffix (snd y) s\<close> in \<open>auto intro: suffix_order.trans\<close>)
      have "replace_from r t b s = CHR ''['' # mid @ '']'' @ replace_from r t (fst y) (snd y)"
        using Cons short "1.prems"(1) by (subst replace_from.simps) simp
      then have "sublist v mid \<or> sublist v (replace_from r t (fst y) (snd y))"
        using sublist_bracketed v "1.prems"(5) by simp
      then show False using mid IH \<open>D v\<close> by blast
    qed
  qed
qed

definition bracket_free :: "rex \<Rightarrow> bool" where
  "bracket_free r \<longleftrightarrow> no_bound r \<and> nonempty_words r \<and> avoids (CHR ''['') r \<and> avoids (CHR '']'') r"

lemma sweep_own:
  assumes "bracket_free r" and "\<not> re_test r mid"
  shows "\<not> re_test r (re_replace r (CHR ''['' # mid @ '']'') s)"
proof -
  have r: "no_bound r" "nonempty_words r" "avoids (CHR ''['') r" "avoids (CHR '']'') r" using assms(1) by (auto simp: bracket_free_def)
  have "\<not> lang r v" if "sublist v (replace_from r (CHR ''['' # mid @ '']'') None s)" for v
    by (rule replace_no_word [OF refl _ _ _ r(2,1) that])
      (use assms(2) lang_nonempty [OF _ r(2)] lang_avoids [OF _ r(3)] lang_avoids [OF _ r(4)] in
        \<open>auto simp: re_test_def re_match_def match_None_iff [OF r(1)] no_match_here [OF r(1)]\<close>)
  then show ?thesis by (simp add: re_test_def re_match_def re_replace_def match_None_iff [OF r(1)])
qed

lemma sweep_other:
  assumes "bracket_free r" and "bracket_free q" and "\<not> re_test q mid" and "\<not> re_test q s"
  shows "\<not> re_test q (re_replace r (CHR ''['' # mid @ '']'') s)"
proof -
  have r: "no_bound r" "nonempty_words r" using assms(1) by (auto simp: bracket_free_def)
  have q: "no_bound q" "nonempty_words q" "avoids (CHR ''['') q" "avoids (CHR '']'') q" using assms(2) by (auto simp: bracket_free_def)
  have clean: "\<And>v. sublist v s \<Longrightarrow> \<not> lang q v"
    using assms(4) by (auto simp: re_test_def re_match_def match_None_iff [OF q(1)])
  have "\<not> lang q v" if "sublist v (replace_from r (CHR ''['' # mid @ '']'') None s)" for v
  proof (rule replace_no_word [OF refl _ _ _ r(2,1) that])
    fix b' s' u
    assume "suffix s' s" "prefix u s'"
    then have "sublist u s" by (meson sublist_altdef')
    then show "\<not> lang q u" by (rule clean)
  qed (use assms(3) lang_nonempty [OF _ q(2)] lang_avoids [OF _ q(3)] lang_avoids [OF _ q(4)] in
        \<open>auto simp: re_test_def re_match_def match_None_iff [OF q(1)]\<close>)
  then show ?thesis by (simp add: re_test_def re_match_def re_replace_def match_None_iff [OF q(1)])
qed

subsection \<open>The four patterns\<close>

lemma pattern_shapes:
  "bracket_free email_regex" "bracket_free phone_regex" "bracket_free currency_regex" "bracket_free card_regex"
  by code_simp+

lemma tokens_clean:
  "list_all (\<lambda>r. list_all (\<lambda>t. \<not> re_test r t) [''REDACTED_EMAIL'', ''REDACTED_PHONE'', ''REDACTED_AMOUNT'', ''REDACTED_ACCOUNT''])
     [email_regex, phone_regex, currency_regex, card_regex]"
  by code_simp

text \<open>
  C40: a redacted text has no match of any of the four patterns: no e-mail address, telephone
  number, amount or account number in the sense of the patterns remains, and no sweep brings
  back what an earlier one removed.
\<close>

theorem redact_leaves_no_match:
  "list_all (\<lambda>r. \<not> re_test r (redact s)) [email_regex, phone_regex, currency_regex, card_regex]"
proof (cases "s = []")
  case True
  have "\<not> re_test r []" if "bracket_free r" for r
    using that lang_nonempty [of r] by (auto simp: bracket_free_def re_test_def re_match_def match_None_iff simp del: search.simps)
  then show ?thesis using True pattern_shapes by (simp add: redact_def)
next
  case False
  note shapes = pattern_shapes
  note clean = tokens_clean [simplified]
  let ?e = "redact_email s"
  let ?p = "redact_phone ?e"
  let ?c = "redact_currency ?p"
  let ?r = "redact_card ?c"
  have e: "\<not> re_test email_regex ?e"
    unfolding redact_email_def using sweep_own [OF shapes(1), of "''REDACTED_EMAIL''" s] clean by simp
  have p: "\<not> re_test email_regex ?p" "\<not> re_test phone_regex ?p"
    unfolding redact_phone_def using e clean sweep_own [OF shapes(2), of "''REDACTED_PHONE''" ?e]
      sweep_other [OF shapes(2,1), of "''REDACTED_PHONE''" ?e] by simp_all
  have c: "\<not> re_test email_regex ?c" "\<not> re_test phone_regex ?c" "\<not> re_test currency_regex ?c"
    unfolding redact_currency_def using p clean sweep_own [OF shapes(3), of "''REDACTED_AMOUNT''" ?p]
      sweep_other [OF shapes(3,1), of "''REDACTED_AMOUNT''" ?p] sweep_other [OF shapes(3,2), of "''REDACTED_AMOUNT''" ?p] by simp_all
  have "\<not> re_test email_regex ?r" "\<not> re_test phone_regex ?r" "\<not> re_test currency_regex ?r" "\<not> re_test card_regex ?r"
    unfolding redact_card_def using c clean sweep_own [OF shapes(4), of "''REDACTED_ACCOUNT''" ?c]
      sweep_other [OF shapes(4,1), of "''REDACTED_ACCOUNT''" ?c] sweep_other [OF shapes(4,2), of "''REDACTED_ACCOUNT''" ?c]
      sweep_other [OF shapes(4,3), of "''REDACTED_ACCOUNT''" ?c] by simp_all
  then show ?thesis using False by (simp add: redact_def)
qed

text \<open>
  A sixteen-digit card number is taken for a telephone number first, and its last three
  digits stay in the text.
\<close>

theorem card_tail_survives:
  "redact ''card 4111111111111234'' = ''card [REDACTED_PHONE]234''"
  by code_simp

end
