(* ===== verification/Api.thy ===== *)
theory Api
  imports Workflow Pii
begin

section \<open>The API handlers (api/controllers.ts, but for the override)\<close>

text \<open>
  Each handler takes the authenticated user. A handler that only reads answers the rows it sends
  as JSON (\<open>Inr\<close>) or an error reply (\<open>Inl\<close>); the JSON form of a row is the database client's.
  A request body that is missing is \<open>JNull\<close>. Queries without an order of the ties keep the
  order of insertion. Failures of the database other than a unique violation are not modelled,
  so neither are the 500 answers they lead to.
\<close>

type_synonym queue = "job list"

subsection \<open>Creating a task\<close>

datatype create_answer = Created task_row | Replayed task_row | Rejected reply

definition task_with_key :: "string \<Rightarrow> string \<Rightarrow> world \<Rightarrow> task_row option" where
  "task_with_key tenantId k w = find_first (\<lambda>t. t_tenantId t = tenantId \<and> t_idempotencyKey t = Some k) (tasks w)"

text \<open>
  The unique constraint on tenant and key; a task without a key conflicts with none.
\<close>

definition insert_task :: "runtime \<Rightarrow> int \<Rightarrow> string \<Rightarrow> string option \<Rightarrow> string \<Rightarrow> world \<Rightarrow> (exn + task_row) \<times> world" where
  "insert_task rt now tenantId key objective w =
     (if (case key of None \<Rightarrow> False | Some k \<Rightarrow> task_with_key tenantId k w \<noteq> None) then (Inl UniqueViolation, w)
      else (case fresh_uuid rt w of (i, w1) \<Rightarrow>
        (let t = \<lparr>t_id = i, t_tenantId = tenantId, t_idempotencyKey = key, t_objective = objective, t_status = T_PENDING,
                  t_expiresAt = None, t_version = 1, t_createdAt = now\<rparr>
         in (Inr t, w1\<lparr>tasks := tasks w1 @ [t]\<rparr>))))"

definition task_input :: "json \<Rightarrow> reply + string \<times> json option" where
  "task_input body =
     (if body = JNull then Inl (error_reply 500 ''Internal Server Error'')
      else (let objective = jget body ''objective''; context = jget body ''context'' in
        if \<not> truthy_opt objective then Inl (error_reply 400 ''Objective required'')
        else (case objective of
                Some (JStr s) \<Rightarrow>
                  if length s > 5000 then Inl (error_reply 400 ''Objective too long (max 5000 chars)'')
                  else (case context of
                          None \<Rightarrow> Inr (s, None)
                        | Some c \<Rightarrow>
                            (let contextStr = (case c of JStr x \<Rightarrow> x | _ \<Rightarrow> json_stringify c)
                             in if length contextStr > 50000 then Inl (error_reply 400 ''Context too large (max 50KB)'')
                                else Inr (s, Some c)))
              | _ \<Rightarrow> Inl (error_reply 400 ''Objective must be a string''))))"

text \<open>
  \<open>others\<close> is what other requests do between the look-up of the key and the insertion, and
  \<open>up\<close> says whether the queue takes the job; a failure to queue is only logged.
\<close>

definition createTask :: "runtime \<Rightarrow> int \<Rightarrow> (world \<Rightarrow> world) \<Rightarrow> bool \<Rightarrow> request \<Rightarrow> user \<Rightarrow> world \<times> queue \<Rightarrow> create_answer \<times> world \<times> queue" where
  "createTask rt now others up rq u s =
     (case s of (w, q) \<Rightarrow>
        (let key = header rq ''x-idempotency-key''; tenantId = us_tenant u;
             existing = (\<lambda>v. case key of None \<Rightarrow> None | Some k \<Rightarrow> task_with_key tenantId k v) in
         case task_input (rq_body rq) of
           Inl r \<Rightarrow> (Rejected r, w, q)
         | Inr (objective, context) \<Rightarrow>
             (case existing w of
                Some t \<Rightarrow> (Replayed t, w, q)
              | None \<Rightarrow>
                  (case insert_task rt now tenantId key objective (others w) of
                     (Inl e, w1) \<Rightarrow>
                       (case existing w1 of
                          Some t \<Rightarrow> (Replayed t, w1, q)
                        | None \<Rightarrow> (Rejected (error_reply 500 ''Internal Server Error''), w1, q))
                   | (Inr t, w1) \<Rightarrow>
                       (Created t, w1, if up then processTask (t_id t) objective context (Some tenantId) q else q)))))"

subsection \<open>Reading\<close>

definition getProposal :: "string \<Rightarrow> user \<Rightarrow> world \<Rightarrow> reply + proposal_row" where
  "getProposal i u w =
     (case find_proposal w i of
        Some p \<Rightarrow> if p_tenantId p \<noteq> us_tenant u then Inl (error_reply 404 ''Proposal not found'') else Inr p
      | None \<Rightarrow> Inl (error_reply 404 ''Proposal not found''))"

definition getDecision :: "string \<Rightarrow> user \<Rightarrow> world \<Rightarrow> reply + decision_row" where
  "getDecision proposalId u w =
     (case find_first (\<lambda>d. d_proposalId d = proposalId) (decisions w) of
        Some d \<Rightarrow> if d_tenantId d \<noteq> us_tenant u then Inl (error_reply 404 ''Decision not found'') else Inr d
      | None \<Rightarrow> Inl (error_reply 404 ''Decision not found''))"

text \<open>The proposal of a decision and the task of that proposal, which the foreign keys provide.\<close>

definition proposal_of :: "world \<Rightarrow> decision_row \<Rightarrow> proposal_row option" where
  "proposal_of w d = find_proposal w (d_proposalId d)"

definition task_of :: "world \<Rightarrow> decision_row \<Rightarrow> task_row option" where
  "task_of w d = (case proposal_of w d of None \<Rightarrow> None | Some p \<Rightarrow> find_task w (p_taskId p))"

definition getEscalatedDecisions :: "user \<Rightarrow> world \<Rightarrow> (decision_row \<times> proposal_row option \<times> task_row option) list" where
  "getEscalatedDecisions u w =
     map (\<lambda>d. (d, proposal_of w d, task_of w d))
       (take 50 (sort_key (\<lambda>d. - d_createdAt d)
         (filter (\<lambda>d. d_tenantId d = us_tenant u \<and> d_decisionType d = D_BLOCK_AND_ESCALATE) (decisions w))))"

definition getAuditLogs :: "user \<Rightarrow> world \<Rightarrow> audit_row list" where
  "getAuditLogs u w = take 100 (sort_key (\<lambda>r. - a_timestamp r) (filter (\<lambda>r. a_tenantId r = us_tenant u) (audits w)))"

subsection \<open>Metrics\<close>

text \<open>The groups of a column with their sizes.\<close>

definition group_counts :: "('r \<Rightarrow> 'k) \<Rightarrow> 'r list \<Rightarrow> ('k \<times> nat) list" where
  "group_counts f rows = map (\<lambda>k. (k, count_where (\<lambda>r. f r = k) rows)) (remdups (map f rows))"

record metrics =
  m_totalTasks :: nat
  m_states :: "(task_status \<times> nat) list"
  m_queue :: "nat \<times> nat \<times> nat"
  m_totalRawEvals :: nat
  m_outcomes :: "(decision_type \<times> nat) list"
  m_averageTaskLatencyMs :: int

definition completed_at :: "execution_row \<Rightarrow> int" where
  "completed_at e = (case e_completedAt e of None \<Rightarrow> 0 | Some t \<Rightarrow> t)"

definition recentExecutions :: "string \<Rightarrow> world \<Rightarrow> execution_row list" where
  "recentExecutions tenantId w =
     take 100 (sort_key (\<lambda>e. - completed_at e)
       (filter (\<lambda>e. e_tenantId e = tenantId \<and> e_status e = E_COMPLETED \<and> e_completedAt e \<noteq> None) (executions w)))"

definition created_at :: "world \<Rightarrow> execution_row \<Rightarrow> int option" where
  "created_at w e = (case find_decision w (e_decisionId e) of None \<Rightarrow> None | Some d \<Rightarrow> map_option t_createdAt (task_of w d))"

text \<open>\<open>Math.round\<close> of the quotient, halves up.\<close>

definition rounded_average :: "int list \<Rightarrow> int" where
  "rounded_average xs = (if xs = [] then 0 else (2 * sum_list xs + int (length xs)) div (2 * int (length xs)))"

text \<open>The counts of the job queue are of the queue as a whole, not of the tenant.\<close>

definition getMetrics :: "nat \<times> nat \<times> nat \<Rightarrow> user \<Rightarrow> world \<Rightarrow> metrics" where
  "getMetrics queueCounts u w =
     (let t = us_tenant u;
          own_tasks = filter (\<lambda>r. t_tenantId r = t) (tasks w);
          own_decisions = filter (\<lambda>d. d_tenantId d = t) (decisions w);
          latency = (\<lambda>e. completed_at e - (case created_at w e of None \<Rightarrow> 0 | Some c \<Rightarrow> c))
      in \<lparr>m_totalTasks = length own_tasks, m_states = group_counts t_status own_tasks, m_queue = queueCounts,
          m_totalRawEvals = length own_decisions, m_outcomes = group_counts d_decisionType own_decisions,
          m_averageTaskLatencyMs = rounded_average (map latency (recentExecutions t w))\<rparr>)"

subsection \<open>The training data\<close>

definition training_example :: "world \<Rightarrow> decision_row \<Rightarrow> string" where
  "training_example w d =
     (let opt = (case proposal_of w d of None \<Rightarrow> JNull | Some p \<Rightarrow> p_recommendedOption p);
          objective = (case task_of w d of None \<Rightarrow> [] | Some t \<Rightarrow> t_objective t)
      in json_stringify (JObj
           [(''prompt'', JStr (''Objective: '' @ redact objective @ nl @ ''Attempted Proposal: '' @ json_stringify (redactObject opt))),
            (''completion'', JStr ''REJECTED. You must reconsider the constraints before proposing this action.'')]) @ nl)"

definition getTrainingDataset :: "user \<Rightarrow> world \<Rightarrow> reply + string" where
  "getTrainingDataset u w =
     (let rejected = filter (\<lambda>d. d_tenantId d = us_tenant u
            \<and> (d_decisionType d = D_REJECT_AND_REPLAN \<or> d_decisionType d = D_BLOCK_AND_ESCALATE)) (decisions w)
      in if rejected = [] then Inl (Reply 404 (JObj [(''message'', JStr ''No rejected proposals found for training.'')]))
         else Inr (concat (map (training_example w) rejected)))"

subsection \<open>Policy rollback\<close>

definition rollback_audit :: "user \<Rightarrow> string \<Rightarrow> audit_details" where
  "rollback_audit u versionHash =
     (log_entry (us_tenant u) (JObj
        [(''actor'', JStr ''Admin''), (''action'', JStr ''policy_rollback''), (''targetVersion'', JStr versionHash),
         (''performedBy'', JStr (if us_id u = [] then ''unknown'' else us_id u))]))
     \<lparr>l_policyVersion := Some versionHash\<rparr>"

definition swap_policies :: "string \<Rightarrow> string \<Rightarrow> policy_row list \<Rightarrow> policy_row list" where
  "swap_policies tenantId target rows =
     update_where (\<lambda>g. g_id g = target) (\<lambda>g. g\<lparr>g_isActive := True\<rparr>)
       (update_where (\<lambda>g. g_isActive g \<and> g_tenantId g = tenantId) (\<lambda>g. g\<lparr>g_isActive := False\<rparr>) rows)"

text \<open>A version hash that is truthy but no string is refused by the database client.\<close>

definition rollbackPolicy :: "runtime \<Rightarrow> int \<Rightarrow> json \<Rightarrow> user \<Rightarrow> world \<Rightarrow> reply \<times> world" where
  "rollbackPolicy rt now body u w =
     (if body = JNull then (error_reply 500 ''Policy Rollback Failed'', w)
      else if \<not> truthy_opt (jget body ''versionHash'') then (error_reply 400 ''versionHash is required'', w)
      else (case jget body ''versionHash'' of
              Some (JStr h) \<Rightarrow>
                (case find_first (\<lambda>g. g_versionHash g = h \<and> g_tenantId g = us_tenant u) (policies w) of
                   None \<Rightarrow> (error_reply 404 ''Policy version not found in registry'', w)
                 | Some g \<Rightarrow>
                     (Reply 200 (JObj [(''message'', JStr (''Successfully rolled back active policy to version: '' @ h))]),
                      logAction rt now (rollback_audit u h) (w\<lparr>policies := swap_policies (us_tenant u) (g_id g) (policies w)\<rparr>)))
            | _ \<Rightarrow> (error_reply 500 ''Policy Rollback Failed'', w)))"

subsection \<open>The health of the server (server.ts)\<close>

definition health_text :: "bool \<Rightarrow> json" where
  "health_text up = JStr (if up then ''ok'' else ''error'')"

definition health :: "bool \<Rightarrow> bool \<Rightarrow> reply" where
  "health database_up redis_up =
     (let healthy = (database_up \<and> redis_up)
      in Reply (if healthy then 200 else 503) (JObj
           [(''status'', JStr (if healthy then ''healthy'' else ''degraded'')),
            (''checks'', JObj [(''server'', JStr ''ok''), (''database'', health_text database_up), (''redis'', health_text redis_up)])]))"

end
