(* ===== verification/Api_Laws.thy ===== *)
theory Api_Laws
  imports Api
begin

section \<open>Laws of the API: idempotent creation, isolation of tenants, policy rollback\<close>

subsection \<open>Creation under an idempotency key\<close>

text \<open>What other requests may do in between: tasks and their keys stay.\<close>

definition keeps_keys :: "(world \<Rightarrow> world) \<Rightarrow> bool" where
  "keeps_keys f \<longleftrightarrow> (\<forall>w t k. task_with_key t k w \<noteq> None \<longrightarrow> task_with_key t k (f w) \<noteq> None)"

record creation =
  cn_now :: int
  cn_others :: "world \<Rightarrow> world"
  cn_up :: bool
  cn_request :: request
  cn_user :: user

definition create_one :: "runtime \<Rightarrow> creation \<Rightarrow> world \<times> queue \<Rightarrow> create_answer \<times> world \<times> queue" where
  "create_one rt c s = createTask rt (cn_now c) (cn_others c) (cn_up c) (cn_request c) (cn_user c) s"

fun create_all :: "runtime \<Rightarrow> creation list \<Rightarrow> world \<times> queue \<Rightarrow> create_answer list \<times> world \<times> queue" where
  "create_all rt [] s = ([], s)"
| "create_all rt (c # cs) s =
     (case create_one rt c s of (a, s1) \<Rightarrow> case create_all rt cs s1 of (as, s2) \<Rightarrow> (a # as, s2))"

definition creates :: "string \<Rightarrow> string \<Rightarrow> create_answer \<Rightarrow> bool" where
  "creates t k a \<longleftrightarrow> (case a of Created x \<Rightarrow> t_tenantId x = t \<and> t_idempotencyKey x = Some k | _ \<Rightarrow> False)"

lemma insert_cases:
  assumes "insert_task rt now t key ob w = (x, w')"
  obtains (conflict) k where "key = Some k" "task_with_key t k w \<noteq> None" "x = Inl UniqueViolation" "w' = w"
  | (inserted) r where "x = Inr r" "t_tenantId r = t" "t_idempotencyKey r = key" "tasks w' = tasks w @ [r]"
      "\<And>k. key = Some k \<Longrightarrow> task_with_key t k w = None"
proof (cases "case key of None \<Rightarrow> False | Some k \<Rightarrow> task_with_key t k w \<noteq> None")
  case True
  then obtain k where k: "key = Some k" "task_with_key t k w \<noteq> None" by (cases key) simp_all
  moreover have "x = Inl UniqueViolation" "w' = w" using assms True by (simp_all add: insert_task_def)
  ultimately show thesis by (rule conflict)
next
  case False
  then obtain r where r: "x = Inr r" "t_tenantId r = t" "t_idempotencyKey r = key" "tasks w' = tasks w @ [r]"
    using assms by (auto simp: insert_task_def fresh_uuid_def Let_def)
  have "task_with_key t k w = None" if "key = Some k" for k using False that by simp
  then show thesis by (rule inserted [OF r])
qed

lemma with_key_append:
  "task_with_key t k w \<noteq> None \<Longrightarrow> tasks w' = tasks w @ rs \<Longrightarrow> task_with_key t k w' \<noteq> None"
  by (auto simp: task_with_key_def find_first_append)

lemma create_one_effect:
  assumes "create_one rt c (w, q) = (a, w', q')" and "keeps_keys (cn_others c)"
  shows "task_with_key t k w \<noteq> None \<Longrightarrow> task_with_key t k w' \<noteq> None \<and> \<not> creates t k a"
    and "creates t k a \<Longrightarrow> task_with_key t k w' \<noteq> None"
    and "length q' \<le> length q + (case a of Created x \<Rightarrow> 1 | _ \<Rightarrow> 0)"
proof -
  let ?v = "cn_others c w"
  have keep: "task_with_key t k w \<noteq> None \<Longrightarrow> task_with_key t k ?v \<noteq> None" for t k
    using assms(2) by (simp add: keeps_keys_def)
  have all: "(task_with_key t k w \<noteq> None \<longrightarrow> task_with_key t k w' \<noteq> None \<and> \<not> creates t k a)
      \<and> (creates t k a \<longrightarrow> task_with_key t k w' \<noteq> None) \<and> length q' \<le> length q + (case a of Created x \<Rightarrow> 1 | _ \<Rightarrow> 0)"
  proof (cases "(w' = w \<or> w' = ?v) \<and> q' = q \<and> (\<forall>x. a \<noteq> Created x)")
    case True
    then show ?thesis using keep by (auto simp: creates_def split: create_answer.split)
  next
    case False
    then obtain ob cx r where ins: "insert_task rt (cn_now c) (us_tenant (cn_user c)) (header (cn_request c) ''x-idempotency-key'') ob ?v = (Inr r, w')"
      and a: "a = Created r" and q: "length q' \<le> length q + 1"
      using assms(1) by (auto simp: create_one_def createTask_def Let_def insert_task_def fresh_uuid_def processTask_def
          split: sum.splits prod.splits option.splits if_splits)
    from ins show ?thesis
    proof (cases rule: insert_cases)
      case (inserted r')
      then have r: "r' = r" by simp
      have "task_with_key t k w' \<noteq> None" if "t_tenantId r = t" "t_idempotencyKey r = Some k"
        using inserted(4) that r by (auto simp: task_with_key_def find_first_append split: option.splits)
      moreover have "\<not> creates t k a" if "task_with_key t k w \<noteq> None"
        using inserted(2,3,5) keep [OF that] a r by (auto simp: creates_def)
      moreover have "task_with_key t k w' \<noteq> None" if "task_with_key t k w \<noteq> None"
        using with_key_append [OF keep [OF that] inserted(4)] .
      ultimately show ?thesis using a q by (auto simp: creates_def)
    qed simp
  qed
  show "task_with_key t k w \<noteq> None \<Longrightarrow> task_with_key t k w' \<noteq> None \<and> \<not> creates t k a"
    and "creates t k a \<Longrightarrow> task_with_key t k w' \<noteq> None"
    and "length q' \<le> length q + (case a of Created x \<Rightarrow> 1 | _ \<Rightarrow> 0)" using all by blast+
qed

lemma create_all_once:
  assumes "create_all rt cs (w, q) = (as, w', q')" and "\<forall>c \<in> set cs. keeps_keys (cn_others c)"
  shows "length (filter (creates t k) as) \<le> (if task_with_key t k w = None then 1 else 0)"
  using assms
proof (induction cs arbitrary: w q as)
  case (Cons c cs)
  obtain a w1 q1 where one: "create_one rt c (w, q) = (a, w1, q1)" by (metis prod_cases3)
  obtain bs where rest: "create_all rt cs (w1, q1) = (bs, w', q')" and as: "as = a # bs"
    using Cons.prems(1) one by (auto split: prod.splits)
  have keep: "keeps_keys (cn_others c)" using Cons.prems(2) by simp
  note eff = create_one_effect(1,2) [OF one keep, of t k]
  have "length (filter (creates t k) bs) \<le> (if task_with_key t k w1 = None then 1 else 0)"
    using Cons.IH [OF rest] Cons.prems(2) by simp
  then show ?case using eff(1,2) as by (auto split: if_splits)
qed simp

lemma create_all_queue:
  assumes "create_all rt cs (w, q) = (as, w', q')" and "\<forall>c \<in> set cs. keeps_keys (cn_others c)"
  shows "length q' \<le> length q + length (filter (\<lambda>a. case a of Created x \<Rightarrow> True | _ \<Rightarrow> False) as)"
  using assms
proof (induction cs arbitrary: w q as)
  case (Cons c cs)
  obtain a w1 q1 where one: "create_one rt c (w, q) = (a, w1, q1)" by (metis prod_cases3)
  obtain bs where rest: "create_all rt cs (w1, q1) = (bs, w', q')" and as: "as = a # bs"
    using Cons.prems(1) one by (auto split: prod.splits)
  have keep: "keeps_keys (cn_others c)" using Cons.prems(2) by simp
  show ?case
    using create_one_effect(3) [OF one keep] Cons.IH [OF rest] Cons.prems(2) as by (auto split: create_answer.splits)
qed simp


subsection \<open>Isolation of tenants\<close>

text \<open>Two stores with the same rows of a tenant.\<close>

definition agree :: "string \<Rightarrow> world \<Rightarrow> world \<Rightarrow> bool" where
  "agree t w w' \<longleftrightarrow> filter (\<lambda>r. t_tenantId r = t) (tasks w) = filter (\<lambda>r. t_tenantId r = t) (tasks w')
     \<and> filter (\<lambda>r. p_tenantId r = t) (proposals w) = filter (\<lambda>r. p_tenantId r = t) (proposals w')
     \<and> filter (\<lambda>r. d_tenantId r = t) (decisions w) = filter (\<lambda>r. d_tenantId r = t) (decisions w')
     \<and> filter (\<lambda>r. e_tenantId r = t) (executions w) = filter (\<lambda>r. e_tenantId r = t) (executions w')
     \<and> filter (\<lambda>r. a_tenantId r = t) (audits w) = filter (\<lambda>r. a_tenantId r = t) (audits w')"

text \<open>Ids are unique and references stay inside a tenant.\<close>

definition tenancy :: "world \<Rightarrow> bool" where
  "tenancy w \<longleftrightarrow> distinct (map t_id (tasks w)) \<and> distinct (map p_id (proposals w)) \<and> distinct (map d_id (decisions w))
     \<and> (\<forall>p \<in> set (proposals w). \<exists>r. find_task w (p_taskId p) = Some r \<and> t_tenantId r = p_tenantId p)
     \<and> (\<forall>d \<in> set (decisions w). \<exists>p. find_proposal w (d_proposalId d) = Some p \<and> p_tenantId p = d_tenantId d)
     \<and> (\<forall>e \<in> set (executions w). \<exists>d. find_decision w (e_decisionId e) = Some d \<and> d_tenantId d = e_tenantId e)"

text \<open>A row found by its id is seen alike when it is the tenant's own.\<close>

lemma own_row_agrees:
  assumes "distinct (map k rows')" and "filter (\<lambda>r. ten r = t) rows = filter (\<lambda>r. ten r = t) rows'"
    and "find_first (\<lambda>r. k r = i) rows = Some r" and "ten r = t"
  shows "find_first (\<lambda>r. k r = i) rows' = Some r"
proof -
  have "r \<in> set (filter (\<lambda>r. ten r = t) rows)" using assms(3,4) by auto
  then have "r \<in> set rows'" using assms(2) by simp
  moreover have "k r = i" using assms(3) by auto
  ultimately show ?thesis using find_first_key [of k rows' r i] assms(1) by simp
qed

definition views :: "string \<Rightarrow> world \<Rightarrow> world \<Rightarrow> bool" where
  "views t w w' \<longleftrightarrow> agree t w w' \<and> tenancy w \<and> tenancy w'"

lemma views_sym: "views t w w' \<Longrightarrow> views t w' w"
  by (simp add: views_def agree_def)

lemma proposal_agrees:
  "views t w w' \<Longrightarrow> p_tenantId p = t \<Longrightarrow> find_proposal w i = Some p \<Longrightarrow> find_proposal w' i = Some p"
  using own_row_agrees [of p_id "proposals w'" p_tenantId t "proposals w" i p]
  by (simp add: views_def agree_def tenancy_def find_proposal_def)

lemma task_agrees:
  "views t w w' \<Longrightarrow> t_tenantId r = t \<Longrightarrow> find_task w i = Some r \<Longrightarrow> find_task w' i = Some r"
  using own_row_agrees [of t_id "tasks w'" t_tenantId t "tasks w" i r]
  by (simp add: views_def agree_def tenancy_def find_task_def)

lemma decision_agrees:
  "views t w w' \<Longrightarrow> d_tenantId d = t \<Longrightarrow> find_decision w i = Some d \<Longrightarrow> find_decision w' i = Some d"
  using own_row_agrees [of d_id "decisions w'" d_tenantId t "decisions w" i d]
  by (simp add: views_def agree_def tenancy_def find_decision_def)

lemma joins_agree:
  assumes "views t w w'" and "d \<in> set (decisions w)" and "d_tenantId d = t"
  shows "proposal_of w d = proposal_of w' d" and "task_of w d = task_of w' d"
proof -
  have wf: "tenancy w" using assms(1) by (simp add: views_def)
  obtain p where p: "find_proposal w (d_proposalId d) = Some p" "p_tenantId p = t" using wf assms(2,3) by (auto simp: tenancy_def)
  then have "p \<in> set (proposals w)" by (auto simp: find_proposal_def)
  then obtain r where r: "find_task w (p_taskId p) = Some r" "t_tenantId r = t" using wf p(2) by (auto simp: tenancy_def)
  show "proposal_of w d = proposal_of w' d" using proposal_agrees [OF assms(1)] p by (simp add: proposal_of_def)
  have "proposal_of w d = Some p" "proposal_of w' d = Some p" using proposal_agrees [OF assms(1) p(2,1)] p(1) by (simp_all add: proposal_of_def)
  then show "task_of w d = task_of w' d" using r task_agrees [OF assms(1) r(2,1)] by (simp add: task_of_def)
qed

lemma created_agrees:
  assumes "views t w w'" and "e \<in> set (executions w)" and "e_tenantId e = t"
  shows "created_at w e = created_at w' e"
proof -
  have "tenancy w" using assms(1) by (simp add: views_def)
  then obtain d where d: "find_decision w (e_decisionId e) = Some d" "d_tenantId d = t" using assms by (auto simp: tenancy_def)
  then have "d \<in> set (decisions w)" by (auto simp: find_decision_def)
  then show ?thesis using d decision_agrees [OF assms(1)] joins_agree(2) [OF assms(1)] by (simp add: created_at_def)
qed

text \<open>All decisions on a proposal belong to its tenant, so the first one shows whose they are.\<close>

lemma decision_of_agrees:
  assumes v: "views t w w'" and d: "find_first (\<lambda>d. d_proposalId d = i) (decisions w) = Some d" "d_tenantId d = t"
  shows "find_first (\<lambda>d. d_proposalId d = i) (decisions w') = Some d"
proof -
  have ten: "d_tenantId x = t" if "x \<in> set (decisions v)" "d_proposalId x = i" "v = w \<or> v = w'" for x v
  proof -
    have "d \<in> set (decisions w)" "d_proposalId d = i" using d(1) find_first_Some by fastforce+
    then have "\<exists>p. find_proposal w i = Some p \<and> p_tenantId p = t" using v d(2) by (auto simp: views_def tenancy_def)
    then have "\<exists>p. find_proposal v i = Some p \<and> p_tenantId p = t" using proposal_agrees [OF v] that(3) by auto
    moreover have "tenancy v" using v that(3) by (auto simp: views_def)
    ultimately show ?thesis using that(1,2) by (auto simp: tenancy_def)
  qed
  have first: "find_first (\<lambda>d. d_proposalId d = i) xs = find_first (\<lambda>d. d_proposalId d = i) (filter (\<lambda>d. d_tenantId d = t) xs)"
    if "\<forall>x \<in> set xs. d_proposalId x = i \<longrightarrow> d_tenantId x = t" for xs
    using that by (induction xs) auto
  have "filter (\<lambda>d. d_tenantId d = t) (decisions w) = filter (\<lambda>d. d_tenantId d = t) (decisions w')"
    using v by (simp add: views_def agree_def)
  then show ?thesis using d(1) first [of "decisions w"] first [of "decisions w'"] ten by simp
qed

lemma reads_agree_on_found:
  assumes "views (us_tenant u) w w'"
  shows "getProposal i u w = Inr p \<Longrightarrow> getProposal i u w' = Inr p"
    and "getDecision i u w = Inr d \<Longrightarrow> getDecision i u w' = Inr d"
  using proposal_agrees [OF assms] decision_of_agrees [OF assms]
  by (auto simp: getProposal_def getDecision_def split: option.splits if_splits)

lemma reads_refuse:
  "getProposal i u w = Inl r \<Longrightarrow> r = error_reply 404 ''Proposal not found''"
  "getDecision i u w = Inl r \<Longrightarrow> r = error_reply 404 ''Decision not found''"
  by (auto simp: getProposal_def getDecision_def split: option.splits if_splits)

lemma same_answers:
  assumes "\<And>x. a = Inr x \<Longrightarrow> b = Inr x" and "\<And>x. b = Inr x \<Longrightarrow> a = Inr x"
    and "\<And>r. a = Inl r \<Longrightarrow> r = e" and "\<And>r. b = Inl r \<Longrightarrow> r = e"
  shows "a = b"
  using assms by (cases a; cases b) auto

lemma single_reads_agree:
  assumes "views (us_tenant u) w w'"
  shows "getProposal i u w = getProposal i u w'" and "getDecision i u w = getDecision i u w'"
  using reads_agree_on_found [OF assms, of i] reads_agree_on_found [OF views_sym [OF assms], of i] reads_refuse
  by - (rule same_answers; blast)+

lemma own_filter:
  assumes "agree t w w'"
  shows "filter (\<lambda>d. d_tenantId d = t \<and> P d) (decisions w) = filter (\<lambda>d. d_tenantId d = t \<and> P d) (decisions w')"
    and "filter (\<lambda>e. e_tenantId e = t \<and> Q e) (executions w) = filter (\<lambda>e. e_tenantId e = t \<and> Q e) (executions w')"
proof -
  have own: "filter P (filter (\<lambda>d. d_tenantId d = t) (decisions w)) = filter P (filter (\<lambda>d. d_tenantId d = t) (decisions w'))"
    "filter Q (filter (\<lambda>e. e_tenantId e = t) (executions w)) = filter Q (filter (\<lambda>e. e_tenantId e = t) (executions w'))"
    using assms by (simp_all only: agree_def)
  show "filter (\<lambda>d. d_tenantId d = t \<and> P d) (decisions w) = filter (\<lambda>d. d_tenantId d = t \<and> P d) (decisions w')"
    and "filter (\<lambda>e. e_tenantId e = t \<and> Q e) (executions w) = filter (\<lambda>e. e_tenantId e = t \<and> Q e) (executions w')"
    using own by (simp_all only: filter_filter)
qed

lemma escalated_agree:
  assumes "views (us_tenant u) w w'"
  shows "getEscalatedDecisions u w = getEscalatedDecisions u w'"
proof -
  let ?ds = "\<lambda>w. take 50 (sort_key (\<lambda>d. - d_createdAt d)
         (filter (\<lambda>d. d_tenantId d = us_tenant u \<and> d_decisionType d = D_BLOCK_AND_ESCALATE) (decisions w)))"
  have "agree (us_tenant u) w w'" using assms by (simp add: views_def)
  then have "?ds w' = ?ds w" by (simp only: own_filter(1))
  moreover have "(d, proposal_of w d, task_of w d) = (d, proposal_of w' d, task_of w' d)" if "d \<in> set (?ds w)" for d
    using in_set_takeD [OF that] joins_agree [OF assms] by simp
  ultimately show ?thesis unfolding getEscalatedDecisions_def by (metis (no_types, lifting) map_cong)
qed

lemma metrics_agree:
  assumes "views (us_tenant u) w w'"
  shows "getMetrics qc u w = getMetrics qc u w'"
proof -
  have ag: "agree (us_tenant u) w w'" using assms by (simp add: views_def)
  have "recentExecutions (us_tenant u) w = recentExecutions (us_tenant u) w'"
    by (simp add: recentExecutions_def own_filter(2) [OF ag])
  moreover have "created_at w e = created_at w' e" if "e \<in> set (recentExecutions (us_tenant u) w)" for e
    using that by (intro created_agrees [OF assms]) (auto simp: recentExecutions_def dest!: in_set_takeD)
  ultimately show ?thesis using ag by (simp add: getMetrics_def agree_def Let_def cong: map_cong)
qed

lemma dataset_agree:
  assumes "views (us_tenant u) w w'"
  shows "getTrainingDataset u w = getTrainingDataset u w'"
proof -
  have ag: "agree (us_tenant u) w w'" using assms by (simp add: views_def)
  let ?ds = "\<lambda>w. filter (\<lambda>d. d_tenantId d = us_tenant u
      \<and> (d_decisionType d = D_REJECT_AND_REPLAN \<or> d_decisionType d = D_BLOCK_AND_ESCALATE)) (decisions w)"
  have "training_example w d = training_example w' d" if "d \<in> set (decisions w)" "d_tenantId d = us_tenant u" for d
    using joins_agree [OF assms that] by (simp add: training_example_def)
  then have "map (training_example w) (?ds w) = map (training_example w') (?ds w)" by (intro map_cong) auto
  moreover have "?ds w' = ?ds w" by (simp only: own_filter(1) [OF ag])
  ultimately show ?thesis by (simp only: getTrainingDataset_def Let_def)
qed


subsection \<open>Policy rollback\<close>

lemma find_first_filter: "filter p rows = r # rs \<Longrightarrow> find_first p rows = Some r"
  by (induction rows) (auto split: if_splits)

lemma swap_active:
  assumes "distinct (map g_id rows)" and "g \<in> set rows" and "g_tenantId g = t"
  shows "filter (\<lambda>x. g_isActive x \<and> g_tenantId x = t) (swap_policies t (g_id g) rows) = [g\<lparr>g_isActive := True\<rparr>]"
    and "filter (\<lambda>x. g_tenantId x \<noteq> t) (swap_policies t (g_id g) rows) = filter (\<lambda>x. g_tenantId x \<noteq> t) rows"
  using assms
proof (induction rows)
  case (Cons x rows)
  have none: "filter (\<lambda>x. g_isActive x \<and> g_tenantId x = t) (swap_policies t i rows) = []
      \<and> filter (\<lambda>x. g_tenantId x \<noteq> t) (swap_policies t i rows) = filter (\<lambda>x. g_tenantId x \<noteq> t) rows"
    if "i \<notin> g_id ` set rows" for i
    using that by (induction rows) (auto simp: swap_policies_def)
  {
    case 1
    then show ?case using Cons.IH(1) none [of "g_id g"] by (auto simp: swap_policies_def)
  next
    case 2
    then show ?case using Cons.IH(2) none [of "g_id g"] by (auto simp: swap_policies_def)
  }
qed simp_all

text \<open>
  C33: a policy rollback takes effect. After it succeeds exactly one version of the tenant is
  active, the requested one; the next evaluation of the tenant loads the rules of that version,
  and the versions of every other tenant are untouched.
\<close>

theorem rollback_takes_effect:
  assumes "distinct (map g_id (policies w))" and "rollbackPolicy rt now body u w = (Reply 200 r, w')"
  shows "\<exists>g. g \<in> set (policies w) \<and> g_tenantId g = us_tenant u \<and> jget body ''versionHash'' = Some (JStr (g_versionHash g))
     \<and> filter (\<lambda>x. g_isActive x \<and> g_tenantId x = us_tenant u) (policies w') = [g\<lparr>g_isActive := True\<rparr>]
     \<and> load_policies rt cfg (us_tenant u) w' = (Some (g_rules g, g_versionHash g), w')
     \<and> filter (\<lambda>x. g_tenantId x \<noteq> us_tenant u) (policies w') = filter (\<lambda>x. g_tenantId x \<noteq> us_tenant u) (policies w)"
proof -
  obtain h g where h: "jget body ''versionHash'' = Some (JStr h)"
    and g: "find_first (\<lambda>g. g_versionHash g = h \<and> g_tenantId g = us_tenant u) (policies w) = Some g"
    and w': "policies w' = swap_policies (us_tenant u) (g_id g) (policies w)"
    using assms(2) by (auto simp: rollbackPolicy_def error_reply_def split: if_splits option.splits json.splits)
  have in_g: "g \<in> set (policies w)" "g_versionHash g = h" "g_tenantId g = us_tenant u" using g find_first_Some by fastforce+
  note swap = swap_active [OF assms(1) in_g(1,3), folded w']
  have "active_policy (us_tenant u) w' = Some (g\<lparr>g_isActive := True\<rparr>)"
    using swap(1) by (simp add: active_policy_def find_first_filter)
  then show ?thesis using in_g h swap by (auto simp: load_policies_def)
qed

end
