(* ===== verification/Webhook.thy ===== *)
theory Webhook
  imports Api_Laws
begin

section \<open>The Meta webhook (api/webhooks/*.ts)\<close>

text \<open>
  A verified page event becomes a task and a job of the queue. The digest of the signature is a
  parameter, \<open>hm secret payload\<close> in hexadecimal; the raw body is what the JSON parser captured.
  The handler answers before it works through the entries, so an entry of an unexpected shape
  only ends the work: the flag of the result says whether all entries were worked through.
\<close>

subsection \<open>From an event to an objective (meta.parser.ts)\<close>

definition quoted_text :: "json option \<Rightarrow> string" where
  "quoted_text v = [dq] @ opt_string v @ [dq]"

definition comment_objective :: "json \<Rightarrow> string option" where
  "comment_objective event =
     (let v = jget event ''value'' in
      if truthy_opt v \<and> jget event ''field'' = Some (JStr ''feed'')
         \<and> jget_opt v ''item'' = Some (JStr ''comment'') \<and> jget_opt v ''verb'' = Some (JStr ''add'') \<and> truthy_opt (jget_opt v ''message'')
      then Some (''Analyze this new Facebook comment on our Page from '' @ js_string (or_else (jget_opt v ''sender_name'') (JStr ''a user''))
             @ '': '' @ quoted_text (jget_opt v ''message'')
             @ ''. Determine if it is a complaint, a question, or praise, and draft an appropriate, polite reply.'')
      else None)"

definition message_objective :: "json \<Rightarrow> string option" where
  "message_objective event =
     (let m = jget event ''message'' in
      if truthy_opt m \<and> truthy_opt (jget_opt m ''text'')
      then Some (''Analyze this new Facebook Messenger direct message: '' @ quoted_text (jget_opt m ''text'')
             @ ''. Determine the user'' @ sq @ ''s intent, categorize the urgency, and draft an appropriate response.'')
      else None)"

definition mapMetaEventToObjective :: "json \<Rightarrow> string option" where
  "mapMetaEventToObjective event =
     (case comment_objective event of Some s \<Rightarrow> Some s | None \<Rightarrow> message_objective event)"

subsection \<open>Verification\<close>

type_synonym hmac = "string \<Rightarrow> string \<Rightarrow> string"

definition send_status :: "int \<Rightarrow> string \<Rightarrow> reply" where
  "send_status st m = Reply st (JStr m)"

definition unhandled :: reply where
  "unhandled = error_reply 500 ''Internal Server Error''"

text \<open>The verification token of the deployment is read only when the mode asks for it; it must be set.\<close>

definition verifyMetaWebhook :: "api_env \<Rightarrow> (string \<Rightarrow> json option) \<Rightarrow> reply" where
  "verifyMetaWebhook av query =
     (let m = query ''hub.mode''; token = query ''hub.verify_token'' in
      if truthy_opt m \<and> truthy_opt token
      then (if m = Some (JStr ''subscribe'')
            then (case env_var av ''META_VERIFY_TOKEN'' of
                    None \<Rightarrow> unhandled
                  | Some s \<Rightarrow>
                      if token = Some (JStr s)
                      then Reply 200 (case query ''hub.challenge'' of None \<Rightarrow> JStr [] | Some c \<Rightarrow> c)
                      else send_status 403 ''Forbidden'')
            else send_status 403 ''Forbidden'')
      else send_status 400 ''Bad Request'')"

definition hook_payload :: "string option \<Rightarrow> json \<Rightarrow> string" where
  "hook_payload raw body = (case raw of Some b \<Rightarrow> b | None \<Rightarrow> json_stringify body)"

text \<open>A missing body that was not captured either makes the check itself throw.\<close>

definition verifySignature :: "api_env \<Rightarrow> hmac \<Rightarrow> request \<Rightarrow> string option \<Rightarrow> bool option" where
  "verifySignature av hm rq raw =
     (case (header rq ''x-hub-signature-256'', env_var av ''META_APP_SECRET'') of
        (Some sig, Some secret) \<Rightarrow>
          if raw = None \<and> rq_body rq = JNull then None
          else Some (sig = ''sha256='' @ hm secret (hook_payload raw (rq_body rq)))
      | _ \<Rightarrow> Some False)"

subsection \<open>Working through the entries\<close>

definition stale :: "int \<Rightarrow> json \<Rightarrow> bool" where
  "stale now entry \<longleftrightarrow> truthy_opt (jget entry ''time'')
     \<and> num_lt (js_number (case jget entry ''time'' of None \<Rightarrow> JNull | Some t \<Rightarrow> t)) (Fin (now - 300000) 0)"

text \<open>\<open>a || b\<close> where the last operand may be undefined.\<close>

definition first_truthy :: "json option \<Rightarrow> json option \<Rightarrow> json option" where
  "first_truthy a b = (if truthy_opt a then a else b)"

definition uniqueEventId :: "json \<Rightarrow> json \<Rightarrow> json option" where
  "uniqueEventId entry event =
     first_truthy (jget_opt (jget event ''value'') ''post_id'')
       (first_truthy (jget_opt (jget event ''value'') ''comment_id'')
         (first_truthy (jget_opt (jget event ''message'') ''mid'') (jget entry ''id'')))"

definition event_key :: "runtime \<Rightarrow> json \<Rightarrow> json \<Rightarrow> string" where
  "event_key rt entry event = rt_sha256 rt (opt_string (jget entry ''time'') @ ''_'' @ opt_string (uniqueEventId entry event))"

definition hook_tenant :: "api_env \<Rightarrow> json \<Rightarrow> string" where
  "hook_tenant av entry =
     (if truthy_opt (jget entry ''id'') then ''meta_page_'' @ opt_string (jget entry ''id'')
      else var_or av ''DEFAULT_WEBHOOK_TENANT'' ''default_tenant'')"

definition hook_context :: json where
  "hook_context = JObj
     [(''source'', JStr ''META_WEBHOOK''),
      (''provenance'', JObj [(''amount'', JStr ''UNTRUSTED_USER_INPUT''), (''recipient'', JStr ''UNTRUSTED_USER_INPUT''),
                             (''message'', JStr ''UNTRUSTED_USER_INPUT'')])]"

definition hook_event :: "runtime \<Rightarrow> api_env \<Rightarrow> int \<Rightarrow> bool \<Rightarrow> json \<Rightarrow> json \<Rightarrow> world \<times> queue \<Rightarrow> world \<times> queue" where
  "hook_event rt av now up entry event s =
     (case s of (w, q) \<Rightarrow>
        (case mapMetaEventToObjective event of
           None \<Rightarrow> (w, q)
         | Some objective \<Rightarrow>
             (case insert_task rt now (hook_tenant av entry) (Some (event_key rt entry event)) objective w of
                (Inl e, w1) \<Rightarrow> (w1, q)
              | (Inr t, w1) \<Rightarrow> (w1, if up then processTask (t_id t) (t_objective t) (Some hook_context) None q else q))))"

fun hook_events :: "runtime \<Rightarrow> api_env \<Rightarrow> int \<Rightarrow> bool \<Rightarrow> json \<Rightarrow> json list \<Rightarrow> world \<times> queue \<Rightarrow> bool \<times> world \<times> queue" where
  "hook_events rt av now up entry [] s = (True, s)"
| "hook_events rt av now up entry (event # events) s =
     (if event = JNull then (False, s) else hook_events rt av now up entry events (hook_event rt av now up entry event s))"

text \<open>What a \<open>for of\<close> loop runs over; a value that is not iterable throws.\<close>

definition iterable :: "json option \<Rightarrow> json list option" where
  "iterable v = (case v of Some (JArr xs) \<Rightarrow> Some xs | Some (JStr s) \<Rightarrow> Some (map (\<lambda>c. JStr [c]) s) | _ \<Rightarrow> None)"

fun hook_entries :: "runtime \<Rightarrow> api_env \<Rightarrow> (nat \<Rightarrow> int) \<Rightarrow> bool \<Rightarrow> nat \<Rightarrow> json list \<Rightarrow> world \<times> queue \<Rightarrow> bool \<times> world \<times> queue" where
  "hook_entries rt av clk up n [] s = (True, s)"
| "hook_entries rt av clk up n (entry # entries) s =
     (if entry = JNull then (False, s)
      else if stale (clk n) entry then hook_entries rt av clk up (n + 1) entries s
      else (case iterable (first_truthy (jget entry ''changes'') (jget entry ''messaging'')) of
              None \<Rightarrow> (False, s)
            | Some events \<Rightarrow>
                (case hook_events rt av (clk n) up entry events s of
                   (False, s1) \<Rightarrow> (False, s1)
                 | (True, s1) \<Rightarrow> hook_entries rt av clk up (n + 1) entries s1)))"

definition receiveMetaWebhook :: "runtime \<Rightarrow> api_env \<Rightarrow> hmac \<Rightarrow> (nat \<Rightarrow> int) \<Rightarrow> bool \<Rightarrow> request \<Rightarrow> string option \<Rightarrow> world \<times> queue
    \<Rightarrow> reply \<times> bool \<times> world \<times> queue" where
  "receiveMetaWebhook rt av hm clk up rq raw s =
     (case verifySignature av hm rq raw of
        None \<Rightarrow> (unhandled, False, s)
      | Some False \<Rightarrow> (send_status 403 ''Forbidden'', True, s)
      | Some True \<Rightarrow>
          if rq_body rq = JNull then (unhandled, False, s)
          else if jget (rq_body rq) ''object'' \<noteq> Some (JStr ''page'') then (send_status 404 ''Not Found'', True, s)
          else (Reply 200 (JStr ''EVENT_RECEIVED''),
                (case iterable (jget (rq_body rq) ''entry'') of
                   None \<Rightarrow> (False, s)
                 | Some entries \<Rightarrow> hook_entries rt av clk up 0 entries s)))"

subsection \<open>Laws\<close>

lemma signed_webhook:
  assumes "receiveMetaWebhook rt av hm clk up rq raw s = (r, ok, s')" and "s' \<noteq> s"
  shows "\<exists>secret. av_var av ''META_APP_SECRET'' = Some secret \<and> secret \<noteq> []
     \<and> rq_headers rq ''x-hub-signature-256'' = Some (''sha256='' @ hm secret (hook_payload raw (rq_body rq)))
     \<and> jget (rq_body rq) ''object'' = Some (JStr ''page'') \<and> r = Reply 200 (JStr ''EVENT_RECEIVED'')"
proof -
  have "verifySignature av hm rq raw = Some True" "jget (rq_body rq) ''object'' = Some (JStr ''page'')"
    "r = Reply 200 (JStr ''EVENT_RECEIVED'')"
    using assms by (auto simp: receiveMetaWebhook_def split: option.splits bool.splits if_splits)
  then show ?thesis
    by (auto simp: verifySignature_def header_Some env_var_def str_or_def split: option.splits if_splits)
qed

text \<open>
  C35: a webhook request changes nothing, no task and no job, unless it carries the signature of
  its raw body under the secret of the application and is a page event.
\<close>

theorem webhook_needs_signature:
  assumes "receiveMetaWebhook rt av hm clk up rq raw s = (r, ok, s')" and "s' \<noteq> s"
  shows "\<exists>secret. av_var av ''META_APP_SECRET'' = Some secret \<and> secret \<noteq> []
     \<and> rq_headers rq ''x-hub-signature-256'' = Some (''sha256='' @ hm secret (hook_payload raw (rq_body rq)))
     \<and> jget (rq_body rq) ''object'' = Some (JStr ''page'') \<and> r = Reply 200 (JStr ''EVENT_RECEIVED'')"
  by (rule signed_webhook [OF assms])

text \<open>Tasks and their keys stay; a job is queued only with a new task.\<close>

definition grows :: "world \<times> queue \<Rightarrow> world \<times> queue \<Rightarrow> bool" where
  "grows s s' \<longleftrightarrow> (\<exists>rs. tasks (fst s') = tasks (fst s) @ rs)"

lemma grows_refl [simp]: "grows s s"
  by (simp add: grows_def)

lemma grows_trans: "grows a b \<Longrightarrow> grows b c \<Longrightarrow> grows a c"
  by (auto simp: grows_def)

lemma grows_key: "grows s s' \<Longrightarrow> task_with_key t k (fst s) \<noteq> None \<Longrightarrow> task_with_key t k (fst s') \<noteq> None"
  by (metis grows_def with_key_append)

definition handled :: "runtime \<Rightarrow> api_env \<Rightarrow> json \<Rightarrow> json \<Rightarrow> world \<times> queue \<Rightarrow> bool" where
  "handled rt av entry event s \<longleftrightarrow>
     mapMetaEventToObjective event = None \<or> task_with_key (hook_tenant av entry) (event_key rt entry event) (fst s) \<noteq> None"

lemma handled_grows: "handled rt av entry event s \<Longrightarrow> grows s s' \<Longrightarrow> handled rt av entry event s'"
  using grows_key [of s s' "hook_tenant av entry" "event_key rt entry event"] by (auto simp: handled_def)

lemma hook_event_effect:
  assumes "hook_event rt av now up entry event s = s'"
  shows "grows s s'" and "handled rt av entry event s'"
proof -
  obtain w q where s: "s = (w, q)" by fastforce
  have "grows s s' \<and> handled rt av entry event s'"
  proof (cases "mapMetaEventToObjective event")
    case None
    then show ?thesis using assms s by (simp add: hook_event_def handled_def)
  next
    case (Some ob)
    obtain x w1 where ins: "insert_task rt now (hook_tenant av entry) (Some (event_key rt entry event)) ob w = (x, w1)" by fastforce
    then have s': "fst s' = w1" using assms s Some by (auto simp: hook_event_def split: sum.splits)
    from ins show ?thesis
    proof (cases rule: insert_cases)
      case (inserted r)
      then have "task_with_key (hook_tenant av entry) (event_key rt entry event) w1 \<noteq> None"
        by (auto simp: task_with_key_def find_first_append split: option.splits)
      then show ?thesis using inserted s s' by (simp add: grows_def handled_def)
    qed (use s s' in \<open>simp add: grows_def handled_def\<close>)
  qed
  then show "grows s s'" and "handled rt av entry event s'" by blast+
qed

lemma hook_event_idle: "handled rt av entry event s \<Longrightarrow> hook_event rt av now up entry event s = s"
  by (cases s) (auto simp: hook_event_def handled_def insert_task_def split: option.split)

lemma hook_events_effect:
  assumes "hook_events rt av now up entry events s = (ok, s')"
  shows "grows s s' \<and> (ok \<longrightarrow> (\<forall>event \<in> set events. event \<noteq> JNull \<and> handled rt av entry event s'))"
  using assms
proof (induction events arbitrary: s)
  case (Cons event events)
  show ?case
  proof (cases "event = JNull")
    case False
    let ?s1 = "hook_event rt av now up entry event s"
    have "hook_events rt av now up entry events ?s1 = (ok, s')" using Cons.prems False by simp
    note IH = Cons.IH [OF this]
    show ?thesis
      using IH False hook_event_effect [of rt av now up entry event s "?s1"] grows_trans [of s ?s1 s'] handled_grows [of rt av entry event ?s1 s']
      by auto
  qed (use Cons.prems in simp)
qed simp

lemma hook_events_idle:
  "\<forall>event \<in> set events. event \<noteq> JNull \<and> handled rt av entry event s \<Longrightarrow> hook_events rt av now up entry events s = (True, s)"
  by (induction events) (simp_all add: hook_event_idle)

definition entry_handled :: "runtime \<Rightarrow> api_env \<Rightarrow> json \<Rightarrow> world \<times> queue \<Rightarrow> bool" where
  "entry_handled rt av entry s \<longleftrightarrow> (\<exists>events. iterable (first_truthy (jget entry ''changes'') (jget entry ''messaging'')) = Some events
     \<and> (\<forall>event \<in> set events. event \<noteq> JNull \<and> handled rt av entry event s))"

lemma entry_handled_grows: "entry_handled rt av entry s \<Longrightarrow> grows s s' \<Longrightarrow> entry_handled rt av entry s'"
  unfolding entry_handled_def by (elim exE conjE) (intro exI conjI, assumption, blast intro: handled_grows)

lemma hook_entries_effect:
  assumes "hook_entries rt av clk up n entries s = (ok, s')"
  shows "grows s s' \<and> (ok \<longrightarrow> (\<forall>i < length entries. entries ! i \<noteq> JNull \<and> (stale (clk (n + i)) (entries ! i) \<or> entry_handled rt av (entries ! i) s')))"
  using assms
proof (induction entries arbitrary: n s)
  case (Cons entry entries)
  show ?case
  proof (cases "entry = JNull \<or> \<not> stale (clk n) entry
      \<and> iterable (first_truthy (jget entry ''changes'') (jget entry ''messaging'')) = None")
    case True
    then have "hook_entries rt av clk up n (entry # entries) s = (False, s)" by auto
    then show ?thesis using Cons.prems by simp
  next
    case usable: False
    show ?thesis
    proof (cases "stale (clk n) entry")
      case True
      then have "hook_entries rt av clk up (n + 1) entries s = (ok, s')" using Cons.prems usable by simp
      from Cons.IH [OF this] show ?thesis using True usable by (simp add: All_less_Suc2)
    next
      case False
      then obtain events where ev: "iterable (first_truthy (jget entry ''changes'') (jget entry ''messaging'')) = Some events"
        using usable by auto
      obtain k s1 where s1: "hook_events rt av (clk n) up entry events s = (k, s1)" by (rule prod.exhaust)
      note one = hook_events_effect [OF s1]
      show ?thesis
      proof (cases k)
        case True
        then have "hook_entries rt av clk up (n + 1) entries s1 = (ok, s')" using Cons.prems usable False ev s1 by simp
        note IH = Cons.IH [OF this]
        have "entry_handled rt av entry s1" using one True ev by (simp add: entry_handled_def)
        then have "entry_handled rt av entry s'" using IH entry_handled_grows by blast
        then show ?thesis using IH one usable grows_trans [of s s1 s'] by (auto simp: All_less_Suc2)
      next
        case k: False
        then show ?thesis using Cons.prems usable False ev s1 one by simp
      qed
    qed
  qed
qed simp

lemma hook_entries_idle:
  assumes "\<forall>i < length entries. entries ! i \<noteq> JNull \<and> (stale (clk (n + i)) (entries ! i) \<or> entry_handled rt av (entries ! i) s)"
  shows "hook_entries rt av clk up n entries s = (True, s)"
  using assms
proof (induction entries arbitrary: n)
  case (Cons entry entries)
  have "entry \<noteq> JNull \<and> (stale (clk n) entry \<or> entry_handled rt av entry s)" using Cons.prems by force
  moreover have "hook_entries rt av clk up (n + 1) entries s = (True, s)" using Cons.prems by (intro Cons.IH) force
  ultimately show ?case by (auto simp: entry_handled_def hook_events_idle)
qed simp

lemma stale_later: "stale now entry \<Longrightarrow> now \<le> later \<Longrightarrow> stale later entry"
  using num_lt_trans [of _ "Fin (now - 300000) 0" "Fin (later - 300000) 0"]
  by (cases "now = later") (auto simp: stale_def simp del: num_lt.simps)


text \<open>A comment event, and an entry of two comments on the same post.\<close>

definition comment_event :: "string \<Rightarrow> string \<Rightarrow> string \<Rightarrow> json" where
  "comment_event post comment message = JObj [(''field'', JStr ''feed''), (''value'', JObj
     [(''item'', JStr ''comment''), (''verb'', JStr ''add''), (''post_id'', JStr post), (''comment_id'', JStr comment),
      (''message'', JStr message)])]"

definition two_comments :: "json \<Rightarrow> string \<Rightarrow> string \<Rightarrow> string \<Rightarrow> string \<Rightarrow> string \<Rightarrow> json" where
  "two_comments time post c1 m1 c2 m2 =
     JObj [(''time'', time), (''id'', JStr ''1''), (''changes'', JArr [comment_event post c1 m1, comment_event post c2 m2])]"

lemma comment_has_objective: "m \<noteq> [] \<Longrightarrow> mapMetaEventToObjective (comment_event post c m) \<noteq> None"
  by (simp add: mapMetaEventToObjective_def comment_objective_def comment_event_def jget_opt_def truthy_opt_def)

lemma comment_key:
  "post \<noteq> [] \<Longrightarrow> event_key rt entry (comment_event post c m) = rt_sha256 rt (opt_string (jget entry ''time'') @ ''_'' @ post)"
  by (simp add: event_key_def uniqueEventId_def comment_event_def jget_opt_def first_truthy_def truthy_opt_def opt_string_def)

text \<open>
  Of two new comments on the same post that arrive in one entry, the second is lost: both
  get the key of the post, and the second is taken for a replay of the first.
\<close>

theorem second_comment_lost:
  assumes "post \<noteq> []" and "m1 \<noteq> []" and "m2 \<noteq> []"
  shows "snd (hook_events rt av now up (two_comments time post c1 m1 c2 m2) [comment_event post c1 m1, comment_event post c2 m2] s)
     = hook_event rt av now up (two_comments time post c1 m1 c2 m2) (comment_event post c1 m1) s"
proof -
  let ?e = "two_comments time post c1 m1 c2 m2" and ?s1 = "hook_event rt av now up (two_comments time post c1 m1 c2 m2) (comment_event post c1 m1) s"
  have "handled rt av ?e (comment_event post c1 m1) ?s1" by (rule hook_event_effect(2)) simp
  then have "handled rt av ?e (comment_event post c2 m2) ?s1"
    using comment_has_objective assms by (auto simp: handled_def comment_key)
  then have "hook_event rt av now up ?e (comment_event post c2 m2) ?s1 = ?s1" by (rule hook_event_idle)
  moreover have "comment_event post c m \<noteq> JNull" for c m by (simp add: comment_event_def)
  ultimately show ?thesis by simp
qed

text \<open>
  The task of an event on a page belongs to a tenant of that page; its job is queued for the
  default tenant, so that its proposals and decisions leave the tenant of the task.
\<close>

lemma hook_job_of_other_tenant:
  assumes "hook_event rt av now True entry event (w, q) = (w', q')" and "q' \<noteq> q" and "jget entry ''id'' = Some (JStr i)" and "i \<noteq> []"
  shows "\<exists>t j. tasks w' = tasks w @ [t] \<and> q' = q @ [j] \<and> j_taskId j = t_id t
     \<and> t_tenantId t = ''meta_page_'' @ i \<and> j_tenantId j = ''default_tenant''"
proof (cases "mapMetaEventToObjective event")
  case None
  then show ?thesis using assms by (simp add: hook_event_def)
next
  case (Some ob)
  obtain x w1 where ins: "insert_task rt now (hook_tenant av entry) (Some (event_key rt entry event)) ob w = (x, w1)" by fastforce
  from ins show ?thesis
  proof (cases rule: insert_cases)
    case (inserted r)
    then show ?thesis using assms Some ins by (auto simp: hook_event_def processTask_def hook_tenant_def truthy_opt_def opt_string_def)
  qed (use assms Some ins in \<open>auto simp: hook_event_def\<close>)
qed

end
