(* ===== verification/System_Witnesses.thy ===== *)
theory System_Witnesses
  imports Demo Workflow_Laws Workers Snapshot Webhook
begin

section \<open>The properties of the workflow, the workers and the API at concrete inputs\<close>

text \<open>
  A deployment without environment variables, a cipher that keeps texts free of colons as they
  are, a model client that answers one fixed proposal, and requests against the world of Demo.
\<close>

definition demo_av :: api_env where
  "demo_av = \<lparr>av_var = (\<lambda>k. if k = ''META_APP_SECRET'' then Some ''s'' else if k = ''ADMIN_API_KEY'' then Some ''key'' else None),
     av_verify = (\<lambda>s t. Token_Invalid), av_sign = (\<lambda>s v. ''t'')\<rparr>"

definition demo_ci :: cipher where
  "demo_ci = \<lparr>ci_seal = (\<lambda>iv p. if colon_free p then Some (''t'', p) else None), ci_open = (\<lambda>iv t c. Some c)\<rparr>"

lemma demo_cipher [simp]: "cipher_law demo_ci"
  by (auto simp: cipher_law_def demo_ci_def colon_free_def split: if_splits)

definition demo_user :: user where
  "demo_user = \<lparr>us_id = ''x'', us_tenant = ''a'', us_role = ''admin''\<rparr>"

definition demo_strategy :: json where
  "demo_strategy = JObj [(''version'', JStr ''1.0.0''),
     (''recommendedOption'', option_json ''READ_DATABASE'' (JObj [(''query'', JStr ''q'')]) ''LOW''),
     (''fallbackOptions'', JArr [option_json ''READ_DATABASE'' (JObj [(''query'', JStr ''r'')]) ''LOW''])]"

definition demo_le :: llm_env where
  "demo_le = \<lparr>le_vendor = (\<lambda>p q. Inr \<lparr>an_content = Some (fence @ nl @ json_stringify demo_strategy @ nl @ fence),
       an_finish = None, an_input = None, an_output = None\<rparr>),
     le_cipher = demo_ci, le_api = demo_av, le_parse_message = (\<lambda>s. [])\<rparr>"

definition demo_attempt :: attempt_env where
  "demo_attempt = \<lparr>ae_llm = demo_le, ae_now = 0, ae_cfg = demo_cfg, ae_gov_clock = (\<lambda>i. 0), ae_gov_redis = (\<lambda>i. True),
     ae_op_clock = (\<lambda>i. 0), ae_op_redis = True, ae_late = False, ae_tools = demo_env\<rparr>"

subsection \<open>The workflow\<close>

definition demo_loop :: "(exn + loop_result) \<times> world" where
  "demo_loop = executeTaskLoop demo_rt (\<lambda>n. demo_attempt) ''t'' ''o'' None ''a'' (demo_world demo_read)"

lemma demo_has_task: "find_task (demo_world demo_read) ''t'' \<noteq> None"
  by (simp add: find_task_def demo_task_def)

theorem task_loop_settles_witness:
  "\<exists>r w'. demo_loop = (Inr r, w') \<and> task_in ''t'' w' (settled_status r) \<and> length (proposals w') \<le> length (proposals (demo_world demo_read)) + 3"
  using task_loop_settles [OF demo_has_task] by (simp add: demo_loop_def)


lemma demo_quota: "\<exists>w. quota_reach ''a'' (empty_world, 0) (w, 2)"
proof -
  obtain w1 w2 where w: "begin_job 0 ''a'' empty_world = (True, w1)" "begin_job 0 ''a'' w1 = (True, w2)"
    by (simp add: begin_job_def window_incr_def redis_live_def empty_world_def MAX_CONCURRENT_def Let_def)
  have "redis_live 0 (active_key ''a'') w1 \<noteq> None"
    using w(1) by (auto simp: begin_job_def window_incr_def redis_live_def empty_world_def Let_def MAX_CONCURRENT_def)
  then have t: "timely ''a'' 0 (empty_world, 0)" "timely ''a'' 0 (w1, Suc 0)" by (simp_all add: timely_def)
  have "quota_reach ''a'' (empty_world, 0) (w1, Suc 0)"
    by (rule quota_reach.step [OF quota_reach.here t(1) quota_step.started [OF w(1)]])
  then have "quota_reach ''a'' (empty_world, 0) (w2, Suc (Suc 0))"
    by (rule quota_reach.step [OF _ t(2) quota_step.started [OF w(2)]])
  then show ?thesis by (auto simp: numeral_2_eq_2)
qed


subsection \<open>The workers\<close>

definition demo_waiting :: "string \<Rightarrow> int \<Rightarrow> task_row" where
  "demo_waiting i ex = demo_task\<lparr>t_id := i, t_status := T_AWAITING_HUMAN, t_expiresAt := Some ex\<rparr>"

definition demo_sweep_world :: world where
  "demo_sweep_world = empty_world\<lparr>tasks := [demo_waiting ''t'' 5, demo_waiting ''u'' 50]\<rparr>"

theorem escalation_sweep_exact_witness:
  "tasks (sweepExpiredEscalations demo_rt (\<lambda>i. 10) demo_sweep_world) = [expire_task (demo_waiting ''t'' 5), demo_waiting ''u'' 50]
   \<and> length (audits (sweepExpiredEscalations demo_rt (\<lambda>i. 10) demo_sweep_world)) = 1"
  using escalation_sweep_exact [of demo_sweep_world demo_rt "\<lambda>i. 10"]
  by (simp add: demo_sweep_world_def demo_waiting_def demo_task_def overdue_def awaiting_def empty_world_def)

definition demo_transfer :: json where
  "demo_transfer = JObj [(''actionType'', JStr ''TRANSFER_FUNDS''), (''parameters'', JObj [(''amount'', jnat 5)])]"

definition demo_decision :: decision_row where
  "demo_decision = \<lparr>d_id = ''d'', d_tenantId = ''a'', d_proposalId = ''p'', d_decisionType = D_APPROVE, d_riskLevel = LOW,
     d_policyResults = [], d_constraints = None, d_requiredApprovers = 1, d_approvalsCount = 0, d_approverIdentities = None,
     d_approvedPayloadHash = None, d_createdAt = 0\<rparr>"

definition demo_record :: execution_row where
  "demo_record = \<lparr>e_id = ''e'', e_decisionId = ''d'', e_tenantId = ''a'', e_taskId = ''t'', e_idempotencyKey = ''k'',
     e_providerTransactionId = Some ''tx'', e_providerIdempotencyKey = None, e_status = E_COMPLETED, e_errorClassification = None,
     e_rollbackData = None, e_attemptCount = 1, e_lastError = None, e_startedAt = Some 0, e_completedAt = Some 1,
     e_reconciledAt = None, e_reconciliationAttempts = 0\<rparr>"

definition demo_paid :: world where
  "demo_paid = (demo_world demo_transfer)\<lparr>decisions := [demo_decision], executions := [demo_record]\<rparr>"

lemma demo_refundable: "refundable demo_paid ''e'' demo_record"
proof -
  have "find_proposal demo_paid ''p'' = Some (demo_proposal demo_transfer)"
    using demo_find [of demo_transfer] by (simp add: demo_paid_def find_proposal_def)
  moreover have "find_decision demo_paid ''d'' = Some demo_decision" by (simp add: demo_paid_def demo_decision_def find_decision_def)
  moreover have "record_at demo_paid ''e'' = Some demo_record" by (simp add: demo_paid_def demo_record_def record_at_def)
  ultimately show ?thesis
    unfolding refundable_def by (simp add: demo_record_def demo_decision_def demo_transfer_def)
qed

theorem transfer_refunded_twice_witness:
  "\<exists>w1 w2. executeRollback demo_rt 0 demo_env ''e'' demo_paid = (Inr True, w1)
     \<and> executeRollback demo_rt 9 demo_env ''e'' (reconciliation_sweep demo_rt (\<lambda>i. 5) w1) = (Inr True, w2)"
  using transfer_refunded_twice [OF demo_refundable, of "''tx''"] by (simp add: demo_record_def demo_paid_def)

definition demo_log :: "int \<Rightarrow> string \<Rightarrow> audit_row" where
  "demo_log ts i = \<lparr>a_id = i, a_tenantId = ''a'', a_timestamp = ts, a_proposalId = None, a_decisionId = None,
     a_actionDetails = JNull, a_amount = None, a_currency = None, a_recipientAccount = None, a_providerTransactionId = None,
     a_policyVersion = None, a_approverIdentities = None, a_reconciliationStatus = None, a_previousHash = None, a_currentHash = ''h''\<rparr>"

lemma demo_key_storable: "storable (0, ''x'')" "storable (1, ''y'')"
  by (simp_all add: storable_def four_digit_year_def civil_def year_day_def month_day_def)

lemma demo_first_sweep: "\<exists>fs. snapshot_sweep [demo_log 0 ''x''] (None, Map.empty) = (Some (0, ''x''), fs)"
  by (simp add: snapshot_sweep_def logsToExport_def batch_size_def after_cursor_def log_key_def demo_log_def Let_def)

lemma demo_on_time: "on_time dates [[demo_log 0 ''x''], [demo_log 1 ''y'']] ([], no_snapshots)"
proof -
  have start: "no_snapshots = dir_of (None, Map.empty)" by (simp add: no_snapshots_def dir_of_def)
  have "in_time [[demo_log 0 ''x''], [demo_log 1 ''y'']] ([], None, Map.empty)"
    using demo_first_sweep by (auto simp: after_cursor_def demo_log_def)
  then show ?thesis
    using sweep_runs_refine [of "(None, Map.empty)" "[]" "[[demo_log 0 ''x''], [demo_log 1 ''y'']]" dates] demo_key_storable
    by (simp add: start storable_cursor_def log_key_def demo_log_def)
qed

definition demo_sweeps :: "audit_row list \<times> snapshot_dir" where
  "demo_sweeps = sweep_runs (\<lambda>_. None) [[demo_log 0 ''x''], [demo_log 1 ''y'']] ([], no_snapshots)"


subsection \<open>The API\<close>

definition demo_request :: request where
  "demo_request = \<lparr>rq_headers = (\<lambda>k. if k = ''x-api-key'' then Some ''key'' else if k = ''x-tenant-id'' then Some ''a''
       else if k = ''x-user-id'' then Some ''x'' else if k = ''x-idempotency-key'' then Some ''k'' else None),
     rq_ip = ''i'', rq_method = ''GET'', rq_base = ''/api'', rq_body = JObj [(''objective'', JStr ''o'')]\<rparr>"

definition demo_served :: "reply \<times> world" where
  "demo_served = serve demo_av 0 True Get_Audit (\<lambda>u w. (Reply 200 JNull, w)) demo_request empty_world"

theorem endpoints_guarded_witness:
  "(api_frame empty_world (snd demo_served) \<and> (\<exists>st body. fst demo_served = Reply st body \<and> 400 \<le> st))
   \<or> (\<exists>u w1. genuine demo_av demo_request u \<and> us_role u \<in> set (allowed_roles Get_Audit) \<and> api_frame empty_world w1
        \<and> (Reply 200 JNull, w1) = (fst demo_served, snd demo_served))"
  using endpoints_guarded [of demo_av 0 True Get_Audit "\<lambda>u w. (Reply 200 JNull, w)" demo_request empty_world "fst demo_served" "snd demo_served"]
  by (simp add: demo_served_def)

theorem window_admits_exactly_witness:
  "admitted 60 3 [0, 1, 2, 3, 4] demo_request empty_world = 3"
  using window_admits_exactly [of 0 demo_request empty_world 60 3 "[1, 2, 3, 4]"]
  by (simp add: redis_live_def empty_world_def)

definition demo_saved :: "reply \<times> world" where
  "demo_saved = save_settings demo_ci ''i'' ''j'' demo_user (all_settings ''openai'' ''k'' ''l'' ''m'' ''b'') empty_world"

lemma demo_save_answer: "\<exists>r w'. demo_saved = (Reply 200 r, w')"
proof -
  have "SaveSettingsSchema (all_settings ''openai'' ''k'' ''l'' ''m'' ''b'')"
    by (simp add: SaveSettingsSchema_def all_settings_def req_str_ok_def opt_str_ok_def)
  moreover have "js_trim ''k'' \<noteq> []" "js_trim ''l'' \<noteq> []" by (simp_all add: js_trim_def is_space_def code_def)
  ultimately show ?thesis
    by (simp add: demo_saved_def save_settings_def save_key_def all_settings_def str_field_def encrypt_def demo_ci_def colon_free_def Let_def)
qed

theorem saved_settings_used_witness:
  "getProvider demo_ci demo_av ''a'' (snd demo_saved) = make_provider ''openai'' ''k'' ''l'' ''m'' ''b''"
proof -
  obtain r w' where r: "demo_saved = (Reply 200 r, w')" using demo_save_answer by blast
  have "js_trim ''k'' \<noteq> []" "js_trim ''l'' \<noteq> []" by (simp_all add: js_trim_def is_space_def code_def)
  moreover have "settings_unique empty_world" by (simp add: settings_unique_def empty_world_def)
  moreover have "colon_free ''i''" "colon_free ''j''" by (simp_all add: colon_free_def)
  ultimately show ?thesis
    using saved_settings_used [OF demo_cipher _ _ _ _ _ r [unfolded demo_saved_def], of demo_av] by (simp add: demo_user_def r)
qed

lemma demo_provider: "getProvider demo_ci demo_av ''a'' empty_world = Inr (openai_provider ''dummy_key'' ''gpt-4o-mini'' [])"
  by (simp add: getProvider_def tenant_settings_def setting_value_def plain_setting_def secret_setting_def make_provider_def
      var_or_def env_var_def str_or_def demo_av_def empty_world_def or_default_def)

theorem strategy_read_back_witness:
  "generateStrategy demo_rt demo_le ''o'' None ''a'' empty_world = Inr (parsed_strategy demo_strategy)"
proof (rule strategy_read_back)
  show "getProvider (le_cipher demo_le) (le_api demo_le) ''a'' empty_world = Inr (openai_provider ''dummy_key'' ''gpt-4o-mini'' [])"
    using demo_provider by (simp add: demo_le_def)
  show "le_vendor demo_le (openai_provider ''dummy_key'' ''gpt-4o-mini'' [])
      (structured_request (openai_provider ''dummy_key'' ''gpt-4o-mini'' []) (untrusted_payload ''o'' None) (Some systemPrompt))
    = Inr \<lparr>an_content = Some (fence @ nl @ json_stringify demo_strategy @ nl @ fence), an_finish = None, an_input = None, an_output = None\<rparr>"
    by (simp add: demo_le_def del: json_stringify.simps)
  show "wrapped (json_stringify demo_strategy) (fence @ nl @ json_stringify demo_strategy @ nl @ fence)"
    unfolding wrapped_def by (intro exI [of _ "[]"]) simp
  show "wf_json demo_strategy" by (simp add: demo_strategy_def option_json_def)
  show "js_ordered demo_strategy"
    by (simp add: demo_strategy_def option_json_def enumeration_def array_index_def is_digit_def code_def)
  show "ProposalJSONSchema (Some demo_strategy)"
    by (simp add: demo_strategy_def option_json_def ProposalJSONSchema_def ActionSchema_def req_str_ok_def jget_opt_def risk_names_def)
qed simp

definition demo_creation :: creation where
  "demo_creation = \<lparr>cn_now = 0, cn_others = (\<lambda>w. w), cn_up = True, cn_request = demo_request, cn_user = demo_user\<rparr>"

definition demo_created :: "create_answer list \<times> world \<times> queue" where
  "demo_created = create_all demo_rt [demo_creation, demo_creation] (empty_world, [])"


definition demo_neighbour :: world where
  "demo_neighbour = (demo_world demo_read)\<lparr>tasks := [demo_task, demo_task\<lparr>t_id := ''n'', t_tenantId := ''b''\<rparr>]\<rparr>"

lemma demo_find_task:
  "find_task (demo_world v) ''t'' = Some demo_task" "find_task demo_neighbour ''t'' = Some demo_task"
  by (simp_all add: find_task_def demo_task_def demo_neighbour_def)

lemma demo_rows: "proposals (demo_world v) = [demo_proposal v]"
  by (simp add: demo_world_def)


definition demo_version :: "string \<Rightarrow> bool \<Rightarrow> policy_row" where
  "demo_version h act = \<lparr>g_id = h, g_tenantId = ''a'', g_versionHash = h, g_rules = [demo_policy], g_isActive = act\<rparr>"

definition demo_registry :: world where
  "demo_registry = empty_world\<lparr>policies := [demo_version ''h'' False, demo_version ''i'' True]\<rparr>"

definition demo_rollback :: "reply \<times> world" where
  "demo_rollback = rollbackPolicy demo_rt 0 (JObj [(''versionHash'', JStr ''h'')]) demo_user demo_registry"

theorem rollback_takes_effect_witness:
  "\<exists>g. g \<in> set (policies demo_registry) \<and> g_versionHash g = ''h''
     \<and> load_policies demo_rt demo_cfg ''a'' (snd demo_rollback) = (Some (g_rules g, ''h''), snd demo_rollback)"
proof -
  obtain r w' where run: "demo_rollback = (Reply 200 r, w')"
    by (simp add: demo_rollback_def rollbackPolicy_def demo_registry_def demo_version_def demo_user_def truthy_opt_def)
  have "distinct (map g_id (policies demo_registry))" by (simp add: demo_registry_def demo_version_def)
  from rollback_takes_effect [OF this run [unfolded demo_rollback_def], of demo_cfg] show ?thesis
    by (auto simp: demo_user_def run)
qed

subsection \<open>The webhook\<close>

definition demo_hm :: hmac where
  "demo_hm k p = k"

definition demo_hook :: request where
  "demo_hook = \<lparr>rq_headers = (\<lambda>k. if k = ''x-hub-signature-256'' then Some ''sha256=s'' else None), rq_ip = ''i'', rq_method = ''POST'',
     rq_base = ''/api'', rq_body = JObj [(''object'', JStr ''page''),
       (''entry'', JArr [two_comments (jnat 5) ''post'' ''c'' ''m'' ''d'' ''n''])]\<rparr>"

definition demo_received :: "reply \<times> bool \<times> world \<times> queue" where
  "demo_received = receiveMetaWebhook demo_rt demo_av demo_hm (\<lambda>n. 0) True demo_hook (Some ''raw'') (empty_world, [])"

lemma demo_verified: "verifySignature demo_av demo_hm demo_hook (Some ''raw'') = Some True"
  by (simp add: verifySignature_def header_def str_or_def demo_hook_def env_var_def demo_av_def demo_hm_def)

lemma demo_run: "\<exists>s. demo_received = (Reply 200 (JStr ''EVENT_RECEIVED''), True, s) \<and> s \<noteq> (empty_world, [])"
proof -
  let ?e = "two_comments (jnat 5) ''post'' ''c'' ''m'' ''d'' ''n''"
  have body: "jget (rq_body demo_hook) ''object'' = Some (JStr ''page'')" "rq_body demo_hook \<noteq> JNull"
    "iterable (jget (rq_body demo_hook) ''entry'') = Some [?e]"
    by (simp_all add: demo_hook_def iterable_def)
  have entry: "?e \<noteq> JNull" "\<not> stale 0 ?e"
    "iterable (first_truthy (jget ?e ''changes'') (jget ?e ''messaging'')) = Some [comment_event ''post'' ''c'' ''m'', comment_event ''post'' ''d'' ''n'']"
    by (simp_all add: two_comments_def stale_def truthy_opt_def first_truthy_def iterable_def scaled_def)
  let ?s1 = "hook_event demo_rt demo_av 0 True ?e (comment_event ''post'' ''c'' ''m'') (empty_world, [])"
  have events: "hook_events demo_rt demo_av 0 True ?e [comment_event ''post'' ''c'' ''m'', comment_event ''post'' ''d'' ''n''] (empty_world, [])
      = (True, hook_event demo_rt demo_av 0 True ?e (comment_event ''post'' ''d'' ''n'') ?s1)"
    by (simp add: comment_event_def)
  obtain s2 where s2: "hook_event demo_rt demo_av 0 True ?e (comment_event ''post'' ''d'' ''n'') ?s1 = s2" by simp
  have "handled demo_rt demo_av ?e (comment_event ''post'' ''d'' ''n'') s2" by (rule hook_event_effect(2) [OF s2])
  then have "s2 \<noteq> (empty_world, [])"
    using comment_has_objective [of "''n''" "''post''" "''d''"] by (auto simp: handled_def task_with_key_def empty_world_def)
  moreover have "demo_received = (Reply 200 (JStr ''EVENT_RECEIVED''), True, s2)"
    using demo_verified body entry events s2 by (simp add: demo_received_def receiveMetaWebhook_def del: hook_events.simps)
  ultimately show ?thesis by blast
qed

theorem webhook_needs_signature_witness:
  "\<exists>secret. av_var demo_av ''META_APP_SECRET'' = Some secret
     \<and> rq_headers demo_hook ''x-hub-signature-256'' = Some (''sha256='' @ demo_hm secret (hook_payload (Some ''raw'') (rq_body demo_hook)))"
proof -
  obtain s where s: "demo_received = (Reply 200 (JStr ''EVENT_RECEIVED''), True, s)" "s \<noteq> (empty_world, [])" using demo_run by blast
  from webhook_needs_signature [OF s(1) [unfolded demo_received_def] s(2)] show ?thesis by blast
qed


end
