(* ===== verification/Console.thy ===== *)
theory Console
  imports Api
begin

section \<open>The approval console (approval-console/src/App.tsx)\<close>

text \<open>
  The state of the single page and what its handlers do to it, composed with the endpoints of
  the server they call: the queue of escalations, the override button, and the form of the
  language model settings. What the page shows of
  a decision, and the edits of the form, are in the theory Review; the layout is not modelled. What a call of \<open>fetch\<close> gives is an
  \<open>answer\<close>: the reply of the server, or the message of a failed connection.
\<close>

subsection \<open>The state\<close>

type_synonym escalation = "decision_row \<times> proposal_row option \<times> task_row option"

type_synonym answer = "string + reply"

datatype tone = Good | Bad

record form =
  fo_provider :: string
  fo_openai :: string
  fo_anthropic :: string
  fo_model :: string
  fo_base :: string

record console =
  co_escalations :: "escalation list"
  co_loading :: bool
  co_selected :: "escalation option"
  co_toast :: "(string \<times> tone) option"
  co_showSettings :: bool
  co_form :: form
  co_hasOpenai :: bool
  co_hasAnthropic :: bool
  co_testing :: bool

definition initial_console :: console where
  "initial_console =
     \<lparr>co_escalations = [], co_loading = True, co_selected = None, co_toast = None, co_showSettings = False,
      co_form = \<lparr>fo_provider = ''openai'', fo_openai = [], fo_anthropic = [], fo_model = [], fo_base = []\<rparr>,
      co_hasOpenai = False, co_hasAnthropic = False, co_testing = False\<rparr>"

definition say :: "tone \<Rightarrow> string \<Rightarrow> console \<Rightarrow> console" where
  "say t m c = c\<lparr>co_toast := Some (m, t)\<rparr>"

text \<open>The reset of a toast after its time; it clears whatever toast is shown then.\<close>

definition clear_toast :: "console \<Rightarrow> console" where
  "clear_toast c = c\<lparr>co_toast := None\<rparr>"

subsection \<open>Requests and replies\<close>

text \<open>
  \<open>key\<close> is the key built into the page, if any. The requests of the settings form leave out
  the header that names the user.
\<close>

definition page_key :: "string option \<Rightarrow> string" where
  "page_key key = (case str_or key None of Some k \<Rightarrow> k | None \<Rightarrow> ''development_admin_key'')"

definition page_headers :: "string option \<Rightarrow> bool \<Rightarrow> string \<Rightarrow> string option" where
  "page_headers key named k =
     (if k = ''x-tenant-id'' then Some ''default_tenant''
      else if k = ''x-api-key'' then Some (page_key key)
      else if k = ''x-user-id'' \<and> named then Some ''admin_123''
      else None)"

definition page_request :: "string option \<Rightarrow> bool \<Rightarrow> string \<Rightarrow> string \<Rightarrow> json \<Rightarrow> request" where
  "page_request key named ip method body =
     \<lparr>rq_headers = page_headers key named, rq_ip = ip, rq_method = method, rq_base = ''/api'', rq_body = body\<rparr>"

fun ok_reply :: "reply \<Rightarrow> bool" where
  "ok_reply (Reply st body) \<longleftrightarrow> 200 \<le> st \<and> st \<le> 299"
| "ok_reply (Executed r) \<longleftrightarrow> True"

text \<open>The console does not read the body of an executed override.\<close>

fun reply_body :: "reply \<Rightarrow> json" where
  "reply_body (Reply st body) = body"
| "reply_body (Executed r) = JObj []"

subsection \<open>The handlers\<close>

definition fetchEscalations :: "escalation list option \<Rightarrow> console \<Rightarrow> console" where
  "fetchEscalations rows c =
     (case rows of None \<Rightarrow> c | Some ds \<Rightarrow> c\<lparr>co_escalations := ds\<rparr>)\<lparr>co_loading := False\<rparr>"

definition or_blank :: "json option \<Rightarrow> string" where
  "or_blank v = js_string (or_else v (JStr []))"

definition fetchSettings :: "answer \<Rightarrow> console \<Rightarrow> console" where
  "fetchSettings a c =
     (case a of
        Inl m \<Rightarrow> c
      | Inr r \<Rightarrow>
          if ok_reply r
          then (let d = reply_body r
                in c\<lparr>co_hasOpenai := truthy_opt (jget d ''has_openai_key''), co_hasAnthropic := truthy_opt (jget d ''has_anthropic_key''),
                     co_form := (co_form c)\<lparr>fo_provider := opt_string (jget d ''active_provider''),
                       fo_model := or_blank (jget d ''model''), fo_base := or_blank (jget d ''base_url'')\<rparr>\<rparr>)
          else c)"

definition handleOverride :: "string \<Rightarrow> answer \<Rightarrow> console \<Rightarrow> console" where
  "handleOverride decisionId a c =
     (case a of
        Inl m \<Rightarrow> say Bad (''Override failed: '' @ m) c
      | Inr r \<Rightarrow>
          if ok_reply r
          then (say Good (''Successfully Overrode Decision '' @ hd (js_split (CHR ''-'') decisionId)) c)
                 \<lparr>co_escalations := filter (\<lambda>(d, p, t). d_id d \<noteq> decisionId) (co_escalations c), co_selected := None\<rparr>
          else say Bad (''Override failed: '' @ js_string (or_else (jget (reply_body r) ''error'') (JStr ''Override failed''))) c)"

definition form_json :: "form \<Rightarrow> json" where
  "form_json f = JObj
     [(''active_provider'', JStr (fo_provider f)), (''openai_key'', JStr (fo_openai f)), (''anthropic_key'', JStr (fo_anthropic f)),
      (''model'', JStr (fo_model f)), (''base_url'', JStr (fo_base f))]"

text \<open>A successful save fetches the settings again; \<open>refetch\<close> is the answer to that.\<close>

definition handleSaveSettings :: "answer \<Rightarrow> answer \<Rightarrow> console \<Rightarrow> console" where
  "handleSaveSettings a refetch c =
     (case a of
        Inl m \<Rightarrow> say Bad (''Save failed: '' @ m) c
      | Inr r \<Rightarrow>
          if ok_reply r then fetchSettings refetch (say Good ''Settings saved and encrypted successfully.'' c)
          else say Bad ''Save failed: Save failed'' c)"

definition test_body :: "string \<Rightarrow> form \<Rightarrow> json" where
  "test_body name f = obj_literal
     [(''provider'', Some (JStr name)),
      (''key'', if name = ''openai'' \<or> name = ''custom'' then Some (JStr (fo_openai f))
                else if name = ''anthropic'' then Some (JStr (fo_anthropic f)) else None),
      (''model'', if fo_model f = [] then None else Some (JStr (fo_model f))),
      (''base_url'', if fo_base f = [] then None else Some (JStr (fo_base f)))]"

definition start_test :: "console \<Rightarrow> console" where
  "start_test c = c\<lparr>co_testing := True\<rparr>"

definition handleTestConnection :: "answer \<Rightarrow> console \<Rightarrow> console" where
  "handleTestConnection a c =
     (case a of
        Inl m \<Rightarrow> say Bad (''Test Failed: '' @ m) c
      | Inr r \<Rightarrow>
          if ok_reply r then say Good (''Test Passed: '' @ opt_string (jget (reply_body r) ''message'')) c
          else say Bad (''Test Failed: '' @ (case jget (reply_body r) ''error'' of None \<Rightarrow> [] | Some e \<Rightarrow> js_string e)) c)
       \<lparr>co_testing := False\<rparr>"

subsection \<open>The console and the server\<close>

text \<open>Each button with the endpoint behind it, on a connection that works.\<close>

definition poll :: "api_env \<Rightarrow> string option \<Rightarrow> string \<Rightarrow> int \<Rightarrow> bool \<Rightarrow> console \<times> world \<Rightarrow> console \<times> world" where
  "poll av key ip now up s =
     (case s of (c, w) \<Rightarrow>
        (case admit av now up Get_Decisions (page_request key True ip ''GET'' JNull) w of
           (Inl r, w1) \<Rightarrow> (fetchEscalations None c, w1)
         | (Inr u, w1) \<Rightarrow> (fetchEscalations (Some (getEscalatedDecisions u w1)) c, w1)))"

definition press_override :: "runtime \<Rightarrow> api_env \<Rightarrow> string option \<Rightarrow> string \<Rightarrow> (nat \<Rightarrow> int) \<Rightarrow> bool \<Rightarrow> bool \<Rightarrow> tool_env \<Rightarrow> string
    \<Rightarrow> console \<times> world \<Rightarrow> console \<times> world" where
  "press_override rt av key ip clk up late env decisionId s =
     (case s of (c, w) \<Rightarrow>
        (case serve av (clk 0) up Post_Override
                (\<lambda>u. overrideDecision rt clk up late env decisionId (us_tenant u) (us_id u))
                (page_request key True ip ''POST'' JNull) w of
           (r, w1) \<Rightarrow> (handleOverride decisionId (Inr r) c, w1)))"

definition press_save :: "api_env \<Rightarrow> cipher \<Rightarrow> string \<Rightarrow> string \<Rightarrow> string option \<Rightarrow> string \<Rightarrow> int \<Rightarrow> bool \<Rightarrow> answer
    \<Rightarrow> console \<times> world \<Rightarrow> console \<times> world" where
  "press_save av ci iv1 iv2 key ip now up refetch s =
     (case s of (c, w) \<Rightarrow>
        (let body = form_json (co_form c)
         in case serve av now up Settings_Routes (\<lambda>u. save_settings ci iv1 iv2 u body)
                   (page_request key False ip ''POST'' body) w of
              (r, w1) \<Rightarrow> (handleSaveSettings (Inr r) refetch c, w1)))"

definition press_test :: "api_env \<Rightarrow> cipher \<Rightarrow> vendor \<Rightarrow> string option \<Rightarrow> string \<Rightarrow> int \<Rightarrow> bool \<Rightarrow> string
    \<Rightarrow> console \<times> world \<Rightarrow> console \<times> world" where
  "press_test av ci vendor key ip now up name s =
     (case s of (c, w) \<Rightarrow>
        (let body = test_body name (co_form c)
         in case serve av now up Settings_Routes (\<lambda>u w1. (test_connection ci vendor u body w1, w1))
                   (page_request key False ip ''POST'' body) w of
              (r, w1) \<Rightarrow> (handleTestConnection (Inr r) (start_test c), w1)))"

subsection \<open>What the buttons achieve\<close>

lemma unnamed_refused:
  "admit av now up ep (page_request key False ip method body) w = (x, w') \<Longrightarrow> \<exists>r. x = Inl r"
  by (auto simp: admit_def requireAuth_def authenticateAPIKey_def page_request_def page_headers_def header_def str_or_def
      split: option.splits prod.splits)

lemma refusal_not_ok: "refusal r \<Longrightarrow> \<not> ok_reply r"
  by (auto simp: refusal_def)

lemma unnamed_serve:
  assumes "serve av now up ep handler (page_request key False ip method body) w = (r, w')"
  shows "\<not> ok_reply r \<and> api_frame w w'"
proof -
  obtain x w1 where x: "admit av now up ep (page_request key False ip method body) w = (x, w1)" by fastforce
  then obtain q where "x = Inl q" using unnamed_refused by blast
  then show ?thesis using assms admit_cases [OF x] x refusal_not_ok by (auto simp: serve_def)
qed

text \<open>
  The settings form of the console cannot save. Its request does not name the user, so the
  server refuses it whatever the key and the settings, the stored settings stay as they were,
  and the console reports a failed save.
\<close>

theorem console_cannot_save:
  "\<exists>c' w'. press_save av ci iv1 iv2 key ip now up refetch (c, w) = (c', w')
     \<and> settings w' = settings w \<and> c' = say Bad ''Save failed: Save failed'' c"
proof -
  let ?rq = "page_request key False ip ''POST'' (form_json (co_form c))"
  obtain r w' where s: "serve av now up Settings_Routes (\<lambda>u. save_settings ci iv1 iv2 u (form_json (co_form c))) ?rq w = (r, w')"
    by fastforce
  then have "\<not> ok_reply r" "api_frame w w'" using unnamed_serve by blast+
  then show ?thesis using s by (simp add: press_save_def handleSaveSettings_def api_frame_def Let_def)
qed

text \<open>
  The console takes an approval that leaves the decision pending for an override: it announces
  success and drops the decision, which still waits for other approvers; nothing was executed.
\<close>

theorem pending_vote_shown_as_success:
  assumes ad: "admit av (clk 0) up Post_Override (page_request key True ip ''POST'' JNull) w = (Inr u, w1)"
    and rd: "override_read (clk 0) i (us_tenant u) (us_id u) w1 = Inr d"
    and cv: "cast_vote (us_id u) d w1 = (True, w2)" and more: "vote_count d < d_requiredApprovers d"
  shows "press_override rt av key ip clk up late env i (c, w) =
      (c\<lparr>co_toast := Some (''Successfully Overrode Decision '' @ hd (js_split (CHR ''-'') i), Good),
         co_escalations := filter (\<lambda>(d, p, t). d_id d \<noteq> i) (co_escalations c), co_selected := None\<rparr>, w2)
    \<and> calls w2 = calls w \<and> executions w2 = executions w"
proof -
  have "overrideDecision rt clk up late env i (us_tenant u) (us_id u) w1 = (need_more (us_id u) d, w2)"
    using rd cv more by (simp add: overrideDecision_def)
  then have "serve av (clk 0) up Post_Override (\<lambda>u. overrideDecision rt clk up late env i (us_tenant u) (us_id u))
      (page_request key True ip ''POST'' JNull) w = (need_more (us_id u) d, w2)"
    using ad by (simp add: serve_def)
  moreover have "calls w2 = calls w1" "executions w2 = executions w1" using cv by (auto simp: cast_vote_def Let_def)
  moreover have "api_frame w w1" using admit_cases [OF ad] by blast
  ultimately show ?thesis by (simp add: press_override_def handleOverride_def need_more_def say_def api_frame_def)
qed

end
