(* ===== verification/Authority.thy ===== *)
theory Authority
  imports Override
begin

section \<open>The authority machine: what may change decisions, tokens, calls and the audit log\<close>

text \<open>
  An abstract specification of the platform. Of a state of the program it keeps the ids drawn,
  the options of the proposals, the decisions, the tokens, the tool calls and the audit log;
  its steps are the commits that may touch them. The invariants of the machine are the promises
  of the platform: one call per decision at most, no call without an authorization, no action
  that requires a human without enough distinct approvers, and a log in which every entry is
  chained to its predecessor. The theory System shows that every operation of the program is a
  sequence of these steps.
\<close>

subsection \<open>States and steps\<close>

record authority =
  au_drawn :: nat
  au_options :: "(string \<times> json) list"
  au_decisions :: "decision_row list"
  au_tokens :: "token_row list"
  au_calls :: "tool_call list"
  au_audits :: "audit_row list"

definition authority_of :: "world \<Rightarrow> authority" where
  "authority_of w =
     \<lparr>au_drawn = uuids_drawn w, au_options = map (\<lambda>p. (p_id p, p_recommendedOption p)) (proposals w),
      au_decisions = decisions w, au_tokens = tokens w, au_calls = calls w, au_audits = audits w\<rparr>"

text \<open>The action of an option, when no human has to review it.\<close>

definition unattended :: "json \<Rightarrow> bool" where
  "unattended v \<longleftrightarrow> (\<exists>a cap. jget v ''actionType'' = Some (JStr a) \<and> getCapabilityForTool (Some (JStr a)) = Some cap \<and> \<not> cap_human cap)"

text \<open>An entry of the log: \<open>r\<close> is the row the logger writes for \<open>dt\<close> after \<open>rows\<close>.\<close>

definition hash_before :: "string \<Rightarrow> audit_row list \<Rightarrow> string option" where
  "hash_before tid rows = previous_hash tid (empty_world\<lparr>audits := rows\<rparr>)"

definition entry_after :: "runtime \<Rightarrow> audit_row list \<Rightarrow> audit_details \<Rightarrow> audit_row \<Rightarrow> bool" where
  "entry_after rt rows dt r \<longleftrightarrow> a_tenantId r = audit_tenant dt \<and> a_previousHash r = hash_before (audit_tenant dt) rows
     \<and> a_currentHash r = rt_sha256 rt (entry_text dt (hash_before (audit_tenant dt) rows))
     \<and> a_actionDetails r = l_actionDetails dt \<and> a_decisionId r = l_decisionId dt \<and> a_proposalId r = l_proposalId dt"

inductive au_step :: "runtime \<Rightarrow> authority \<Rightarrow> authority \<Rightarrow> bool" for rt :: runtime where
  drawn: "au_drawn a \<le> n \<Longrightarrow> au_step rt a (a\<lparr>au_drawn := n\<rparr>)"
| proposed: "au_step rt a (a\<lparr>au_options := au_options a @ [(i, v)]\<rparr>)"
| decided: "d_id d = rt_uuid rt (au_drawn a) \<Longrightarrow> d_approvalsCount d = 0 \<Longrightarrow> d_approverIdentities d = None \<Longrightarrow>
     d_decisionType d \<noteq> D_HUMAN_OVERRIDE_APPROVED \<Longrightarrow>
     (is_approve (d_decisionType d) \<Longrightarrow> \<exists>v. map_of (au_options a) (d_proposalId d) = Some v \<and> unattended v) \<Longrightarrow>
     length ks \<le> 1 \<Longrightarrow>
     (\<And>k. k \<in> set ks \<Longrightarrow> k_nonce k = rt_uuid rt (Suc (au_drawn a)) \<and> k_decisionId k = d_id d \<and> \<not> k_used k) \<Longrightarrow>
     au_step rt a (a\<lparr>au_drawn := Suc (Suc (au_drawn a)), au_decisions := au_decisions a @ [d], au_tokens := au_tokens a @ ks\<rparr>)"
| voted: "d \<in> set (au_decisions a) \<Longrightarrow> plain_user u \<Longrightarrow> u \<notin> set (approvers d) \<Longrightarrow>
     au_step rt a (a\<lparr>au_decisions := update_where (\<lambda>x. d_id x = d_id d \<and> votable (d_approvalsCount d) x)
       (add_vote (vote_string u d)) (au_decisions a)\<rparr>)"
| locked: "au_step rt a (a\<lparr>au_decisions := update_where (\<lambda>x. d_id x = i \<and> escalated x) lock_row (au_decisions a)\<rparr>)"
| overridden: "x \<in> set (au_decisions a) \<Longrightarrow> d_requiredApprovers x \<le> d_approvalsCount x \<Longrightarrow> approvers x \<noteq> [] \<Longrightarrow>
     k_nonce k = rt_uuid rt (Suc (au_drawn a)) \<Longrightarrow> k_decisionId k = rt_uuid rt (au_drawn a) \<Longrightarrow> \<not> k_used k \<Longrightarrow>
     au_step rt a (a\<lparr>au_drawn := Suc (Suc (au_drawn a)),
       au_decisions := au_decisions a @ [x\<lparr>d_id := rt_uuid rt (au_drawn a), d_decisionType := D_HUMAN_OVERRIDE_APPROVED,
         d_approvedPayloadHash := h, d_createdAt := t\<rparr>],
       au_tokens := au_tokens a @ [k]\<rparr>)"
| executed: "d \<in> set (au_decisions a) \<Longrightarrow> executable (d_decisionType d) \<Longrightarrow> map_of (au_options a) (d_proposalId d) = Some v \<Longrightarrow>
     jget v ''actionType'' = Some (JStr act) \<Longrightarrow> getCapabilityForTool (Some (JStr act)) \<noteq> None \<Longrightarrow>
     k \<in> set (au_tokens a) \<Longrightarrow> k_decisionId k = d_id d \<Longrightarrow> token_consumable now k \<Longrightarrow>
     cs = [] \<or> cs = [\<lparr>tc_action = act, tc_parameters = jget v ''parameters'', tc_decisionId = d_id d, tc_providerKey = pk\<rparr>] \<Longrightarrow>
     au_step rt a (a\<lparr>au_tokens := update_where (\<lambda>r. k_nonce r = k_nonce k \<and> token_consumable now r) (token_spend now) (au_tokens a),
       au_calls := au_calls a @ cs\<rparr>)"
| logged: "entry_after rt (au_audits a) dt r \<Longrightarrow> au_step rt a (a\<lparr>au_audits := au_audits a @ [r]\<rparr>)"

inductive_cases au_stepE: "au_step rt a b"

abbreviation au_steps :: "runtime \<Rightarrow> authority \<Rightarrow> authority \<Rightarrow> bool" where
  "au_steps rt \<equiv> rtranclp (au_step rt)"

subsection \<open>The invariant\<close>

definition counted :: "decision_row \<Rightarrow> bool" where
  "counted d \<longleftrightarrow> int (length (approvers d)) = d_approvalsCount d \<and> distinct (approvers d) \<and> list_all plain_user (approvers d)"

definition sound_row :: "(string \<times> json) list \<Rightarrow> decision_row \<Rightarrow> bool" where
  "sound_row opts d \<longleftrightarrow> counted d
     \<and> (is_approve (d_decisionType d) \<longrightarrow> (\<exists>v. map_of opts (d_proposalId d) = Some v \<and> unattended v))
     \<and> (d_decisionType d = D_HUMAN_OVERRIDE_APPROVED \<longrightarrow> d_requiredApprovers d \<le> d_approvalsCount d \<and> approvers d \<noteq> [])"

definition authorized :: "(string \<times> json) list \<Rightarrow> decision_row list \<Rightarrow> tool_call \<Rightarrow> bool" where
  "authorized opts ds c \<longleftrightarrow> (\<exists>d v. d \<in> set ds \<and> d_id d = tc_decisionId c \<and> executable (d_decisionType d)
     \<and> map_of opts (d_proposalId d) = Some v \<and> jget v ''actionType'' = Some (JStr (tc_action c))
     \<and> tc_parameters c = jget v ''parameters'' \<and> getCapabilityForTool (Some (JStr (tc_action c))) \<noteq> None)"

definition fresh_ids :: "runtime \<Rightarrow> nat \<Rightarrow> string list \<Rightarrow> bool" where
  "fresh_ids rt n ids \<longleftrightarrow> distinct ids \<and> set ids \<subseteq> rt_uuid rt ` {..<n}"

inductive written :: "runtime \<Rightarrow> audit_row list \<Rightarrow> bool" for rt :: runtime where
  empty_log: "written rt []"
| next_entry: "written rt rows \<Longrightarrow> entry_after rt rows dt r \<Longrightarrow> written rt (rows @ [r])"

text \<open>The uses of the tokens of a decision bound its calls.\<close>

definition spent_for :: "string \<Rightarrow> token_row list \<Rightarrow> nat" where
  "spent_for did ks = count_where (\<lambda>k. k_decisionId k = did \<and> k_used k) ks"

definition made_for :: "string \<Rightarrow> tool_call list \<Rightarrow> nat" where
  "made_for did cs = count_where (\<lambda>c. tc_decisionId c = did) cs"

definition au_ok :: "runtime \<Rightarrow> authority \<Rightarrow> bool" where
  "au_ok rt a \<longleftrightarrow> fresh_ids rt (au_drawn a) (map d_id (au_decisions a))
     \<and> fresh_ids rt (au_drawn a) (map k_nonce (au_tokens a)) \<and> fresh_ids rt (au_drawn a) (map k_decisionId (au_tokens a))
     \<and> (\<forall>d \<in> set (au_decisions a). sound_row (au_options a) d)
     \<and> (\<forall>c \<in> set (au_calls a). authorized (au_options a) (au_decisions a) c)
     \<and> (\<forall>did. made_for did (au_calls a) \<le> spent_for did (au_tokens a))
     \<and> written rt (au_audits a)"

lemma fresh_ids_mono: "fresh_ids rt n ids \<Longrightarrow> n \<le> m \<Longrightarrow> fresh_ids rt m ids"
  by (force simp: fresh_ids_def)

lemma fresh_ids_snoc:
  assumes "fresh_ids rt n ids" and "inj (rt_uuid rt)" and "n \<le> i" and "i < m"
  shows "fresh_ids rt m (ids @ [rt_uuid rt i])"
proof -
  have "rt_uuid rt i \<notin> rt_uuid rt ` {..<n}" using assms(2,3) by (auto dest: injD)
  then show ?thesis using assms(1,3,4) by (force simp: fresh_ids_def)
qed

lemma sound_options: "sound_row opts d \<Longrightarrow> sound_row (opts @ rest) d"
  by (auto simp: sound_row_def map_add_Some_iff)

lemma authorized_more: "authorized opts ds c \<Longrightarrow> authorized (opts @ rest) (ds @ ds') c"
  by (auto simp: authorized_def map_add_Some_iff)

lemma rows_after_vote:
  assumes "x \<in> set (update_where (\<lambda>x. d_id x = i \<and> votable n x) (add_vote ids) ds)"
  shows "x \<in> set ds \<or> (\<exists>y \<in> set ds. d_id y = i \<and> votable n y \<and> x = add_vote ids y)"
  using vote.row_after [OF assms] .

lemma rows_after_lock:
  assumes "x \<in> set (update_where (\<lambda>x. d_id x = i \<and> escalated x) lock_row ds)"
  shows "x \<in> set ds \<or> (\<exists>y \<in> set ds. d_id y = i \<and> escalated y \<and> x = lock_row y)"
  using override_lock.row_after [OF assms] .

lemma sound_vote:
  assumes "sound_row opts d" and "plain_user u" and "u \<notin> set (approvers d)"
  shows "sound_row opts (add_vote (vote_string u d) d)"
proof -
  have "approvers (add_vote (vote_string u d) d) = approvers d @ [u]"
    using assms by (intro approvers_vote) (auto simp: sound_row_def counted_def)
  then show ?thesis using assms by (auto simp: sound_row_def counted_def add_vote_def)
qed

lemma sound_lock: "sound_row opts d \<Longrightarrow> sound_row opts (lock_row d)"
  by (auto simp: sound_row_def counted_def lock_row_def approvers_def)

text \<open>A vote or a lock only rewrites escalated rows, which no call can rest on.\<close>

lemma executable_kept:
  assumes "d \<in> set ds" and "executable (d_decisionType d)"
  shows "d \<in> set (update_where (\<lambda>x. d_id x = i \<and> votable n x) f ds)"
    "d \<in> set (update_where (\<lambda>x. d_id x = i \<and> escalated x) f ds)"
  using assms by (auto simp: set_update_where executable_def votable_def escalated_def)

lemma authorized_kept:
  assumes "authorized opts ds c"
  shows "authorized opts (update_where (\<lambda>x. d_id x = i \<and> votable n x) f ds) c"
    "authorized opts (update_where (\<lambda>x. d_id x = i \<and> escalated x) f ds) c"
  using assms executable_kept unfolding authorized_def by blast+

lemma token_spend_simps [simp]:
  "k_used (token_spend now k)" "k_nonce (token_spend now k) = k_nonce k" "k_decisionId (token_spend now k) = k_decisionId k"
  by (simp_all add: token_spend_def)

lemma spent_grows: "spent_for did ks \<le> spent_for did (update_where p (token_spend now) ks)"
  by (induction ks) (auto simp: spent_for_def)

lemma spent_more:
  assumes "k \<in> set ks" and "p k" and "\<not> k_used k"
  shows "spent_for (k_decisionId k) ks < spent_for (k_decisionId k) (update_where p (token_spend now) ks)"
  using assms
proof (induction ks)
  case (Cons r ks)
  show ?case
  proof (cases "k = r")
    case True
    then show ?thesis
      using Cons.prems spent_grows [of "k_decisionId r" ks p now] by (simp add: spent_for_def)
  next
    case False
    then show ?thesis using Cons by (auto simp: spent_for_def)
  qed
qed simp

lemma token_columns:
  "map k_nonce (update_where p (token_spend now) ks) = map k_nonce ks"
  "map k_decisionId (update_where p (token_spend now) ks) = map k_decisionId ks"
  by (simp_all add: map_update_where)

lemma spent_le_1: "distinct (map k_decisionId ks) \<Longrightarrow> spent_for did ks \<le> 1"
  unfolding spent_for_def by (rule count_key_le_1)

text \<open>A new decision with at most one token, both under fresh ids.\<close>

lemma grant_ok:
  assumes ok: "au_ok rt a" and inj: "inj (rt_uuid rt)"
    and d: "d_id d = rt_uuid rt (au_drawn a)" "sound_row (au_options a) d"
    and ks: "length ks \<le> 1"
      "\<And>k. k \<in> set ks \<Longrightarrow> k_nonce k = rt_uuid rt (Suc (au_drawn a)) \<and> k_decisionId k = d_id d \<and> \<not> k_used k"
  shows "au_ok rt (a\<lparr>au_drawn := Suc (Suc (au_drawn a)), au_decisions := au_decisions a @ [d], au_tokens := au_tokens a @ ks\<rparr>)"
proof -
  let ?n = "au_drawn a"
  have ids: "fresh_ids rt (Suc (Suc ?n)) (map d_id (au_decisions a) @ [d_id d])"
    using ok d(1) fresh_ids_snoc [OF _ inj, of ?n "map d_id (au_decisions a)" ?n "Suc (Suc ?n)"] by (simp add: au_ok_def)
  have k1: "ks = [] \<or> (\<exists>k. ks = [k] \<and> k_nonce k = rt_uuid rt (Suc ?n) \<and> k_decisionId k = rt_uuid rt ?n \<and> \<not> k_used k)"
    using ks d(1) by (cases ks) auto
  have ns: "fresh_ids rt (Suc (Suc ?n)) (map k_nonce (au_tokens a) @ map k_nonce ks)"
    "fresh_ids rt (Suc (Suc ?n)) (map k_decisionId (au_tokens a) @ map k_decisionId ks)"
    using ok k1 fresh_ids_mono [of rt ?n _ "Suc (Suc ?n)"] fresh_ids_snoc [OF _ inj, of ?n _ "Suc ?n" "Suc (Suc ?n)"]
      fresh_ids_snoc [OF _ inj, of ?n _ ?n "Suc (Suc ?n)"]
    by (auto simp: au_ok_def)
  have "spent_for did (au_tokens a @ ks) = spent_for did (au_tokens a)" for did
    using k1 by (auto simp: spent_for_def count_where_append)
  then show ?thesis
    using ok d(2) ids ns authorized_more [of "au_options a" "au_decisions a" _ "[]" "[d]"] by (auto simp: au_ok_def)
qed

lemma rows_ok:
  assumes "au_ok rt a" and "map d_id ds = map d_id (au_decisions a)"
    and "\<And>x. x \<in> set ds \<Longrightarrow> sound_row (au_options a) x"
    and "\<And>c. authorized (au_options a) (au_decisions a) c \<Longrightarrow> authorized (au_options a) ds c"
  shows "au_ok rt (a\<lparr>au_decisions := ds\<rparr>)"
  using assms by (auto simp: au_ok_def)

lemma vote_ok:
  assumes ok: "au_ok rt a" and d: "d \<in> set (au_decisions a)" and u: "plain_user u" "u \<notin> set (approvers d)"
  shows "au_ok rt (a\<lparr>au_decisions := update_where (\<lambda>x. d_id x = d_id d \<and> votable (d_approvalsCount d) x)
       (add_vote (vote_string u d)) (au_decisions a)\<rparr>)"
proof (rule rows_ok [OF ok])
  have same: "y = d" if "y \<in> set (au_decisions a)" "d_id y = d_id d" for y
    using that ok d by (auto simp: au_ok_def fresh_ids_def distinct_map dest: inj_onD)
  show "sound_row (au_options a) x"
    if "x \<in> set (update_where (\<lambda>x. d_id x = d_id d \<and> votable (d_approvalsCount d) x) (add_vote (vote_string u d)) (au_decisions a))" for x
    using rows_after_vote [OF that] same sound_vote [OF _ u] ok d by (auto simp: au_ok_def)
qed (simp_all add: authorized_kept vote.keys_kept)

lemma lock_ok:
  assumes ok: "au_ok rt a"
  shows "au_ok rt (a\<lparr>au_decisions := update_where (\<lambda>x. d_id x = i \<and> escalated x) lock_row (au_decisions a)\<rparr>)"
proof (rule rows_ok [OF ok])
  show "sound_row (au_options a) x"
    if "x \<in> set (update_where (\<lambda>x. d_id x = i \<and> escalated x) lock_row (au_decisions a))" for x
    using rows_after_lock [OF that] sound_lock ok by (auto simp: au_ok_def)
qed (simp_all add: authorized_kept override_lock.keys_kept)

lemma execute_ok:
  assumes ok: "au_ok rt a" and k: "k \<in> set (au_tokens a)" "token_consumable now k"
    and cs: "cs = [] \<or> (\<exists>c. cs = [c] \<and> tc_decisionId c = k_decisionId k \<and> authorized (au_options a) (au_decisions a) c)"
  shows "au_ok rt (a\<lparr>au_tokens := update_where (\<lambda>r. k_nonce r = k_nonce k \<and> token_consumable now r) (token_spend now) (au_tokens a),
       au_calls := au_calls a @ cs\<rparr>)"
proof -
  let ?ks = "update_where (\<lambda>r. k_nonce r = k_nonce k \<and> token_consumable now r) (token_spend now) (au_tokens a)"
  have more: "spent_for (k_decisionId k) (au_tokens a) < spent_for (k_decisionId k) ?ks"
    using k by (intro spent_more) (auto simp: token_consumable_def)
  have le: "made_for did (au_calls a) \<le> spent_for did (au_tokens a)" for did using ok by (simp add: au_ok_def)
  have "made_for did (au_calls a @ cs) \<le> spent_for did ?ks" for did
  proof (cases "did = k_decisionId k")
    case True
    then show ?thesis using cs more le [of did] by (auto simp: made_for_def count_where_append)
  next
    case False
    then have "made_for did (au_calls a @ cs) = made_for did (au_calls a)"
      using cs by (auto simp: made_for_def count_where_append)
    then show ?thesis using le [of did] spent_grows order_trans by metis
  qed
  then show ?thesis using ok cs by (auto simp: au_ok_def token_columns)
qed

text \<open>Every step keeps the invariant; ids are drawn without repetition.\<close>

lemma au_step_ok:
  assumes "au_step rt a b" and ok: "au_ok rt a" and inj: "inj (rt_uuid rt)"
  shows "au_ok rt b"
  using assms(1)
proof cases
  case (drawn n)
  then show ?thesis using ok fresh_ids_mono by (fastforce simp: au_ok_def)
next
  case (proposed i v)
  then show ?thesis
    using ok sound_options [of "au_options a" _ "[(i, v)]"] authorized_more [of "au_options a" "au_decisions a" _ "[(i, v)]" "[]"]
    by (auto simp: au_ok_def)
next
  case (decided d ks)
  then have "sound_row (au_options a) d" by (auto simp: sound_row_def counted_def approvers_def)
  then show ?thesis unfolding decided(1) by (rule grant_ok [OF ok inj decided(2)]) (use decided in auto)
next
  case (voted d u)
  then show ?thesis using vote_ok [OF ok] by simp
next
  case (locked i)
  then show ?thesis using lock_ok [OF ok] by simp
next
  case (overridden x k t h)
  let ?d = "x\<lparr>d_id := rt_uuid rt (au_drawn a), d_decisionType := D_HUMAN_OVERRIDE_APPROVED, d_approvedPayloadHash := h, d_createdAt := t\<rparr>"
  have "sound_row (au_options a) x" using ok overridden(2) by (simp add: au_ok_def)
  then have "sound_row (au_options a) ?d" using overridden by (simp add: sound_row_def counted_def approvers_def)
  then show ?thesis unfolding overridden(1) by (intro grant_ok [OF ok inj]) (use overridden in auto)
next
  case (executed d v act k now cs pk)
  let ?c = "\<lparr>tc_action = act, tc_parameters = jget v ''parameters'', tc_decisionId = d_id d, tc_providerKey = pk\<rparr>"
  have "authorized (au_options a) (au_decisions a) ?c" unfolding authorized_def using executed(2-6) by auto
  then have "cs = [] \<or> (\<exists>c. cs = [c] \<and> tc_decisionId c = k_decisionId k \<and> authorized (au_options a) (au_decisions a) c)"
    using executed(8,10) by auto
  then show ?thesis using execute_ok [OF ok] executed by simp
next
  case (logged dt r)
  then show ?thesis using ok next_entry by (auto simp: au_ok_def)
qed

lemma au_steps_ok: "au_steps rt a b \<Longrightarrow> au_ok rt a \<Longrightarrow> inj (rt_uuid rt) \<Longrightarrow> au_ok rt b"
  by (induction rule: rtranclp_induct) (auto intro: au_step_ok)

lemma au_step_logs: "au_step rt a b \<Longrightarrow> prefix (au_audits a) (au_audits b)"
  by (auto elim!: au_stepE)

lemma au_steps_logs: "au_steps rt a b \<Longrightarrow> prefix (au_audits a) (au_audits b)"
  by (induction rule: rtranclp_induct) (auto dest: au_step_logs intro: prefix_order.trans)

end
