(* ===== verification/System.thy ===== *)
theory System
  imports Authority Workflow_Laws Workers Api_Laws Webhook
begin

section \<open>The whole platform refines the authority machine\<close>

text \<open>
  Every operation of the program that changes the database is a sequence of steps of the
  authority machine, so that the machine's invariants hold of the platform: of every sequence
  of tasks, runs of the workflow, overrides, rollbacks, sweeps, webhooks and administration.
\<close>

subsection \<open>Refinement of one operation\<close>

definition refines :: "runtime \<Rightarrow> world \<Rightarrow> world \<Rightarrow> bool" where
  "refines rt w w' \<longleftrightarrow> (au_ok rt (authority_of w) \<longrightarrow>
     au_steps rt (authority_of w) (authority_of w') \<and> au_ok rt (authority_of w'))"

lemma refinesI:
  assumes "inj (rt_uuid rt)" and "au_ok rt (authority_of w) \<Longrightarrow> au_steps rt (authority_of w) (authority_of w')"
  shows "refines rt w w'"
  using assms au_steps_ok by (auto simp: refines_def)

lemma refines_refl [simp]: "refines rt w w"
  by (simp add: refines_def)

lemma refines_trans [trans]: "refines rt a b \<Longrightarrow> refines rt b c \<Longrightarrow> refines rt a c"
  by (auto simp: refines_def intro: rtranclp_trans)

text \<open>An operation that only draws ids is nothing to the machine.\<close>

definition still :: "world \<Rightarrow> world \<Rightarrow> bool" where
  "still w w' \<longleftrightarrow> (\<exists>n \<ge> uuids_drawn w. authority_of w' = (authority_of w)\<lparr>au_drawn := n\<rparr>)"

lemma still_iff:
  "still w w' \<longleftrightarrow> uuids_drawn w \<le> uuids_drawn w' \<and> decisions w' = decisions w \<and> tokens w' = tokens w \<and> calls w' = calls w
     \<and> audits w' = audits w \<and> map (\<lambda>p. (p_id p, p_recommendedOption p)) (proposals w') = map (\<lambda>p. (p_id p, p_recommendedOption p)) (proposals w)"
  by (auto simp: still_def authority_of_def)

lemma still_refl [simp]: "still w w"
  by (simp add: still_iff)

lemma still_trans: "still a b \<Longrightarrow> still b c \<Longrightarrow> still a c"
  by (simp add: still_iff)

lemma still_refines: "still w w' \<Longrightarrow> inj (rt_uuid rt) \<Longrightarrow> refines rt w w'"
  using au_step.drawn [of "authority_of w"] by (auto simp: still_def authority_of_def intro!: refinesI r_into_rtranclp)

lemma still_updates [simp]:
  "still w (update_task i f w)" "still w (update_execution i g w)" "still w (update_record i g w)" "still w (set_task i st w)"
  "still w (await_human i now w)" "still w (fail_task i w)" "still w (complete_task i w)"
  by (auto simp: still_iff update_task_def update_execution_def update_record_def set_task_def await_human_def fail_task_def
      complete_task_def split: option.split)

lemma still_tasks [simp]: "still w (w\<lparr>tasks := ts\<rparr>)"
  by (simp add: still_iff)

lemma hash_before_audits: "previous_hash tid w = hash_before tid (audits w)"
  by (simp add: hash_before_def previous_hash_def)

lemma logAction_entry: "\<exists>r. audits (logAction rt now dt w) = audits w @ [r] \<and> entry_after rt (audits w) dt r"
  using logAction_appends [of rt now dt w] by (auto simp: entry_after_def hash_before_audits)

lemma log_refines: "inj (rt_uuid rt) \<Longrightarrow> refines rt w (logAction rt now dt w)"
proof (rule refinesI)
  obtain r where r: "audits (logAction rt now dt w) = audits w @ [r]" "entry_after rt (audits w) dt r"
    using logAction_entry by blast
  let ?a = "(authority_of w)\<lparr>au_drawn := Suc (uuids_drawn w)\<rparr>"
  have "au_step rt (authority_of w) ?a" by (rule au_step.drawn) (simp add: authority_of_def)
  moreover have "au_step rt ?a (?a\<lparr>au_audits := au_audits ?a @ [r]\<rparr>)"
    by (rule au_step.logged [of _ _ dt]) (use r in \<open>simp add: authority_of_def\<close>)
  moreover have "?a\<lparr>au_audits := au_audits ?a @ [r]\<rparr> = authority_of (logAction rt now dt w)" by (simp add: authority_of_def r)
  ultimately show "au_steps rt (authority_of w) (authority_of (logAction rt now dt w))" by auto
qed

lemma log_after:
  assumes "inj (rt_uuid rt)" and "refines rt w w1"
  shows "refines rt w (logAction rt now dt w1)"
  using assms log_refines refines_trans by blast

subsection \<open>The operator\<close>

lemma window_authority: "window_incr now k ttl w = (n, w') \<Longrightarrow> authority_of w' = authority_of w"
  by (simp add: authority_of_def window_incr_frame)

lemma tool_authority: "tool_execute t env ps ctx w = (x, w') \<Longrightarrow> authority_of w' = authority_of w"
  using any_tool.files_only [of t env ps ctx w x w'] by (auto simp: authority_of_def)

lemma run_contract_authority:
  assumes "run_contract up now late env t d pk ps w = (x, w')"
  shows "\<exists>cs. (cs = [] \<or> cs = [call_of t d pk ps]) \<and> authority_of w' = (authority_of w)\<lparr>au_calls := calls w @ cs\<rparr>"
proof -
  let ?lim = "ct_rateLimitPerMinute (tool_contract t) > 0"
  let ?ctx = "\<lparr>tx_constraints = d_constraints d, tx_rollbackActive = False, tx_rollbackData = None,
                 tx_providerIdempotencyKey = Some pk\<rparr>"
  obtain n w1 where w1: "(if ?lim \<and> up then window_incr now (''operator_ratelimit:'' @ d_tenantId d @ '':'' @ tool_actionType t) 60 w
      else (0, w)) = (n, w1)" by fastforce
  then have a1: "authority_of w1 = authority_of w" using window_authority by (auto split: if_splits)
  obtain y w2 where w2: "tool_execute t env ps ?ctx (log_call (call_of t d pk ps) w1) = (y, w2)" by fastforce
  have a2: "authority_of w2 = (authority_of w1)\<lparr>au_calls := calls w1 @ [call_of t d pk ps]\<rparr>"
    using tool_authority [OF w2] by (simp add: authority_of_def log_call_def)
  have "w' = w \<or> w' = w1 \<or> w' = w2"
    using assms w1 w2 unfolding run_contract_def Let_def call_of_def by (auto split: prod.splits if_splits)
  moreover have "calls w1 = calls w" using a1 by (simp add: authority_of_def)
  ultimately show ?thesis using a1 a2 by (auto simp: authority_of_def)
qed

text \<open>From the consumed token on: perhaps the call, some ids, at most one entry of the log.\<close>

definition winds_up :: "runtime \<Rightarrow> tool_call \<Rightarrow> world \<Rightarrow> world \<Rightarrow> bool" where
  "winds_up rt c w w' \<longleftrightarrow> (\<exists>cs n rs. (cs = [] \<or> cs = [c]) \<and> uuids_drawn w \<le> n
     \<and> (rs = [] \<or> (\<exists>r dt. rs = [r] \<and> entry_after rt (audits w) dt r))
     \<and> authority_of w' = (authority_of w)\<lparr>au_drawn := n, au_calls := calls w @ cs, au_audits := audits w @ rs\<rparr>)"

lemma winds_up_still: "still w w' \<Longrightarrow> winds_up rt c w w'"
  unfolding winds_up_def still_def
  by (elim exE conjE, intro exI [of _ "[]"] exI conjI) (auto simp: authority_of_def)

lemma finalize_authority:
  assumes "finalize rt now later d act r w = (x, w')"
  shows "w' = update_execution (d_id d) (finish_execution now r) w
     \<or> w' = logAction rt later (operator_details d act r) (update_execution (d_id d) (finish_execution now r) w)"
  using assms by (auto simp: finalize_def Let_def split: if_splits option.splits)

lemma winds_up_log:
  assumes "authority_of w1 = (authority_of w)\<lparr>au_drawn := n, au_calls := calls w @ cs\<rparr>" and "uuids_drawn w \<le> n"
    and "cs = [] \<or> cs = [c]"
  shows "winds_up rt c w w1" "winds_up rt c w (logAction rt now dt w1)"
proof -
  have w1: "uuids_drawn w1 = n" "calls w1 = calls w @ cs" "audits w1 = audits w" "decisions w1 = decisions w" "tokens w1 = tokens w"
    "map (\<lambda>p. (p_id p, p_recommendedOption p)) (proposals w1) = map (\<lambda>p. (p_id p, p_recommendedOption p)) (proposals w)"
    using assms(1) by (simp_all add: authority_of_def)
  show "winds_up rt c w w1"
    unfolding winds_up_def using assms(2,3) w1 by (intro exI [of _ cs] exI [of _ n] exI [of _ "[]"]) (simp add: authority_of_def)
  obtain r where r: "audits (logAction rt now dt w1) = audits w1 @ [r]" "entry_after rt (audits w1) dt r"
    using logAction_entry by blast
  show "winds_up rt c w (logAction rt now dt w1)"
    unfolding winds_up_def using assms(2,3) w1 r
    by (intro exI [of _ cs] exI [of _ "Suc n"] exI [of _ "[r]"]) (auto simp: authority_of_def)
qed

lemma reserve_still: "reserve_execution rt d p w = (x, w') \<Longrightarrow> still w w'"
  by (auto simp: reserve_execution_def fresh_uuid_def Let_def still_iff split: option.splits if_splits)

lemma acquire_still: "acquire_lock now did w = (b, w') \<Longrightarrow> still w w'"
  by (auto simp: acquire_lock_def still_iff)

lemma locked_execution_winds_up:
  assumes "locked_execution rt clk up late env d p t w = (x, w')"
  shows "winds_up rt (call_of t d (provider_key rt d p) (jget (p_recommendedOption p) ''parameters'')) w w'"
    (is "winds_up rt ?c w w'")
proof (cases "reserve_execution rt d p w")
  case (Pair y w1)
  obtain b w2 where w2: "acquire_lock (clk 2) (d_id d) w1 = (b, w2)" by fastforce
  obtain z w3 where w3: "run_contract up (clk 3) late env t d (provider_key rt d p) (jget (p_recommendedOption p) ''parameters'') w2 = (z, w3)"
    by fastforce
  have s1: "still w w1" by (rule reserve_still [OF Pair])
  have s2: "still w w2" using s1 acquire_still [OF w2] by (rule still_trans)
  then obtain n where n: "n \<ge> uuids_drawn w" "authority_of w2 = (authority_of w)\<lparr>au_drawn := n\<rparr>" by (auto simp: still_def)
  obtain cs where cs: "cs = [] \<or> cs = [?c]" "authority_of w3 = (authority_of w2)\<lparr>au_calls := calls w2 @ cs\<rparr>"
    using run_contract_authority [OF w3] by blast
  have c2: "calls w2 = calls w" using n(2) by (simp add: authority_of_def)
  have upd: "authority_of (update_execution i f w3) = (authority_of w)\<lparr>au_drawn := n, au_calls := calls w @ cs\<rparr>" for i f
    using cs(2) n(2) c2 by (simp add: authority_of_def)
  note end_states = winds_up_log [OF upd n(1) cs(1)]
  consider "w' = w1" | "w' = w2" | i f where "w' = update_execution i f w3"
    | r act where "finalize rt (clk 4) (clk 5) d act r w3 = (x, w')"
    using assms Pair w2 w3 unfolding locked_execution_def by (auto split: sum.splits bool.splits if_splits)
  then show ?thesis
  proof cases
    case 1
    then show ?thesis using s1 by (simp add: winds_up_still)
  next
    case 2
    then show ?thesis using s2 by (simp add: winds_up_still)
  next
    case 3
    then show ?thesis using end_states(1) by simp
  next
    case 4
    then show ?thesis using finalize_authority [OF 4] end_states by blast
  qed
qed

lemma winds_up_refines:
  assumes w1: "winds_up rt c w w1"
    and b: "\<And>cs. cs = [] \<or> cs = [c] \<Longrightarrow> au_steps rt a ((authority_of w)\<lparr>au_calls := calls w @ cs\<rparr>)"
  shows "au_steps rt a (authority_of w1)"
proof -
  obtain cs n rs where e: "cs = [] \<or> cs = [c]" "uuids_drawn w \<le> n"
    "rs = [] \<or> (\<exists>r dt. rs = [r] \<and> entry_after rt (audits w) dt r)"
    "authority_of w1 = (authority_of w)\<lparr>au_drawn := n, au_calls := calls w @ cs, au_audits := audits w @ rs\<rparr>"
    using w1 unfolding winds_up_def by blast
  let ?b = "(authority_of w)\<lparr>au_calls := calls w @ cs\<rparr>"
  let ?c = "?b\<lparr>au_drawn := n\<rparr>"
  have "au_steps rt a ?b" by (rule b [OF e(1)])
  moreover have "au_step rt ?b ?c" by (rule au_step.drawn) (use e(2) in \<open>simp add: authority_of_def\<close>)
  moreover have "au_steps rt ?c (?c\<lparr>au_audits := audits w @ rs\<rparr>)"
  proof (cases "rs = []")
    case False
    then obtain r dt where "rs = [r]" "entry_after rt (audits w) dt r" using e(3) by blast
    then show ?thesis using au_step.logged [of rt ?c dt r] by (auto simp: authority_of_def)
  qed (simp add: authority_of_def)
  moreover have "?c\<lparr>au_audits := audits w @ rs\<rparr> = authority_of w1" using e(4) by (simp add: authority_of_def)
  ultimately show ?thesis by (metis rtranclp.rtrancl_into_rtrancl rtranclp_trans)
qed

lemma first_option:
  "find_first (\<lambda>p. p_id p = i) ps = Some p \<Longrightarrow> map_of (map (\<lambda>p. (p_id p, p_recommendedOption p)) ps) i = Some (p_recommendedOption p)"
  by (induction ps) (auto split: if_splits)

lemma find_option: "find_proposal w i = Some p \<Longrightarrow> map_of (au_options (authority_of w)) i = Some (p_recommendedOption p)"
  by (simp add: find_proposal_def authority_of_def first_option)

lemma spent_token:
  assumes c: "consumeToken now n w = (True, w1)" and k: "k \<in> set (tokens w)" "k_nonce k = n" "distinct (map k_nonce (tokens w))"
  shows "token_consumable now k"
proof -
  have "0 < count_where (\<lambda>k. k_nonce k = n \<and> token_consumable now k) (tokens w)" using c by (simp add: consumeToken_def)
  then obtain r where "r \<in> set (tokens w)" "k_nonce r = n" "token_consumable now r" by (auto simp: count_where_pos)
  then show ?thesis using k by (auto simp: distinct_map dest: inj_onD)
qed

lemma consume_authority:
  "consumeToken now n w = (b, w') \<Longrightarrow>
   authority_of w' = (authority_of w)\<lparr>au_tokens := update_where (\<lambda>k. k_nonce k = n \<and> token_consumable now k) (token_spend now) (tokens w)\<rparr>"
  by (auto simp: consumeToken_def authority_of_def)

lemma refused_token_still:
  assumes "consumeToken now n w = (False, w')"
  shows "still w w'"
proof -
  have "count_where (\<lambda>k. k_nonce k = n \<and> token_consumable now k) (tokens w) = 0" using assms by (simp add: consumeToken_def)
  then show ?thesis using assms by (auto simp: consumeToken_def update_where_none)
qed

lemma spend_and_call:
  assumes ok: "au_ok rt (authority_of w)" and d: "find_decision w did = Some d" "executable (d_decisionType d)"
    and p: "find_proposal w (d_proposalId d) = Some p" and chk: "check_token rt n0 w d (p_recommendedOption p) = Inr (k, act)"
    and c: "consumeToken now (k_nonce k) w = (True, w1)" and t: "act = tool_actionType t"
    and cs: "cs = [] \<or> cs = [call_of t d pk (jget (p_recommendedOption p) ''parameters'')]"
  shows "au_steps rt (authority_of w) ((authority_of w1)\<lparr>au_calls := calls w1 @ cs\<rparr>)"
proof -
  obtain cap where k: "token_of w (d_id d) = Some k" "jget (p_recommendedOption p) ''actionType'' = Some (JStr act)"
      "getCapabilityForTool (Some (JStr act)) = Some cap"
    using check_token_Inr [OF chk] by metis
  have kin: "k \<in> set (tokens w)" "k_decisionId k = d_id d"
    using k(1) find_first_in [of "\<lambda>k. k_decisionId k = d_id d" "tokens w" k] find_first_sat [of "\<lambda>k. k_decisionId k = d_id d" "tokens w" k]
    by (simp_all add: token_of_def)
  have "distinct (map k_nonce (tokens w))" using ok by (simp add: au_ok_def fresh_ids_def authority_of_def)
  then have cons: "token_consumable now k" using spent_token [OF c kin(1)] by simp
  have din: "d \<in> set (decisions w)" using d(1) find_first_in by (fastforce simp: find_decision_def)
  have "au_step rt (authority_of w) ((authority_of w)\<lparr>au_tokens := update_where (\<lambda>r. k_nonce r = k_nonce k \<and> token_consumable now r)
      (token_spend now) (au_tokens (authority_of w)), au_calls := au_calls (authority_of w) @ cs\<rparr>)"
    by (rule au_step.executed [OF _ d(2) find_option [OF p] k(2) _ _ kin(2) cons, where pk = pk])
      (use din kin(1) cs t k(3) in \<open>auto simp: authority_of_def call_of_def\<close>)
  moreover have "\<dots> = (authority_of w1)\<lparr>au_calls := calls w1 @ cs\<rparr>"
    using consume_authority [OF c] consumeToken_frame(11) [OF c] by (simp add: authority_of_def)
  ultimately show ?thesis by simp
qed

lemma execute_refines:
  assumes inj: "inj (rt_uuid rt)" and run: "executeDecision rt clk up late env did w = (x, w')"
  shows "refines rt w w'"
proof -
  obtain w1 where w1: "execute_body rt clk up late env did w = (x, w1)" "w' = w1 \<or> w' = fail_task did w1"
    using body_calls_Inl [OF run] .
  then have settled: "still w1 w'" by auto
  from w1(1) have "refines rt w w1"
  proof (cases rule: execute_body_cases)
    case (replay d p k act e)
    then show ?thesis using refused_token_still still_refines inj by blast
  next
    case (run d p k act t w2)
    show ?thesis
    proof (rule refinesI [OF inj])
      assume ok: "au_ok rt (authority_of w)"
      show "au_steps rt (authority_of w) (authority_of w1)"
        by (rule winds_up_refines [OF locked_execution_winds_up [OF run(7)]])
          (rule spend_and_call [OF ok run(1,3,2,4,5,6)])
    qed
  qed simp
  then show ?thesis using settled inj still_refines refines_trans by blast
qed

subsection \<open>The governor\<close>

lemma options_still: "evaluateOptions rt cfg tid a p c w = (x, w') \<Longrightarrow> still w w'"
  by (auto simp: evaluateOptions_def load_policies_def seed_policy_def fresh_uuid_def still_iff split: option.splits prod.splits)

lemma decide_still: "decide clk up tid act cap ps results w = (s, w') \<Longrightarrow> still w w'"
  by (simp add: still_iff decide_frame)

lemma issued_tokens:
  assumes "k \<in> set (issue_token rt p act capId vh dt i j t)"
  shows "k_nonce k = j \<and> k_decisionId k = i \<and> \<not> k_used k"
  using assms by (auto simp: issue_token_def token_row_of_def token_for_def Let_def split: if_splits)

lemma issue_le_1: "length (issue_token rt p act capId vh dt i j t) \<le> 1"
  by (simp add: issue_token_def Let_def)

lemma record_decision_refines:
  assumes inj: "inj (rt_uuid rt)" and rec: "record_decision rt clk p act capId vh s cs n w = (d, w')"
    and dt: "gs_decision s \<noteq> D_HUMAN_OVERRIDE_APPROVED"
    and approve: "is_approve (gs_decision s) \<Longrightarrow> unattended (p_recommendedOption p)"
    and p: "map_of (au_options (authority_of w)) (p_id p) = Some (p_recommendedOption p)"
  shows "refines rt w w'"
proof -
  let ?i = "rt_uuid rt (uuids_drawn w)" and ?j = "rt_uuid rt (Suc (uuids_drawn w))"
  let ?d = "new_decision rt p s cs n ?i ?j (clk 3)"
  let ?ks = "issue_token rt p act capId vh (gs_decision s) ?i ?j (clk 2)"
  let ?w = "update_proposal (p_id p) (\<lambda>r. r\<lparr>p_status := proposal_status_of (gs_decision s)\<rparr>)
     (w\<lparr>uuids_drawn := Suc (Suc (uuids_drawn w)), decisions := decisions w @ [?d], tokens := tokens w @ ?ks\<rparr>)"
  have w': "w' = logAction rt (clk 4) (governor_details p (p_id p) ?d vh) ?w"
    using rec by (auto simp: record_decision_def fresh_uuid_def Let_def)
  have "refines rt w ?w"
  proof (rule refinesI [OF inj])
    have "au_step rt (authority_of w) ((authority_of w)\<lparr>au_drawn := Suc (Suc (au_drawn (authority_of w))),
        au_decisions := au_decisions (authority_of w) @ [?d], au_tokens := au_tokens (authority_of w) @ ?ks\<rparr>)"
      by (rule au_step.decided)
        (use dt approve p issued_tokens issue_le_1 in \<open>auto simp: new_decision_def authority_of_def\<close>)
    moreover have "\<dots> = authority_of ?w" by (simp add: authority_of_def update_proposal_def map_update_where)
    ultimately show "au_steps rt (authority_of w) (authority_of ?w)" by simp
  qed
  then show ?thesis unfolding w' by (rule log_after [OF inj])
qed

lemma evaluate_refines:
  assumes inj: "inj (rt_uuid rt)" and run: "evaluateProposal rt cfg clk up pid w = (x, w')"
  shows "refines rt w w'"
proof (cases "find_proposal w pid")
  case None
  then show ?thesis using run by (simp add: evaluateProposal_def)
next
  case (Some p)
  from run Some show ?thesis
  proof (cases rule: evaluateProposal_cases)
    case (engine act cap e)
    then show ?thesis using options_still still_refines inj by blast
  next
    case (decided act cap results vh w1 s w2 d)
    have st: "still w w2" using options_still [OF decided(2)] decide_still [OF decided(3)] by (rule still_trans)
    then have opts: "au_options (authority_of w2) = au_options (authority_of w)" by (auto simp: still_def)
    have "refines rt w2 w'"
    proof (rule record_decision_refines [OF inj decided(4)])
      show "gs_decision s \<noteq> D_HUMAN_OVERRIDE_APPROVED" using decide_range(1) [OF decided(3)] by auto
      show "unattended (p_recommendedOption p)" if "is_approve (gs_decision s)"
        using that decide_range(2) [OF decided(3)] pre_checks_action [OF decided(1)] by (auto simp: unattended_def)
      show "map_of (au_options (authority_of w2)) (p_id p) = Some (p_recommendedOption p)"
        using find_option [OF Some] find_proposal_id [OF Some] opts by simp
    qed
    then show ?thesis using st inj still_refines refines_trans by blast
  qed simp
qed

subsection \<open>The override\<close>

lemma vote_refines:
  assumes inj: "inj (rt_uuid rt)" and d: "d \<in> set (decisions w)" "plain_user u" "u \<notin> set (approvers d)"
    and run: "cast_vote u d w = (b, w')"
  shows "refines rt w w'"
proof (rule refinesI [OF inj])
  have "authority_of w' = (authority_of w)\<lparr>au_decisions := update_where (\<lambda>x. d_id x = d_id d \<and> votable (d_approvalsCount d) x)
       (add_vote (vote_string u d)) (au_decisions (authority_of w))\<rparr>"
    using run by (auto simp: cast_vote_def Let_def authority_of_def)
  then show "au_steps rt (authority_of w) (authority_of w')"
    using au_step.voted [of d "authority_of w" u] d by (auto simp: authority_of_def)
qed

lemma lock_refines:
  assumes "inj (rt_uuid rt)" and run: "lock_decision i w = (b, w')"
  shows "refines rt w w'"
proof (rule refinesI [OF assms(1)])
  have "authority_of w' = (authority_of w)\<lparr>au_decisions := update_where (\<lambda>x. d_id x = i \<and> escalated x) lock_row (au_decisions (authority_of w))\<rparr>"
    using run by (auto simp: lock_decision_def authority_of_def)
  then show "au_steps rt (authority_of w) (authority_of w')"
    using au_step.locked [of rt "authority_of w" i] by auto
qed

text \<open>When the vote and the lock both succeed, the row read is the row locked, with the vote added.\<close>

lemma locked_row:
  assumes ids: "distinct (map d_id (decisions w))" and d: "d \<in> set (decisions w)"
    and v: "cast_vote u d w = (True, w1)" and l: "lock_decision (d_id d) w1 = (True, w2)"
  shows "lock_row (add_vote (vote_string u d) d) \<in> set (decisions w2)"
proof -
  let ?v = "add_vote (vote_string u d)"
  have ds1: "decisions w1 = update_where (\<lambda>x. d_id x = d_id d \<and> votable (d_approvalsCount d) x) ?v (decisions w)"
    "0 < count_where (\<lambda>x. d_id x = d_id d \<and> votable (d_approvalsCount d) x) (decisions w)"
    using v by (auto simp: cast_vote_def Let_def)
  have same: "y = z" if "y \<in> set (decisions w)" "z \<in> set (decisions w)" "d_id y = d_id z" for y z
    using that ids by (auto simp: distinct_map dest: inj_onD)
  obtain r where "r \<in> set (decisions w)" "d_id r = d_id d" "votable (d_approvalsCount d) r" using ds1(2) by (auto simp: count_where_pos)
  then have vd: "votable (d_approvalsCount d) d" using same [OF _ d] by blast
  have in1: "?v d \<in> set (decisions w1)" unfolding ds1(1) set_update_where using d vd by force
  moreover have "escalated (?v d)" using vd by (simp add: votable_def escalated_def add_vote_def)
  moreover have "d_id (?v d) = d_id d" by (simp add: add_vote_def)
  moreover have "decisions w2 = update_where (\<lambda>x. d_id x = d_id d \<and> escalated x) lock_row (decisions w1)"
    using l by (auto simp: lock_decision_def)
  ultimately show ?thesis by (force simp: set_update_where)
qed

lemma record_override_refines:
  assumes inj: "inj (rt_uuid rt)" and rec: "record_override rt clk tenantId u p d w = (newId, w')"
    and x: "lock_row (add_vote (vote_string u d) d) \<in> set (decisions w)"
    and enough: "d_requiredApprovers d \<le> vote_count d" and ap: "list_all plain_user (approvers d)" "plain_user u"
  shows "refines rt w w'"
proof -
  let ?i = "rt_uuid rt (uuids_drawn w)" and ?j = "rt_uuid rt (Suc (uuids_drawn w))" and ?ids = "vote_string u d"
  let ?x = "lock_row (add_vote ?ids d)"
  let ?d = "override_row rt p d ?i ?j ?ids (clk 2)" and ?k = "override_token rt p d ?i ?j (clk 1)"
  let ?w = "update_proposal (d_proposalId d) (\<lambda>r. r\<lparr>p_status := P_APPROVED\<rparr>)
     (w\<lparr>uuids_drawn := Suc (Suc (uuids_drawn w)), decisions := decisions w @ [?d], tokens := tokens w @ [?k]\<rparr>)"
  have w': "w' = logAction rt (clk 3) (override_details tenantId u d ?i ?ids) ?w"
    using rec by (auto simp: record_override_def fresh_uuid_def Let_def)
  have row: "?d = ?x\<lparr>d_id := ?i, d_decisionType := D_HUMAN_OVERRIDE_APPROVED, d_approvedPayloadHash := d_approvedPayloadHash ?d, d_createdAt := clk 2\<rparr>"
    by (simp add: override_row_def lock_row_def add_vote_def vote_count_def)
  have tok: "k_nonce ?k = ?j" "k_decisionId ?k = ?i" "\<not> k_used ?k" by (simp_all add: override_token_def Let_def)
  have "approvers ?x = approvers d @ [u]" using approvers_vote [OF ap] by simp
  then have cond: "approvers ?x \<noteq> []" "d_requiredApprovers ?x \<le> d_approvalsCount ?x" using enough by (simp_all add: vote_count_def)
  have "refines rt w ?w"
  proof (rule refinesI [OF inj])
    have "au_step rt (authority_of w) ((authority_of w)\<lparr>au_drawn := Suc (Suc (au_drawn (authority_of w))),
        au_decisions := au_decisions (authority_of w) @ [?d], au_tokens := au_tokens (authority_of w) @ [?k]\<rparr>)"
      using au_step.overridden [where x = ?x and a = "authority_of w" and rt = rt and k = ?k
          and t = "clk 2" and h = "d_approvedPayloadHash ?d"] x cond tok row
      by (simp add: authority_of_def)
    moreover have "\<dots> = authority_of ?w" by (simp add: authority_of_def update_proposal_def map_update_where)
    ultimately show "au_steps rt (authority_of w) (authority_of ?w)" by simp
  qed
  then show ?thesis unfolding w' by (rule log_after [OF inj])
qed

lemma refines_if: "(au_ok rt (authority_of w) \<Longrightarrow> refines rt w w') \<Longrightarrow> refines rt w w'"
  by (simp add: refines_def)

lemma execute_override_refines:
  assumes inj: "inj (rt_uuid rt)" and run: "execute_override rt clk up late env tenantId u d w = (r, w')"
    and x: "lock_row (add_vote (vote_string u d) d) \<in> set (decisions w)"
    and enough: "d_requiredApprovers d \<le> vote_count d" and ap: "list_all plain_user (approvers d)" "plain_user u"
  shows "refines rt w w'"
proof (cases "find_proposal w (d_proposalId d)")
  case None
  then show ?thesis using run by (simp add: execute_override_def)
next
  case (Some p)
  show ?thesis
  proof (cases "p_recommendedOption p = JNull")
    case True
    then have "still w w'" using run Some by (auto simp: execute_override_def fresh_uuid_def still_iff)
    then show ?thesis using inj still_refines by blast
  next
    case False
    obtain newId w1 where w1: "record_override rt clk tenantId u p d w = (newId, w1)" by fastforce
    obtain y w2 where w2: "executeDecision rt (\<lambda>i. clk (i + 4)) up late env newId w1 = (y, w2)" by fastforce
    have "still w2 w'" using run Some False w1 w2 by (auto simp: execute_override_def split: sum.splits)
    then have "refines rt w2 w'" using inj still_refines by blast
    then show ?thesis
      using record_override_refines [OF inj w1 x enough ap] execute_refines [OF inj w2] refines_trans by blast
  qed
qed

lemma override_refines:
  assumes inj: "inj (rt_uuid rt)" and u: "plain_user u"
    and run: "overrideDecision rt clk up late env i tenantId u w = (r, w')"
  shows "refines rt w w'"
proof (rule refines_if, cases "override_read (clk 0) i tenantId u w")
  case (Inl e)
  then show "refines rt w w'" using run by (simp add: overrideDecision_def)
next
  case (Inr d)
  assume ok: "au_ok rt (authority_of w)"
  have d: "d \<in> set (decisions w)" "d_id d = i" "u \<notin> set (approvers d)"
    using override_read_ok [OF Inr] find_first_in find_first_sat by fast+
  have c: "list_all plain_user (approvers d)" "distinct (map d_id (decisions w))"
    using ok d(1) by (auto simp: au_ok_def sound_row_def counted_def fresh_ids_def authority_of_def)
  obtain b w1 where w1: "cast_vote u d w = (b, w1)" by fastforce
  have r1: "refines rt w w1" by (rule vote_refines [OF inj d(1) u d(3) w1])
  show "refines rt w w'"
  proof (cases "b \<and> \<not> vote_count d < d_requiredApprovers d")
    case False
    then have "w' = w1" using run Inr w1 by (auto simp: overrideDecision_def split: bool.splits if_splits)
    then show ?thesis using r1 by simp
  next
    case True
    obtain l w2 where w2: "lock_decision i w1 = (l, w2)" by fastforce
    have r2: "refines rt w w2" using r1 lock_refines [OF inj w2] by (rule refines_trans)
    show ?thesis
    proof (cases l)
      case False
      then show ?thesis using run Inr w1 w2 True r2 by (simp add: overrideDecision_def)
    next
      case lck: True
      have run2: "execute_override rt clk up late env tenantId u d w2 = (r, w')"
        using run Inr w1 w2 True lck by (simp add: overrideDecision_def)
      have "lock_row (add_vote (vote_string u d) d) \<in> set (decisions w2)"
        using locked_row [OF c(2) d(1)] w1 w2 True lck d(2) by simp
      then have "refines rt w2 w'" using True c(1) u by (intro execute_override_refines [OF inj run2]) auto
      then show ?thesis using r2 refines_trans by blast
    qed
  qed
qed

subsection \<open>The workflow\<close>

lemma generate_refines:
  assumes inj: "inj (rt_uuid rt)" and run: "generateProposal rt env taskId ob cx te pp w = (p, w')"
  shows "refines rt w w'"
proof -
  obtain v dt where w': "w' = logAction rt (ae_now env) dt (snd (fresh_uuid rt w)\<lparr>proposals := proposals w @ [p]\<rparr>)"
    and v: "p_recommendedOption p = v"
    using run by (auto simp: generateProposal_def fresh_uuid_def Let_def)
  let ?w = "snd (fresh_uuid rt w)\<lparr>proposals := proposals w @ [p]\<rparr>"
  have "refines rt w ?w"
  proof (rule refinesI [OF inj])
    let ?a = "(authority_of w)\<lparr>au_drawn := Suc (uuids_drawn w)\<rparr>"
    have "au_step rt (authority_of w) ?a" by (rule au_step.drawn) (simp add: authority_of_def)
    moreover have "au_step rt ?a (authority_of ?w)"
      using au_step.proposed [of rt ?a "p_id p" v] v by (simp add: authority_of_def fresh_uuid_def)
    ultimately show "au_steps rt (authority_of w) (authority_of ?w)" by auto
  qed
  then show ?thesis unfolding w' by (rule log_after [OF inj])
qed

lemma handle_error_still: "handle_error ob i now e w = (out, w') \<Longrightarrow> still w w'"
  by (auto simp: handle_error_def split: exn.splits)

lemma attempt_refines:
  assumes inj: "inj (rt_uuid rt)" and run: "attempt rt env i ob p w = (out, w')"
  shows "refines rt w w'"
proof -
  obtain x w1 where x: "evaluateProposal rt (ae_cfg env) (ae_gov_clock env) (ae_gov_redis env) (p_id p) w = (x, w1)" by fastforce
  obtain y w2 where y: "\<And>d. x = Inr d \<Longrightarrow>
      executeDecision rt (ae_op_clock env) (ae_op_redis env) (ae_late env) (ae_tools env) (d_id d) w1 = (y, w2)"
    by (cases x) (auto, metis prod.collapse)
  have r1: "refines rt w w1" by (rule evaluate_refines [OF inj x])
  have "w' = w \<or> (\<exists>e. x = Inl e \<and> still w1 w') \<or> (\<exists>d. x = Inr d \<and> still w2 w')"
  proof (cases x)
    case (Inl e)
    then show ?thesis
      using run x handle_error_still by (fastforce simp: attempt_def split: sum.splits if_splits)
  next
    case (Inr d)
    then show ?thesis
      using run x y [OF Inr] handle_error_still by (fastforce simp: attempt_def split: sum.splits if_splits)
  qed
  then show ?thesis
    using r1 y execute_refines [OF inj] still_refines [OF _ inj] refines_trans refines_refl by metis
qed

lemma replan_refines:
  "replan_loop rt envs i ob cx te n fo pp w = (r, w') \<Longrightarrow> inj (rt_uuid rt) \<Longrightarrow> refines rt w w'"
proof (induction rt envs i ob cx te n fo pp w arbitrary: r w' rule: replan_loop.induct)
  case (1 rt envs i ob cx te n fo pp w)
  note inj = 1(3)
  show ?case
  proof (cases "n < MAX_REPLAN_ATTEMPTS")
    case False
    then show ?thesis using 1(2) inj still_refines by (auto simp: replan_loop.simps [of rt envs i ob cx te n fo pp w])
  next
    case True
    obtain p w1 where g: "generateProposal rt (envs n) i fo cx te pp w = (p, w1)" by fastforce
    obtain out w2 where a: "attempt rt (envs n) i ob p w1 = (out, w2)" by fastforce
    have step: "replan_loop rt envs i ob cx te n fo pp w = (case out of Finished r \<Rightarrow> (r, w2)
        | Replan again \<Rightarrow> replan_loop rt envs i ob cx te (n + 1) again (Some (p_id p)) w2)"
      using True g a by (subst replan_loop.simps) (simp split: attempt_outcome.split)
    have r2: "refines rt w w2" using generate_refines [OF inj g] attempt_refines [OF inj a] by (rule refines_trans)
    show ?thesis
    proof (cases out)
      case (Finished s)
      then show ?thesis using step 1(2) r2 by simp
    next
      case (Replan again)
      then have "replan_loop rt envs i ob cx te (n + 1) again (Some (p_id p)) w2 = (r, w')" using step 1(2) by simp
      then have "refines rt w2 w'" using 1(1) [OF True g [symmetric] a [symmetric] Replan] inj by blast
      then show ?thesis using r2 refines_trans by blast
    qed
  qed
qed

lemma redis_still: "redis_decr now k w = (n, w') \<Longrightarrow> still w w'" "begin_job now te w = (b, w') \<Longrightarrow> still w w'" "still w (end_job now te w)"
proof -
  have d: "still w (snd (redis_decr now k w))" for k w by (simp add: redis_decr_def still_iff Let_def redis_set_frame split: option.split)
  show "redis_decr now k w = (n, w') \<Longrightarrow> still w w'" using d [of w k] by simp
  show "still w (end_job now te w)" unfolding end_job_def by (rule d)
  assume run: "begin_job now te w = (b, w')"
  obtain m w1 where m: "window_incr now (active_key te) 300 w = (m, w1)" by fastforce
  then have "still w w1" by (simp add: still_iff window_incr_frame)
  then show "still w w'" using run m d [of w1 "active_key te"] still_trans by (auto simp: begin_job_def split: if_splits)
qed

lemma job_refines:
  assumes inj: "inj (rt_uuid rt)" and run: "run_job rt envs start finish j w = (x, w')"
  shows "refines rt w w'"
proof -
  obtain b w1 where b: "begin_job start (j_tenantId j) w = (b, w1)" by fastforce
  have r1: "refines rt w w1" using redis_still(2) [OF b] inj still_refines by blast
  obtain y w2 where y: "executeTaskLoop rt envs (j_taskId j) (j_objective j) (j_context j) (j_tenantId j) w1 = (y, w2)" by fastforce
  obtain r w3 where r: "replan_loop rt envs (j_taskId j) (j_objective j) (j_context j) (j_tenantId j) 0 (j_objective j) None
      (set_task (j_taskId j) T_PROCESSING w1) = (r, w3)" by fastforce
  have "refines rt w1 (set_task (j_taskId j) T_PROCESSING w1)" using inj still_refines by simp
  then have "refines rt w1 w3" using replan_refines [OF r inj] refines_trans by blast
  moreover have "w2 = w1 \<or> w2 = w3" using y r by (auto simp: executeTaskLoop_def split: option.splits)
  ultimately have r2: "refines rt w1 w2" by auto
  have "w' = w1 \<or> w' = end_job finish (j_tenantId j) w2" using run b y by (auto simp: run_job_def split: bool.splits)
  then show ?thesis using r1 r2 redis_still(3) inj still_refines refines_trans by metis
qed

subsection \<open>Rollbacks, sweeps and administration\<close>

lemma file_rollback_authority: "filesystem_rollback env rd w = (b, w') \<Longrightarrow> authority_of w' = authority_of w"
  by (auto simp: filesystem_rollback_def fs_write_def authority_of_def Let_def split: if_splits sum.splits option.splits json.splits)

lemma rollback_authority:
  "tool_rollback t = Some rb \<Longrightarrow> rb env ps ctx w = (x, w') \<Longrightarrow> authority_of w' = authority_of w"
proof (cases "t = FileSystemOperator")
  case True
  assume "tool_rollback t = Some rb" "rb env ps ctx w = (x, w')"
  then show ?thesis
    using True file_rollback_authority [of env "tx_rollbackData ctx" w] by (cases "filesystem_rollback env (tx_rollbackData ctx) w") auto
next
  case False
  assume "tool_rollback t = Some rb" "rb env ps ctx w = (x, w')"
  then show ?thesis
    using False
    by (cases t) (auto simp: modify_rollback_def transfer_rollback_def slack_rollback_def zendesk_rollback_def authority_of_def Let_def
      split: option.splits if_splits json.splits)
qed

lemma same_authority_still: "authority_of w' = authority_of w \<Longrightarrow> still w w'"
  by (auto simp: still_def authority_of_def)

lemma rollback_refines:
  assumes inj: "inj (rt_uuid rt)" and run: "executeRollback rt now env i w = (x, w')"
  shows "refines rt w w'"
proof -
  have "w' = w \<or> (\<exists>t rb ps ctx y w1. tool_rollback t = Some rb \<and> rb env ps ctx w = (y, w1)
      \<and> (w' = w1 \<or> (\<exists>dt f. w' = logAction rt now dt (update_record i f w1))))"
    using run unfolding executeRollback_def Let_def
    by (auto split: option.splits if_splits prod.splits sum.splits; blast)
  then show ?thesis
  proof (elim disjE exE conjE)
    fix t rb ps ctx y w1
    assume "tool_rollback t = Some rb" "rb env ps ctx w = (y, w1)"
    then have st: "still w w1" by (intro same_authority_still rollback_authority)
    show "refines rt w w'" if "w' = w1" using that st inj still_refines by simp
    fix dt f
    have "still w (update_record i f w1)" using st still_trans still_updates(3) by blast
    then show "refines rt w w'" if "w' = logAction rt now dt (update_record i f w1)"
      using that inj still_refines log_after by blast
  qed simp
qed

lemma expire_refines: "inj (rt_uuid rt) \<Longrightarrow> refines rt w (expire_all rt clk n ts w)"
proof (induction ts arbitrary: n w)
  case (Cons t ts)
  have "refines rt w (expire_one rt (clk n) t w)"
    using log_after still_refines [OF still_tasks] Cons.prems by (simp add: expire_one_def Let_def)
  then show ?case using Cons refines_trans by (metis expire_all.simps(2))
qed simp

lemma ghosts_refines: "inj (rt_uuid rt) \<Longrightarrow> refines rt w (sweep_ghosts rt ms clk n es w)"
proof (induction es arbitrary: n w)
  case (Cons e es)
  have "refines rt w (sweep_ghost rt ms (clk n) e w)"
    using log_after still_refines [OF still_updates(3)] Cons.prems by (simp add: sweep_ghost_def)
  then show ?case using Cons refines_trans by (metis sweep_ghosts.simps(2))
qed simp

lemma record_after: "inj (rt_uuid rt) \<Longrightarrow> refines rt w w1 \<Longrightarrow> refines rt w (update_record i f w1)"
  using still_refines [OF still_updates(3)] refines_trans by blast

lemma mark_refines: "inj (rt_uuid rt) \<Longrightarrow> refines rt w (markReconciled rt now i st ptid w)"
  by (simp add: markReconciled_def Let_def log_refines record_after)

lemma reconcile_refines: "inj (rt_uuid rt) \<Longrightarrow> refines rt w (reconcile_all rt clk n rs w)"
proof (induction rs arbitrary: n w)
  case (Cons r rs)
  have "refines rt w (reconcile_record rt (clk n) st r w)" for st
    using Cons.prems by (auto simp: reconcile_record_def Let_def mark_refines record_after split: provider_state.split)
  then show ?case using Cons refines_trans by (metis reconcile_all.simps(2))
qed simp

lemma policy_refines: "inj (rt_uuid rt) \<Longrightarrow> rollbackPolicy rt now body u w = (r, w') \<Longrightarrow> refines rt w w'"
proof -
  assume inj: "inj (rt_uuid rt)" and run: "rollbackPolicy rt now body u w = (r, w')"
  have "still w (w\<lparr>policies := ps\<rparr>)" for ps by (simp add: still_iff)
  then have "refines rt w (logAction rt now dt (w\<lparr>policies := ps\<rparr>))" for dt ps
    using inj still_refines log_after by blast
  then show "refines rt w w'"
    using run by (auto simp: rollbackPolicy_def split: if_splits option.splits json.splits)
qed

lemma insert_still: "insert_task rt now te k ob w = (x, w') \<Longrightarrow> still w w'"
  by (auto simp: insert_task_def fresh_uuid_def Let_def still_iff split: if_splits)

lemma create_effect:
  assumes "createTask rt now others up rq u (w, q) = (a, w', q')"
  shows "w' = w \<or> still (others w) w'"
  using assms insert_still by (auto simp: createTask_def Let_def split: sum.splits option.splits prod.splits)

lemma event_still: "hook_event rt av now up entry event (w, q) = (w', q') \<Longrightarrow> still w w'"
  using insert_still by (auto simp: hook_event_def split: option.splits prod.splits sum.splits)

lemma events_still: "hook_events rt av now up entry events (w, q) = (b, w', q') \<Longrightarrow> still w w'"
proof (induction events arbitrary: w q)
  case (Cons event events)
  obtain w1 q1 where e: "hook_event rt av now up entry event (w, q) = (w1, q1)" by fastforce
  then show ?case using Cons event_still [OF e] still_trans by (auto split: if_splits)
qed simp

lemma entries_still: "hook_entries rt av clk up n entries (w, q) = (b, w', q') \<Longrightarrow> still w w'"
proof (induction entries arbitrary: n w q)
  case (Cons entry entries)
  show ?case
  proof (cases "entry = JNull \<or> stale (clk n) entry \<or> iterable (first_truthy (jget entry ''changes'') (jget entry ''messaging'')) = None")
    case True
    then show ?thesis using Cons by (auto split: if_splits)
  next
    case False
    then obtain events where ev: "iterable (first_truthy (jget entry ''changes'') (jget entry ''messaging'')) = Some events" by blast
    obtain c w1 q1 where e: "hook_events rt av (clk n) up entry events (w, q) = (c, w1, q1)" by (rule prod_cases3)
    then show ?thesis using Cons False ev events_still [OF e] still_trans by (auto split: bool.splits)
  qed
qed simp

lemma webhook_still:
  assumes "receiveMetaWebhook rt av hm clk up rq raw (w, q) = (r, b, w', q')"
  shows "still w w'"
  using assms entries_still by (auto simp: receiveMetaWebhook_def split: option.splits bool.splits if_splits)

lemma role_still: "resolveUserRole av t u w = (r, w') \<Longrightarrow> still w w'"
  by (auto simp: resolveUserRole_def Let_def still_iff split: option.splits if_splits)

lemma auth_still: "requireAuth av rq w = (x, w') \<Longrightarrow> still w w'"
  using role_still by (auto simp: requireAuth_def authenticateAPIKey_def split: option.splits if_splits prod.splits)

lemma limiter_still: "rateLimiter ws mx now up rq u w = (l, w') \<Longrightarrow> still w w'"
  by (auto simp: rateLimiter_def still_iff window_incr_frame split: if_splits prod.splits)

lemma admit_still:
  assumes "admit av now up ep rq w = (x, w')"
  shows "still w w'"
proof -
  obtain l w1 where l: "rateLimiter 60 100 now up rq None w = (l, w1)" by fastforce
  then have s1: "still w w1" by (rule limiter_still)
  obtain a w2 where a: "requireAuth av rq w1 = (a, w2)" by fastforce
  have "w' = w1 \<or> w' = w2" using assms l a by (auto simp: admit_def split: option.splits sum.splits)
  then show ?thesis using s1 auth_still [OF a] still_trans by blast
qed

lemma login_still: "loginHandler av rq w = (x, w') \<Longrightarrow> still w w'"
  using role_still by (auto simp: loginHandler_def Let_def split: option.splits if_splits prod.splits json.splits sum.splits)

lemma upsert_still: "still w (upsertSetting t k v w)"
  by (simp add: upsertSetting_def Let_def still_iff)

lemma save_still:
  assumes "save_settings ci iv1 iv2 u body w = (r, w')"
  shows "still w w'"
proof -
  have plain: "still a (save_plain t k v b)" if "still a b" for a t k v b
    using that upsert_still still_trans by (auto simp: save_plain_def split: option.split)
  have key: "still a c" if "still a b" "save_key ci iv t k v b = (x, c)" for a iv t k v b x c
    using that upsert_still still_trans by (auto simp: save_key_def split: option.splits if_splits sum.splits)
  let ?w1 = "save_plain (us_tenant u) ''active_provider'' (str_field body ''active_provider'') w"
  obtain x w2 where w2: "save_key ci iv1 (us_tenant u) ''openai_key'' (str_field body ''openai_key'') ?w1 = (x, w2)" by fastforce
  obtain y w3 where w3: "save_key ci iv2 (us_tenant u) ''anthropic_key'' (str_field body ''anthropic_key'') w2 = (y, w3)" by fastforce
  have s2: "still w w2" by (rule key [OF plain [OF still_refl] w2])
  have s3: "still w w3" by (rule key [OF s2 w3])
  show ?thesis
    using assms w2 w3 s2 s3 plain by (auto simp: save_settings_def Let_def split: if_splits sum.splits)
qed

subsection \<open>The platform\<close>

text \<open>
  One operation of the platform, whoever calls it, with any clocks, answers of Redis and of the
  tools, policy files and requests. Between the two database accesses of a task creation another
  operation may run. The users who approve have ids without a comma.
\<close>

inductive sys_step :: "runtime \<Rightarrow> world \<Rightarrow> world \<Rightarrow> bool" for rt :: runtime where
  task_requested: "others w = w \<or> sys_step rt w (others w) \<Longrightarrow> createTask rt now others up rq u (w, q) = (a, w', q') \<Longrightarrow> sys_step rt w w'"
| webhook_received: "receiveMetaWebhook rt av hm clk up rq raw (w, q) = (r, b, w', q') \<Longrightarrow> sys_step rt w w'"
| job_run: "run_job rt envs start finish j w = (x, w') \<Longrightarrow> sys_step rt w w'"
| proposal_evaluated: "evaluateProposal rt cfg clk up pid w = (y, w') \<Longrightarrow> sys_step rt w w'"
| decision_executed: "executeDecision rt clk up late env did w = (z, w') \<Longrightarrow> sys_step rt w w'"
| override_requested: "plain_user u \<Longrightarrow> overrideDecision rt clk up late env i te u w = (r, w') \<Longrightarrow> sys_step rt w w'"
| execution_rolled_back: "executeRollback rt now env i w = (v, w') \<Longrightarrow> sys_step rt w w'"
| policy_rolled_back: "rollbackPolicy rt now body usr w = (r, w') \<Longrightarrow> sys_step rt w w'"
| settings_saved: "save_settings ci iv1 iv2 usr body w = (r, w') \<Longrightarrow> sys_step rt w w'"
| request_counted: "rateLimiter ws mx now up rq u w = (l, w') \<Longrightarrow> sys_step rt w w'"
| user_checked: "requireAuth av rq w = (x, w') \<Longrightarrow> sys_step rt w w'"
| user_admitted: "admit av now up ep rq w = (m, w') \<Longrightarrow> sys_step rt w w'"
| user_logged_in: "loginHandler av rq w = (l, w') \<Longrightarrow> sys_step rt w w'"
| escalations_swept: "sys_step rt w (sweepExpiredEscalations rt clk w)"
| ghosts_swept: "sys_step rt w (sweepGhostExecutions rt ms clk w)"
| records_reconciled: "sys_step rt w (reconciliation_sweep rt clk w)"

lemma sys_step_refines: "sys_step rt w w' \<Longrightarrow> inj (rt_uuid rt) \<Longrightarrow> refines rt w w'"
proof (induction rule: sys_step.induct)
  case (task_requested others w now up rq u q a w' q')
  then have "refines rt w (others w)" by auto
  moreover have "w' = w \<or> refines rt (others w) w'"
    using create_effect [OF task_requested(2)] still_refines task_requested(3) by blast
  ultimately show ?case using refines_trans refines_refl by blast
next
  case (webhook_received av hm clk up rq raw w q r b w' q')
  then show ?case using webhook_still still_refines by blast
next
  case (settings_saved ci iv1 iv2 usr body w r w')
  then show ?case using save_still still_refines by blast
next
  case (request_counted ws mx now up rq u w l w')
  then show ?case using limiter_still still_refines by blast
next
  case (user_checked av rq w x w')
  then show ?case using auth_still still_refines by blast
next
  case (user_admitted av now up ep rq w m w')
  then show ?case using admit_still still_refines by blast
next
  case (user_logged_in av rq w l w')
  then show ?case using login_still still_refines by blast
qed (use job_refines evaluate_refines execute_refines override_refines rollback_refines policy_refines expire_refines ghosts_refines
    reconcile_refines in \<open>auto simp: sweepExpiredEscalations_def sweepGhostExecutions_def reconciliation_sweep_def\<close>)

text \<open>What every relation gets whose steps refine the machine.\<close>

locale governed =
  fixes step :: "runtime \<Rightarrow> world \<Rightarrow> world \<Rightarrow> bool"
  assumes step_refines: "step rt w w' \<Longrightarrow> inj (rt_uuid rt) \<Longrightarrow> refines rt w w'"
begin

lemma reach_refines: "(step rt)\<^sup>*\<^sup>* w w' \<Longrightarrow> inj (rt_uuid rt) \<Longrightarrow> refines rt w w'"
  by (induction rule: rtranclp_induct) (auto intro: step_refines refines_trans)

lemma reach_ok:
  assumes "(step rt)\<^sup>*\<^sup>* w w'" and "inj (rt_uuid rt)" and "au_ok rt (authority_of w)"
  shows "au_ok rt (authority_of w')"
  using reach_refines [OF assms(1,2)] assms(3) by (simp add: refines_def)

lemma reach_log:
  assumes "(step rt)\<^sup>*\<^sup>* w w'" and "inj (rt_uuid rt)" and "au_ok rt (authority_of w)"
  shows "prefix (audits w) (audits w')" "written rt (audits w')"
proof -
  have "au_steps rt (authority_of w) (authority_of w')" using reach_refines [OF assms(1,2)] assms(3) by (simp add: refines_def)
  from au_steps_logs [OF this] show "prefix (audits w) (audits w')" by (simp add: authority_of_def)
  show "written rt (audits w')" using reach_ok [OF assms] by (simp add: au_ok_def authority_of_def)
qed

lemma reach_calls_once:
  assumes "(step rt)\<^sup>*\<^sup>* w w'" and "inj (rt_uuid rt)" and "au_ok rt (authority_of w)"
  shows "calls_for did w' \<le> 1"
proof -
  have "au_ok rt (authority_of w')" by (rule reach_ok [OF assms])
  then have "made_for did (calls w') \<le> spent_for did (tokens w')" "distinct (map k_decisionId (tokens w'))"
    by (auto simp: au_ok_def authority_of_def fresh_ids_def)
  then have "made_for did (calls w') \<le> 1" using spent_le_1 [of "tokens w'" did] by linarith
  then show ?thesis by (simp add: made_for_def calls_for_def)
qed

end

interpretation platform: governed sys_step
  by unfold_locales (rule sys_step_refines)

interpretation operator_alone: governed "\<lambda>rt w w'. \<exists>clk up late env did x. executeDecision rt clk up late env did w = (x, w')"
  by unfold_locales (auto intro: execute_refines)

lemma empty_ok: "au_ok rt (authority_of empty_world)"
  by (simp add: au_ok_def authority_of_def empty_world_def fresh_ids_def made_for_def written.empty_log)

lemma option_found:
  "map_of (map (\<lambda>p. (p_id p, p_recommendedOption p)) ps) i = Some v \<Longrightarrow> \<exists>p. find_first (\<lambda>p. p_id p = i) ps = Some p \<and> p_recommendedOption p = v"
  by (induction ps) (auto split: if_splits)

text \<open>What the invariant says of one call.\<close>

definition cleared :: "world \<Rightarrow> tool_call \<Rightarrow> bool" where
  "cleared w c \<longleftrightarrow> (\<exists>d p. d \<in> set (decisions w) \<and> d_id d = tc_decisionId c \<and> find_proposal w (d_proposalId d) = Some p
     \<and> jget (p_recommendedOption p) ''actionType'' = Some (JStr (tc_action c)) \<and> tc_parameters c = jget (p_recommendedOption p) ''parameters''
     \<and> (case getCapabilityForTool (Some (JStr (tc_action c))) of
          None \<Rightarrow> False
        | Some cap \<Rightarrow>
            if cap_human cap
            then d_decisionType d = D_HUMAN_OVERRIDE_APPROVED \<and> approvers d \<noteq> [] \<and> distinct (approvers d)
                 \<and> d_requiredApprovers d \<le> int (length (approvers d))
            else executable (d_decisionType d)))"

lemma call_cleared:
  assumes ok: "au_ok rt (authority_of w)" and c: "c \<in> set (calls w)"
  shows "cleared w c"
proof -
  obtain d v where d: "d \<in> set (decisions w)" "d_id d = tc_decisionId c" "executable (d_decisionType d)"
      "map_of (map (\<lambda>p. (p_id p, p_recommendedOption p)) (proposals w)) (d_proposalId d) = Some v"
      "jget v ''actionType'' = Some (JStr (tc_action c))" "tc_parameters c = jget v ''parameters''"
      "getCapabilityForTool (Some (JStr (tc_action c))) \<noteq> None"
    using ok c by (auto simp: au_ok_def authority_of_def authorized_def)
  obtain p where p: "find_proposal w (d_proposalId d) = Some p" "p_recommendedOption p = v"
    using option_found [OF d(4)] by (auto simp: find_proposal_def)
  have sound: "sound_row (map (\<lambda>p. (p_id p, p_recommendedOption p)) (proposals w)) d"
    using ok d(1) by (simp add: au_ok_def authority_of_def)
  obtain cap where cap: "getCapabilityForTool (Some (JStr (tc_action c))) = Some cap" using d(7) by blast
  have "d_decisionType d = D_HUMAN_OVERRIDE_APPROVED" if "cap_human cap"
    using that sound d(3-5) cap by (auto simp: sound_row_def unattended_def executable_def)
  moreover have "approvers d \<noteq> [] \<and> distinct (approvers d) \<and> d_requiredApprovers d \<le> int (length (approvers d))"
    if "d_decisionType d = D_HUMAN_OVERRIDE_APPROVED"
    using that sound by (simp add: sound_row_def counted_def)
  ultimately show ?thesis unfolding cleared_def using d p cap by (intro exI [of _ d] exI [of _ p]) auto
qed


text \<open>
  C2: no sequence of operations executes a decision twice, not by retries of the workflow, by
  overrides, by replays or by reconciliation: at most one tool call is ever made for it.
\<close>

theorem platform_executes_once:
  assumes "inj (rt_uuid rt)" and "au_ok rt (authority_of w0)" and "(sys_step rt)\<^sup>*\<^sup>* w0 w"
  shows "calls_for did w \<le> 1"
  by (rule platform.reach_calls_once [OF assms(3,1,2)])

text \<open>
  C7: the audit log is append-only and unbroken over the whole platform: no operation changes or
  removes an entry, and every entry was written by the logger, with the hash of its tenant's
  latest entry before it and the digest over its details and that hash.
\<close>

theorem platform_log_intact:
  assumes "inj (rt_uuid rt)" and "au_ok rt (authority_of w0)" and "(sys_step rt)\<^sup>*\<^sup>* w0 w"
  shows "prefix (audits w0) (audits w) \<and> written rt (audits w)"
  using platform.reach_log [OF assms(3,1,2)] by blast


end
