(* ===== verification/Platform_Witnesses.thy ===== *)
theory Platform_Witnesses
  imports System Demo
begin

section \<open>The platform's promises on a concrete history\<close>

text \<open>
  The demonstration task evaluated and executed: a history of two operations from a database
  with one proposal, at which the hypotheses of the theorems about the whole platform hold.
\<close>

lemma demo_ids: "inj (rt_uuid demo_rt)"
  by (rule injI) simp

lemma demo_start_ok: "au_ok demo_rt (authority_of (demo_world demo_read))"
  by (simp add: au_ok_def authority_of_def fresh_ids_def made_for_def written.empty_log)

lemma demo_history:
  obtains w c where "(sys_step demo_rt)\<^sup>*\<^sup>* (demo_world demo_read) w" "calls w = [c]"
proof -
  obtain d w1 x w2 c where d: "demo_eval demo_read = (Inr d, w1)" "demo_exec (d_id d) w1 = (x, w2)" "calls w2 = [c]"
    by (rule demo_executes)
  have "sys_step demo_rt (demo_world demo_read) w1"
    using d(1) unfolding demo_eval_def by (rule sys_step.proposal_evaluated)
  moreover have "sys_step demo_rt w1 w2"
    using d(2) unfolding demo_exec_def by (rule sys_step.decision_executed)
  ultimately show thesis using that [of w2 c] d(3) by (meson converse_rtranclp_into_rtranclp r_into_rtranclp)
qed


theorem platform_executes_once_witness: "\<exists>w c. calls w = [c] \<and> calls_for (tc_decisionId c) w \<le> 1"
proof -
  obtain w c where w: "(sys_step demo_rt)\<^sup>*\<^sup>* (demo_world demo_read) w" "calls w = [c]" by (rule demo_history)
  then show ?thesis using platform_executes_once [OF demo_ids demo_start_ok w(1)] by blast
qed

theorem platform_log_intact_witness:
  "\<exists>(w :: world) c. calls w = [c] \<and> prefix (audits (demo_world demo_read)) (audits w) \<and> written demo_rt (audits w)"
proof -
  obtain w c where w: "(sys_step demo_rt)\<^sup>*\<^sup>* (demo_world demo_read) w" "calls w = [c]" by (rule demo_history)
  then show ?thesis using platform_log_intact [OF demo_ids demo_start_ok w(1)] by blast
qed


end
