(* ===== verification/Lifecycle.thy ===== *)
theory Lifecycle
  imports Snapshot
begin

section \<open>Timers of the workers, start-up and shutdown of the server (workers/*.ts, server.ts)\<close>

text \<open>
  When the sweeps of the workers run, and what a start or a stop does to them. What a sweep does
  to the database is in the theories Workers and Snapshot; here a sweep is something that begins
  and ends, because the program awaits the database in between and other callbacks run meanwhile.
  A callback runs to its first await without interruption, so each event below is one callback.
\<close>

subsection \<open>Polling workers (human-escalation.worker.ts, execution-reconciliation.worker.ts)\<close>

text \<open>
  The two workers have the same start, stop and poll. \<open>po_timeouts\<close>: timeouts set that have not
  fired; \<open>po_sweeps\<close>: polls that wait for their sweep.
\<close>

record poller =
  po_isRunning :: bool
  po_timeouts :: nat
  po_sweeps :: nat

definition new_poller :: poller where
  "new_poller = \<lparr>po_isRunning = False, po_timeouts = 0, po_sweeps = 0\<rparr>"

definition poll_now :: "poller \<Rightarrow> poller" where
  "poll_now p = (if \<not> po_isRunning p then p else p\<lparr>po_sweeps := po_sweeps p + 1\<rparr>)"

definition start_poller :: "poller \<Rightarrow> poller" where
  "start_poller p = (if po_isRunning p then p else poll_now (p\<lparr>po_isRunning := True\<rparr>))"

definition stop_poller :: "poller \<Rightarrow> poller" where
  "stop_poller p = p\<lparr>po_isRunning := False\<rparr>"

text \<open>The sweep of a poll ended, with or without an error.\<close>

definition end_poll :: "poller \<Rightarrow> poller" where
  "end_poll p =
     (let p1 = p\<lparr>po_sweeps := po_sweeps p - 1\<rparr>
      in if po_isRunning p1 then p1\<lparr>po_timeouts := po_timeouts p1 + 1\<rparr> else p1)"

definition fire_poll :: "poller \<Rightarrow> poller" where
  "fire_poll p = poll_now (p\<lparr>po_timeouts := po_timeouts p - 1\<rparr>)"

datatype poll_event = Start_Poller | Stop_Poller | Poll_Fires | Poll_Ends

fun poll_step :: "poll_event \<Rightarrow> poller \<Rightarrow> poller option" where
  "poll_step Start_Poller p = Some (start_poller p)"
| "poll_step Stop_Poller p = Some (stop_poller p)"
| "poll_step Poll_Fires p = (if po_timeouts p = 0 then None else Some (fire_poll p))"
| "poll_step Poll_Ends p = (if po_sweeps p = 0 then None else Some (end_poll p))"

fun poll_run :: "poll_event list \<Rightarrow> poller \<Rightarrow> poller option" where
  "poll_run [] p = Some p"
| "poll_run (e # es) p = (case poll_step e p of None \<Rightarrow> None | Some p1 \<Rightarrow> poll_run es p1)"

text \<open>A chain of polls is a pending timeout or a sweep that will set the next one.\<close>

definition chains :: "poller \<Rightarrow> nat" where
  "chains p = po_timeouts p + po_sweeps p"

definition starts :: "poll_event list \<Rightarrow> nat" where
  "starts es = count_where (\<lambda>e. e = Start_Poller) es"

lemmas poller_defs = poll_now_def start_poller_def stop_poller_def end_poll_def fire_poll_def chains_def Let_def

lemma poll_step_chains:
  "poll_step e p = Some p1 \<Longrightarrow>
     chains p1 \<le> chains p + (if e = Start_Poller then 1 else 0)
     \<and> (if po_isRunning p \<longrightarrow> 0 < chains p then po_isRunning p1 \<longrightarrow> 0 < chains p1 else True)"
  by (cases e) (auto simp: poller_defs split: if_splits)

lemma poll_run_chains:
  "poll_run es p = Some p1 \<Longrightarrow>
     chains p1 \<le> chains p + starts es \<and> (if po_isRunning p \<longrightarrow> 0 < chains p then po_isRunning p1 \<longrightarrow> 0 < chains p1 else True)"
proof (induction es arbitrary: p)
  case (Cons e es)
  then obtain q where q: "poll_step e p = Some q" and rest: "poll_run es q = Some p1" by (auto split: option.splits)
  show ?case using poll_step_chains [OF q] Cons.IH [OF rest] by (auto simp: starts_def count_where_def split: if_splits)
qed (simp add: starts_def count_where_def)

text \<open>
  A worker that is started once sweeps one sweep at a time and never stops polling by itself,
  whatever its sweeps do: under every order of its callbacks at most one sweep is in progress,
  and while the worker runs exactly one sweep or timeout is pending.
\<close>

theorem polls_are_serial:
  assumes "poll_run es new_poller = Some p" and "starts es \<le> 1"
  shows "po_sweeps p \<le> 1 \<and> (if po_isRunning p then po_timeouts p + po_sweeps p = 1 else True)"
  using poll_run_chains [OF assms(1)] assms(2) by (auto simp: new_poller_def chains_def)

theorem polls_are_serial_witness:
  "po_timeouts (start_poller new_poller) + po_sweeps (start_poller new_poller) = 1"
  using polls_are_serial [of "[Start_Poller]" "start_poller new_poller"]
  by (simp add: starts_def count_where_def new_poller_def start_poller_def poll_now_def)

text \<open>
  A worker that is stopped and started again before its timeout fires polls twice in parallel:
  stop leaves the timeout, and start only looks at the flag.
\<close>

theorem restart_doubles_polling:
  "\<exists>p. poll_run [Start_Poller, Poll_Ends, Stop_Poller, Start_Poller, Poll_Fires] new_poller = Some p \<and> po_sweeps p = 2"
  by (simp add: new_poller_def poller_defs)

text \<open>After a stop the worker comes to rest: every further callback uses up a chain.\<close>

theorem stopped_poller_rests:
  assumes "poll_run es p = Some p1" and "\<not> po_isRunning p" and "starts es = 0"
  shows "length (filter (\<lambda>e. e \<noteq> Stop_Poller) es) + chains p1 = chains p"
  using assms
proof (induction es arbitrary: p)
  case (Cons e es)
  then obtain q where q: "poll_step e p = Some q" and rest: "poll_run es q = Some p1" by (auto split: option.splits)
  have "\<not> po_isRunning q \<and> chains q + (if e \<noteq> Stop_Poller then 1 else 0) = chains p"
    using q Cons.prems(2,3) by (cases e) (auto simp: poller_defs starts_def count_where_def split: if_splits)
  then show ?case using Cons.IH [OF rest] Cons.prems(3) by (auto simp: starts_def count_where_def split: if_splits)
qed simp

subsection \<open>The snapshot worker (audit-snapshot.worker.ts)\<close>

text \<open>
  \<open>ar_starting\<close>: calls of start that wait for the directory; \<open>ar_live\<close>: the intervals that run,
  numbered; \<open>ar_intervalId\<close>: the interval that stop clears; \<open>ar_initial\<close>: pending initial sweeps.
\<close>

record archiver =
  ar_isRunning :: bool
  ar_starting :: nat
  ar_live :: "nat list"
  ar_intervalId :: "nat option"
  ar_next :: nat
  ar_initial :: nat
  ar_sweeps :: nat

definition new_archiver :: archiver where
  "new_archiver = \<lparr>ar_isRunning = False, ar_starting = 0, ar_live = [], ar_intervalId = None, ar_next = 0, ar_initial = 0, ar_sweeps = 0\<rparr>"

definition start_archiver :: "archiver \<Rightarrow> archiver" where
  "start_archiver a = a\<lparr>ar_starting := ar_starting a + 1\<rparr>"

definition set_timers :: "archiver \<Rightarrow> archiver" where
  "set_timers a = a\<lparr>ar_starting := ar_starting a - 1, ar_live := ar_next a # ar_live a, ar_intervalId := Some (ar_next a),
     ar_next := ar_next a + 1, ar_initial := ar_initial a + 1\<rparr>"

definition stop_archiver :: "archiver \<Rightarrow> archiver" where
  "stop_archiver a = (case ar_intervalId a of None \<Rightarrow> a | Some i \<Rightarrow> a\<lparr>ar_live := filter (\<lambda>j. j \<noteq> i) (ar_live a)\<rparr>)"

definition begin_sweep :: "archiver \<Rightarrow> archiver" where
  "begin_sweep a = (if ar_isRunning a then a else a\<lparr>ar_isRunning := True, ar_sweeps := ar_sweeps a + 1\<rparr>)"

definition end_sweep :: "archiver \<Rightarrow> archiver" where
  "end_sweep a = a\<lparr>ar_isRunning := False, ar_sweeps := ar_sweeps a - 1\<rparr>"

datatype archive_event = Start_Archiver | Timers_Set | Stop_Archiver | Interval_Fires | Initial_Fires | Sweep_Ends

fun archive_step :: "archive_event \<Rightarrow> archiver \<Rightarrow> archiver option" where
  "archive_step Start_Archiver a = Some (start_archiver a)"
| "archive_step Timers_Set a = (if ar_starting a = 0 then None else Some (set_timers a))"
| "archive_step Stop_Archiver a = Some (stop_archiver a)"
| "archive_step Interval_Fires a = (if ar_live a = [] then None else Some (begin_sweep a))"
| "archive_step Initial_Fires a = (if ar_initial a = 0 then None else Some (begin_sweep (a\<lparr>ar_initial := ar_initial a - 1\<rparr>)))"
| "archive_step Sweep_Ends a = (if ar_sweeps a = 0 then None else Some (end_sweep a))"

fun archive_run :: "archive_event list \<Rightarrow> archiver \<Rightarrow> archiver option" where
  "archive_run [] a = Some a"
| "archive_run (e # es) a = (case archive_step e a of None \<Rightarrow> None | Some a1 \<Rightarrow> archive_run es a1)"

lemmas archiver_defs = start_archiver_def set_timers_def stop_archiver_def begin_sweep_def end_sweep_def

definition one_sweep :: "archiver \<Rightarrow> bool" where
  "one_sweep a \<longleftrightarrow> ar_sweeps a = (if ar_isRunning a then 1 else 0)"

lemma archive_step_one: "archive_step e a = Some a1 \<Longrightarrow> one_sweep a \<Longrightarrow> one_sweep a1"
  by (cases e) (auto simp: archiver_defs one_sweep_def split: if_splits option.splits)

lemma archive_run_one: "archive_run es a = Some a1 \<Longrightarrow> one_sweep a \<Longrightarrow> one_sweep a1"
  by (induction es arbitrary: a) (auto dest: archive_step_one split: option.splits)

text \<open>
  Two snapshot sweeps of a worker never overlap, however often it is started and stopped and in
  whatever order its timers fire; so each sweep reads the cursor its predecessor wrote.
\<close>

theorem snapshots_never_overlap:
  assumes "archive_run es new_archiver = Some a"
  shows "ar_sweeps a \<le> 1"
  using archive_run_one [OF assms] by (auto simp: one_sweep_def new_archiver_def split: if_splits)

text \<open>
  Stopping leaves timers behind: the initial sweep still runs, and an interval whose start was
  waiting for the directory is set after the stop and runs on.
\<close>

theorem stopped_archiver_still_sweeps:
  "\<exists>a. archive_run [Start_Archiver, Timers_Set, Stop_Archiver, Initial_Fires] new_archiver = Some a
      \<and> ar_live a = [] \<and> ar_sweeps a = 1"
  "\<exists>a. archive_run [Start_Archiver, Stop_Archiver, Timers_Set] new_archiver = Some a \<and> ar_live a = [0]"
  by (simp_all add: new_archiver_def archiver_defs)

subsection \<open>The server process (server.ts, the shutdowns of coordinator and governor)\<close>

text \<open>
  The process checks Redis, listens, starts its workers when it listens and ends when the signal
  handler has closed it. Closing the orchestrators stops at the first that fails.
\<close>

datatype orchestrator = Queue_Worker | Coordinator_Redis | Workflow_Queue | Governor_Redis

datatype phase_of_server = Checking | Booting | Up | Exited int

record server =
  sv_phase :: phase_of_server
  sv_ghosts :: "poller option"
  sv_escalations :: "poller option"
  sv_snapshots :: "archiver option"
  sv_signals :: nat
  sv_open :: "orchestrator list"
  sv_closing :: bool

definition coordinator_shutdown :: "orchestrator list" where
  "coordinator_shutdown = [Queue_Worker, Coordinator_Redis]"

definition governor_shutdown :: "orchestrator list" where
  "governor_shutdown = [Governor_Redis]"

definition shutdown_order :: "orchestrator list" where
  "shutdown_order = coordinator_shutdown @ [Workflow_Queue] @ governor_shutdown"

definition new_server :: server where
  "new_server = \<lparr>sv_phase = Checking, sv_ghosts = None, sv_escalations = None, sv_snapshots = None, sv_signals = 0,
     sv_open = shutdown_order, sv_closing = False\<rparr>"

definition checkRedis :: "bool \<Rightarrow> server \<Rightarrow> server" where
  "checkRedis up s = s\<lparr>sv_phase := (if up then Booting else Exited 1)\<rparr>"

definition on_listening :: "server \<Rightarrow> server" where
  "on_listening s = s\<lparr>sv_phase := Up, sv_ghosts := Some (start_poller new_poller), sv_escalations := Some (start_poller new_poller),
     sv_snapshots := Some (start_archiver new_archiver)\<rparr>"

definition stop_workers :: "server \<Rightarrow> server" where
  "stop_workers s = s\<lparr>sv_ghosts := map_option stop_poller (sv_ghosts s), sv_escalations := map_option stop_poller (sv_escalations s),
     sv_snapshots := map_option stop_archiver (sv_snapshots s)\<rparr>"

definition close_orchestrators :: "(orchestrator \<Rightarrow> bool) \<Rightarrow> orchestrator list \<Rightarrow> orchestrator list" where
  "close_orchestrators ok opened = filter (\<lambda>r. r \<notin> set (takeWhile ok shutdown_order)) opened"

text \<open>The handler stops the workers at once, closes the orchestrators, and then the server.\<close>

definition gracefulShutdown :: "server \<Rightarrow> server" where
  "gracefulShutdown s = (stop_workers s)\<lparr>sv_signals := sv_signals s + 1\<rparr>"

definition close_server :: "(orchestrator \<Rightarrow> bool) \<Rightarrow> server \<Rightarrow> server" where
  "close_server ok s = s\<lparr>sv_signals := sv_signals s - 1, sv_open := close_orchestrators ok (sv_open s), sv_closing := True\<rparr>"

datatype server_event =
    Redis_Checked bool | Listening | Signal | Orchestrators_Closed "orchestrator \<Rightarrow> bool" | Connections_Ended
  | Ghosts poll_event | Escalations poll_event | Snapshots archive_event

text \<open>Only the process starts and stops workers; their callbacks are events of their own.\<close>

fun callback :: "poll_event \<Rightarrow> poller option \<Rightarrow> poller option" where
  "callback Poll_Fires (Some p) = poll_step Poll_Fires p"
| "callback Poll_Ends (Some p) = poll_step Poll_Ends p"
| "callback _ _ = None"

fun archive_callback :: "archive_event \<Rightarrow> archiver option \<Rightarrow> archiver option" where
  "archive_callback Start_Archiver _ = None"
| "archive_callback Stop_Archiver _ = None"
| "archive_callback e (Some a) = archive_step e a"
| "archive_callback _ None = None"

definition exited :: "server \<Rightarrow> bool" where
  "exited s \<longleftrightarrow> (case sv_phase s of Exited _ \<Rightarrow> True | _ \<Rightarrow> False)"

fun server_act :: "server_event \<Rightarrow> server \<Rightarrow> server option" where
  "server_act (Redis_Checked up) s = (if sv_phase s = Checking then Some (checkRedis up s) else None)"
| "server_act Listening s = (if sv_phase s = Booting then Some (on_listening s) else None)"
| "server_act Signal s = (if sv_phase s = Checking then None else Some (gracefulShutdown s))"
| "server_act (Orchestrators_Closed ok) s = (if sv_signals s = 0 then None else Some (close_server ok s))"
| "server_act Connections_Ended s = (if sv_closing s then Some (s\<lparr>sv_phase := Exited 0\<rparr>) else None)"
| "server_act (Ghosts e) s = map_option (\<lambda>p. s\<lparr>sv_ghosts := Some p\<rparr>) (callback e (sv_ghosts s))"
| "server_act (Escalations e) s = map_option (\<lambda>p. s\<lparr>sv_escalations := Some p\<rparr>) (callback e (sv_escalations s))"
| "server_act (Snapshots e) s = map_option (\<lambda>a. s\<lparr>sv_snapshots := Some a\<rparr>) (archive_callback e (sv_snapshots s))"

definition server_step :: "server_event \<Rightarrow> server \<Rightarrow> server option" where
  "server_step e s = (if exited s then None else server_act e s)"

fun server_run :: "server_event list \<Rightarrow> server \<Rightarrow> server option" where
  "server_run [] s = Some s"
| "server_run (e # es) s = (case server_step e s of None \<Rightarrow> None | Some s1 \<Rightarrow> server_run es s1)"

lemma server_run_keeps:
  assumes "server_run es s = Some s'" and "P s" and "\<And>e s s1. server_step e s = Some s1 \<Longrightarrow> P s \<Longrightarrow> P s1"
  shows "P s'"
  using assms(1,2)
proof (induction es arbitrary: s)
  case (Cons e es)
  then obtain s1 where "server_step e s = Some s1" "server_run es s1 = Some s'" by (auto split: option.splits)
  then show ?case using Cons assms(3) by blast
qed simp

subsection \<open>The workers of a running server\<close>

definition one_chain :: "poller option \<Rightarrow> bool" where
  "one_chain q = (case q of None \<Rightarrow> True | Some p \<Rightarrow> if po_isRunning p then chains p = 1 else chains p \<le> 1)"

definition one_archive :: "archiver option \<Rightarrow> bool" where
  "one_archive q = (case q of None \<Rightarrow> True | Some a \<Rightarrow> one_sweep a \<and> ar_starting a + length (ar_live a) \<le> 1)"

lemma callback_one: "callback e q = Some p \<Longrightarrow> one_chain q \<Longrightarrow> one_chain (Some p)"
  by (cases e; cases q) (auto simp: one_chain_def poller_defs split: if_splits)

lemma stop_one: "one_chain q \<Longrightarrow> one_chain (map_option stop_poller q)"
  by (cases q) (auto simp: one_chain_def stop_poller_def chains_def split: if_splits)

lemma room: "n + length l \<le> Suc 0 \<Longrightarrow> 0 < n \<Longrightarrow> l = []"
  by (cases l) auto

lemma archive_callback_one: "archive_callback e q = Some a \<Longrightarrow> one_archive q \<Longrightarrow> one_archive (Some a)"
  by (cases e; cases q) (auto simp: one_archive_def one_sweep_def archiver_defs dest: room split: if_splits)

lemma stop_archive_one: "one_archive q \<Longrightarrow> one_archive (map_option stop_archiver q)"
  by (cases q) (auto simp: one_archive_def one_sweep_def stop_archiver_def split: option.split
      intro: le_trans [OF add_left_mono [OF length_filter_le]])

definition serial :: "server \<Rightarrow> bool" where
  "serial s \<longleftrightarrow> one_chain (sv_ghosts s) \<and> one_chain (sv_escalations s) \<and> one_archive (sv_snapshots s)"

lemma server_step_serial: "server_step e s = Some s1 \<Longrightarrow> serial s \<Longrightarrow> serial s1"
  by (cases e)
    (auto simp: server_step_def serial_def checkRedis_def on_listening_def gracefulShutdown_def stop_workers_def close_server_def
      stop_one stop_archive_one intro: callback_one archive_callback_one split: if_splits,
     auto simp: one_chain_def one_archive_def one_sweep_def new_poller_def new_archiver_def poller_defs archiver_defs)

text \<open>
  C39: in every history of a server process, whatever order its timers fire and its sweeps end in
  and whenever a signal comes, each worker has at most one sweep in progress and at most one
  timer chain or interval, and a running polling worker always has exactly one.
\<close>

theorem server_workers_serial:
  assumes "server_run es new_server = Some s"
  shows "one_chain (sv_ghosts s) \<and> one_chain (sv_escalations s) \<and> one_archive (sv_snapshots s)"
proof -
  have "serial new_server" by (simp add: serial_def new_server_def one_chain_def one_archive_def)
  with server_run_keeps [where P = serial, OF assms] server_step_serial show ?thesis by (auto simp: serial_def)
qed

theorem server_workers_serial_witness:
  "one_chain (sv_ghosts (on_listening (checkRedis True new_server)))"
  using server_workers_serial [of "[Redis_Checked True, Listening]" "on_listening (checkRedis True new_server)"]
  by (simp add: server_step_def exited_def new_server_def checkRedis_def on_listening_def)

definition halted :: "poller option \<Rightarrow> bool" where
  "halted q = (case q of None \<Rightarrow> False | Some p \<Rightarrow> \<not> po_isRunning p)"

definition with_workers :: "server \<Rightarrow> bool" where
  "with_workers s \<longleftrightarrow> (if sv_phase s = Up then sv_ghosts s \<noteq> None \<and> sv_escalations s \<noteq> None else True)"

lemma server_step_workers: "server_step e s = Some s1 \<Longrightarrow> with_workers s \<Longrightarrow> with_workers s1"
  by (cases e)
    (auto simp: server_step_def with_workers_def checkRedis_def on_listening_def gracefulShutdown_def stop_workers_def close_server_def
      split: if_splits)

definition shut :: "server \<Rightarrow> bool" where
  "shut s \<longleftrightarrow> sv_phase s \<noteq> Checking \<and> sv_phase s \<noteq> Booting \<and> halted (sv_ghosts s) \<and> halted (sv_escalations s)"

lemma callback_halted: "callback e q = Some p \<Longrightarrow> halted q \<Longrightarrow> halted (Some p)"
  by (cases e; cases q) (auto simp: halted_def poller_defs split: if_splits)

lemma server_step_shut: "server_step e s = Some s1 \<Longrightarrow> shut s \<Longrightarrow> shut s1"
  by (cases e)
    (auto simp: server_step_def shut_def gracefulShutdown_def stop_workers_def close_server_def intro: callback_halted split: if_splits,
     auto simp: halted_def stop_poller_def split: option.splits)

text \<open>
  A signal to a listening server stops the polling workers for good: in every continuation both
  are halted, so that no sweep begins after those in progress.
\<close>

theorem shutdown_halts_polling:
  assumes "server_run es new_server = Some s" and "sv_phase s = Up" and "server_run es' (gracefulShutdown s) = Some s'"
  shows "halted (sv_ghosts s') \<and> halted (sv_escalations s')"
proof -
  have "with_workers s" using server_run_keeps [where P = with_workers, OF assms(1)] server_step_workers
    by (auto simp: with_workers_def new_server_def)
  then have "shut (gracefulShutdown s)"
    using assms(2) by (auto simp: with_workers_def shut_def gracefulShutdown_def stop_workers_def halted_def stop_poller_def)
  with server_run_keeps [where P = shut, OF assms(3)] server_step_shut show ?thesis by (auto simp: shut_def)
qed

text \<open>A closing that fails leaves the connections after it open; the process still ends.\<close>

lemma failed_close_leaves_rest: "close_orchestrators (\<lambda>r. r \<noteq> Coordinator_Redis) shutdown_order = [Coordinator_Redis, Workflow_Queue, Governor_Redis]"
  by (simp add: close_orchestrators_def shutdown_order_def coordinator_shutdown_def governor_shutdown_def)

end
