(* ===== verification/Review.thy ===== *)
theory Review
  imports System Console
begin

section \<open>The console beside the platform: the reviewed action is the executed one\<close>

text \<open>
  The console shows a decision as it was when it was fetched; while a person reads it, the
  platform goes on. This theory composes the page of Console with the histories of System and
  shows that the approval button runs what the page shows.
\<close>

subsection \<open>The remaining handlers of the page\<close>

definition select_decision :: "escalation \<Rightarrow> console \<Rightarrow> console" where
  "select_decision e c = c\<lparr>co_selected := Some e\<rparr>"

definition cancel_review :: "console \<Rightarrow> console" where
  "cancel_review c = c\<lparr>co_selected := None\<rparr>"

definition toggle_settings :: "console \<Rightarrow> console" where
  "toggle_settings c = c\<lparr>co_showSettings := \<not> co_showSettings c\<rparr>"

datatype form_input = In_Provider | In_Model | In_Base | In_Openai | In_Anthropic

fun edit_form :: "form_input \<Rightarrow> string \<Rightarrow> form \<Rightarrow> form" where
  "edit_form In_Provider s f = f\<lparr>fo_provider := s\<rparr>"
| "edit_form In_Model s f = f\<lparr>fo_model := s\<rparr>"
| "edit_form In_Base s f = f\<lparr>fo_base := s\<rparr>"
| "edit_form In_Openai s f = f\<lparr>fo_openai := s\<rparr>"
| "edit_form In_Anthropic s f = f\<lparr>fo_anthropic := s\<rparr>"

text \<open>The inputs on the form: the key field of the provider selected, the others always.\<close>

fun input_shown :: "form_input \<Rightarrow> form \<Rightarrow> bool" where
  "input_shown In_Openai f \<longleftrightarrow> fo_provider f = ''openai'' \<or> fo_provider f = ''custom''"
| "input_shown In_Anthropic f \<longleftrightarrow> fo_provider f = ''anthropic''"
| "input_shown _ f \<longleftrightarrow> True"

definition type_in :: "form_input \<Rightarrow> string \<Rightarrow> console \<Rightarrow> console" where
  "type_in i s c = (if co_showSettings c \<and> input_shown i (co_form c) then c\<lparr>co_form := edit_form i s (co_form c)\<rparr> else c)"

text \<open>
  What the panel beside the approval button shows of the selected decision: the objective and
  the recommended option, or nothing. A decision without its proposal cannot be rendered.
\<close>

definition reviewed :: "console \<Rightarrow> (string \<times> string \<times> json) option" where
  "reviewed c =
     (case co_selected c of
        Some (d, Some p, Some t) \<Rightarrow> Some (d_id d, t_objective t, p_recommendedOption p)
      | _ \<Rightarrow> None)"

subsection \<open>Histories of a page and the platform\<close>

inductive page_step :: "runtime \<Rightarrow> console \<times> world \<Rightarrow> console \<times> world \<Rightarrow> bool" for rt :: runtime where
  platform_moves: "sys_step rt w w' \<Longrightarrow> page_step rt (c, w) (c, w')"
| page_polls: "poll av key ip now up (c, w) = s \<Longrightarrow> page_step rt (c, w) s"
| decision_opened: "e \<in> set (co_escalations c) \<Longrightarrow> page_step rt (c, w) (select_decision e c, w)"
| review_cancelled: "page_step rt (c, w) (cancel_review c, w)"
| override_pressed: "reviewed c = Some (i, ob, v) \<Longrightarrow> press_override rt av key ip clk up late env i (c, w) = s \<Longrightarrow> page_step rt (c, w) s"
| settings_opened: "page_step rt (c, w) (toggle_settings c, w)"
| settings_fetched: "page_step rt (c, w) (fetchSettings a c, w)"
| form_typed: "page_step rt (c, w) (type_in inp s c, w)"
| save_pressed: "press_save av ci iv1 iv2 key ip now up refetch (c, w) = s' \<Longrightarrow> page_step rt (c, w) s'"
| test_pressed: "press_test av ci vendor key ip now up name (c, w) = s' \<Longrightarrow> page_step rt (c, w) s'"
| toast_cleared: "page_step rt (c, w) (clear_toast c, w)"

text \<open>The page names one user, so that its requests are those of a user without a comma.\<close>

lemma page_user:
  "admit av now up ep (page_request key True ip method body) w = (Inr u, w1) \<Longrightarrow> us_id u = ''admin_123''"
  by (auto simp: admit_def requireAuth_def authenticateAPIKey_def page_request_def page_headers_def header_def str_or_def requireRole_def
      split: option.splits prod.splits sum.splits if_splits)

lemma page_user_plain: "plain_user ''admin_123''"
  by (simp add: plain_user_def)

lemma admit_reach: "admit av now up ep rq w = (m, w') \<Longrightarrow> (sys_step rt)\<^sup>*\<^sup>* w w'"
  by (blast intro: sys_step.user_admitted)

lemma override_reach:
  assumes "press_override rt av key ip clk up late env i (c, w) = (c', w')"
  shows "(sys_step rt)\<^sup>*\<^sup>* w w'"
proof -
  let ?rq = "page_request key True ip ''POST'' JNull"
  obtain x w1 where ad: "admit av (clk 0) up Post_Override ?rq w = (x, w1)" by fastforce
  have r1: "(sys_step rt)\<^sup>*\<^sup>* w w1" by (rule admit_reach [OF ad])
  show ?thesis
  proof (cases x)
    case (Inl r)
    then show ?thesis using assms ad r1 by (auto simp: press_override_def serve_def)
  next
    case (Inr u)
    obtain r w2 where ov: "overrideDecision rt clk up late env i (us_tenant u) (us_id u) w1 = (r, w2)" by fastforce
    have "sys_step rt w1 w2" using ov page_user [OF ad [unfolded Inr]] page_user_plain by (metis sys_step.override_requested)
    then show ?thesis using assms ad r1 ov Inr by (auto simp: press_override_def serve_def)
  qed
qed

lemma page_reach: "page_step rt s s' \<Longrightarrow> (sys_step rt)\<^sup>*\<^sup>* (snd s) (snd s')"
proof (induction rule: page_step.induct)
  case (override_pressed c i ob v av key ip clk up late env w s)
  then show ?case using override_reach by (cases s) auto
next
  case (page_polls av key ip now up c w s)
  then show ?case by (auto simp: poll_def split: prod.splits sum.splits intro: admit_reach)
next
  case (save_pressed av ci iv1 iv2 key ip now up refetch c w s')
  obtain x w1 where ad: "admit av now up Settings_Routes (page_request key False ip ''POST'' (form_json (co_form c))) w = (x, w1)"
    by fastforce
  then obtain r where "x = Inl r" using unnamed_refused by blast
  then show ?case using save_pressed ad admit_reach [OF ad] by (auto simp: press_save_def serve_def Let_def)
next
  case (test_pressed av ci vendor key ip now up name c w s')
  obtain x w1 where ad: "admit av now up Settings_Routes (page_request key False ip ''POST'' (test_body name (co_form c))) w = (x, w1)"
    by fastforce
  then obtain r where "x = Inl r" using unnamed_refused by blast
  then show ?case using test_pressed ad admit_reach [OF ad] by (auto simp: press_test_def serve_def Let_def)
qed auto

subsection \<open>A decision keeps its option\<close>

text \<open>\<open>bound a i v\<close>: the decision i was taken on the option v.\<close>

definition bound :: "authority \<Rightarrow> string \<Rightarrow> json \<Rightarrow> bool" where
  "bound a i v \<longleftrightarrow> (\<exists>d \<in> set (au_decisions a). d_id d = i \<and> map_of (au_options a) (d_proposalId d) = Some v)"

lemma rewritten_row:
  assumes "\<And>x. d_id (f x) = d_id x \<and> d_proposalId (f x) = d_proposalId x" and "d \<in> set ds"
  shows "\<exists>x \<in> set (update_where P f ds). d_id x = d_id d \<and> d_proposalId x = d_proposalId d"
  unfolding set_update_where using assms by (intro bexI [of _ "if P d then f d else d"]) auto

lemma bound_step: "au_step rt a b \<Longrightarrow> bound a i v \<Longrightarrow> bound b i v"
proof (induction rule: au_step.induct)
  case (voted d a u)
  then show ?case using rewritten_row [of "add_vote (vote_string u d)"] by (fastforce simp: bound_def add_vote_def)
next
  case (locked a j)
  then show ?case using rewritten_row [of lock_row] by (fastforce simp: bound_def lock_row_def)
qed (auto simp: bound_def map_add_Some_iff)

lemma bound_steps: "au_steps rt a b \<Longrightarrow> bound a i v \<Longrightarrow> bound b i v"
  by (induction rule: rtranclp_induct) (auto intro: bound_step)

lemma bound_reach:
  assumes "(sys_step rt)\<^sup>*\<^sup>* w w'" and "inj (rt_uuid rt)" and "au_ok rt (authority_of w)" and "bound (authority_of w) i v"
  shows "bound (authority_of w') i v"
  using platform.reach_refines [OF assms(1,2)] assms(3,4) bound_steps by (auto simp: refines_def)

subsection \<open>What the page shows stays true\<close>

definition true_entry :: "world \<Rightarrow> escalation \<Rightarrow> bool" where
  "true_entry w e = (case e of (d, p, t) \<Rightarrow> (case p of None \<Rightarrow> True | Some q \<Rightarrow> bound (authority_of w) (d_id d) (p_recommendedOption q)))"

definition truthful :: "console \<Rightarrow> world \<Rightarrow> bool" where
  "truthful c w = (list_all (true_entry w) (co_escalations c) \<and> (case co_selected c of None \<Rightarrow> True | Some e \<Rightarrow> true_entry w e))"

lemma fetched_true: "list_all (true_entry w) (getEscalatedDecisions u w)"
proof -
  have "true_entry w (d, proposal_of w d, task_of w d)" if "d \<in> set (decisions w)" for d
    using that find_option by (auto simp: true_entry_def proposal_of_def bound_def authority_of_def split: option.split)
  then show ?thesis by (auto simp: getEscalatedDecisions_def list_all_iff dest!: in_set_takeD)
qed

lemma truthful_reach:
  assumes "(sys_step rt)\<^sup>*\<^sup>* w w'" and "inj (rt_uuid rt)" and "au_ok rt (authority_of w)" and "truthful c w"
  shows "truthful c w'"
proof -
  have "true_entry w e \<Longrightarrow> true_entry w' e" for e
    using bound_reach [OF assms(1-3)] by (auto simp: true_entry_def split: option.splits)
  then show ?thesis using assms(4) by (auto simp: truthful_def list_all_iff split: option.splits)
qed

lemma override_entries:
  "set (co_escalations (handleOverride i a c)) \<subseteq> set (co_escalations c)"
  "co_selected (handleOverride i a c) = Some e \<Longrightarrow> co_selected c = Some e"
  by (cases a; auto simp: handleOverride_def say_def Let_def split: if_splits)+

text \<open>A step of the page keeps the entries it had, or fetches true ones.\<close>

lemma page_entries:
  "page_step rt s s' \<Longrightarrow>
     (\<forall>e \<in> set (co_escalations (fst s')). e \<in> set (co_escalations (fst s)) \<or> true_entry (snd s') e)
     \<and> (\<forall>e. co_selected (fst s') = Some e \<longrightarrow> co_selected (fst s) = Some e \<or> e \<in> set (co_escalations (fst s)))"
proof (induction rule: page_step.induct)
  case (page_polls av key ip now up c w s)
  then show ?case
    using fetched_true by (fastforce simp: poll_def fetchEscalations_def list_all_iff split: prod.splits sum.splits)
next
  case (override_pressed c i ob v av key ip clk up late env w s)
  obtain r w1 where "serve av (clk 0) up Post_Override (\<lambda>u. overrideDecision rt clk up late env i (us_tenant u) (us_id u))
      (page_request key True ip ''POST'' JNull) w = (r, w1)" by fastforce
  then have "s = (handleOverride i (Inr r) c, w1)" using override_pressed(2) by (simp add: press_override_def)
  then show ?case using override_entries [of i "Inr r" c] by auto
next
  case (settings_fetched c w a)
  then show ?case by (auto simp: fetchSettings_def Let_def split: sum.splits)
next
  case (save_pressed av ci iv1 iv2 key ip now up refetch c w s')
  then show ?case
    by (auto simp: press_save_def handleSaveSettings_def fetchSettings_def say_def Let_def split: prod.splits sum.splits if_splits)
next
  case (test_pressed av ci vendor key ip now up name c w s')
  then show ?case
    by (auto simp: press_test_def handleTestConnection_def start_test_def say_def Let_def split: prod.splits sum.splits if_splits)
qed (auto simp: select_decision_def cancel_review_def toggle_settings_def type_in_def clear_toast_def)

lemma page_truthful:
  assumes "page_step rt (c, w) (c', w')" and "inj (rt_uuid rt)" and "au_ok rt (authority_of w)" and "truthful c w"
  shows "truthful c' w'"
proof -
  have "truthful c w'" using truthful_reach [OF _ assms(2-4)] page_reach [OF assms(1)] by simp
  then show ?thesis using page_entries [OF assms(1)] by (fastforce simp: truthful_def list_all_iff split: option.split)
qed

lemma page_invariant:
  assumes "(page_step rt)\<^sup>*\<^sup>* (c0, w0) (c, w)" and "inj (rt_uuid rt)" and "au_ok rt (authority_of w0)"
  shows "truthful c0 w0 \<longrightarrow> au_ok rt (authority_of w) \<and> truthful c w"
  using assms(1)
proof (induction rule: rtranclp_induct2)
  case (step c1 w1 c2 w2)
  then show ?case
    using page_truthful [OF _ assms(2)] page_reach [of rt "(c1, w1)" "(c2, w2)"] platform.reach_ok [OF _ assms(2)] by auto
qed (use assms(3) in simp)

lemma initial_truthful: "truthful initial_console w"
  by (simp add: truthful_def initial_console_def)

subsection \<open>The action behind the button\<close>

lemma override_call:
  assumes inj: "inj (rt_uuid rt)" and ok: "au_ok rt (authority_of w)" and b: "bound (authority_of w) i v"
    and run: "overrideDecision rt clk up late env i t u w = (r, w')" and calls: "calls w' \<noteq> calls w"
  shows "\<exists>c. calls w' = calls w @ [c] \<and> jget v ''actionType'' = Some (JStr (tc_action c)) \<and> tc_parameters c = jget v ''parameters''"
proof -
  have ids: "distinct (map d_id (decisions w))" "set (map d_id (decisions w)) \<subseteq> rt_uuid rt ` {..<uuids_drawn w}"
    using ok by (auto simp: au_ok_def fresh_ids_def authority_of_def)
  obtain d where rd: "override_read (clk 0) i t u w = Inr d"
  proof (cases "override_read (clk 0) i t u w")
    case (Inl e)
    then show ?thesis using run calls by (simp add: overrideDecision_def)
  qed
  note found = conjunct1 [OF override_read_ok [OF rd]]
  have d: "d \<in> set (decisions w)" "d_id d = i" using find_first_in [OF found] find_first_sat [OF found] by simp_all
  have opt: "map_of (au_options (authority_of w)) (d_proposalId d) = Some v"
    using b d ids(1) by (auto simp: bound_def authority_of_def distinct_map dest: inj_onD)
  obtain b1 w1 where cv: "cast_vote u d w = (b1, w1)" by fastforce
  obtain b2 w2 where lk: "lock_decision i w1 = (b2, w2)" by fastforce
  have same: "proposals w2 = proposals w" "calls w1 = calls w" "calls w2 = calls w" "uuids_drawn w2 = uuids_drawn w"
    "map d_id (decisions w2) = map d_id (decisions w)"
    using cv lk by (auto simp: cast_vote_def lock_decision_def Let_def vote.keys_kept override_lock.keys_kept)
  have ex: "execute_override rt clk up late env t u d w2 = (r, w')"
    using run calls rd cv lk same(2,3) by (auto simp: overrideDecision_def split: bool.splits if_splits)
  obtain p where p: "find_proposal w2 (d_proposalId d) = Some p" "p_recommendedOption p = v"
    using option_found [of "proposals w" "d_proposalId d" v] opt same(1) by (auto simp: authority_of_def find_proposal_def)
  then have "p_recommendedOption p \<noteq> JNull" using ex calls same(3) by (auto simp: execute_override_def fresh_uuid_def)
  obtain n w3 where rec: "record_override rt clk t u p d w2 = (n, w3)" by fastforce
  obtain y w4 where run4: "executeDecision rt (\<lambda>i. clk (i + 4)) up late env n w3 = (y, w4)" by fastforce
  have w4: "calls w' = calls w4"
    using ex p rec run4 \<open>p_recommendedOption p \<noteq> JNull\<close> by (auto simp: execute_override_def complete_task_def split: sum.splits)
  let ?x = "override_row rt p d n (rt_uuid rt (Suc (uuids_drawn w))) (vote_string u d) (clk 2)"
  have w3: "n = rt_uuid rt (uuids_drawn w)" "decisions w3 = decisions w2 @ [?x]" "calls w3 = calls w"
      "find_proposal w3 (d_proposalId d) = Some (p\<lparr>p_status := P_APPROVED\<rparr>)"
    using rec same p(1) by (auto simp: record_override_def fresh_uuid_def Let_def find_proposal_def update_proposal_def find_first_update_key)
  have "n \<notin> set (map d_id (decisions w2))"
    unfolding same(5) w3(1) using ids(2) inj by (auto dest: injD)
  then have "find_decision w3 n = Some ?x"
    by (auto simp: find_decision_def w3(2) find_first_append override_row_def find_first_None split: option.split)
  moreover have "d_proposalId ?x = d_proposalId d" by (simp add: override_row_def)
  moreover have "calls w4 \<noteq> calls w3" using calls w4 w3(3) by simp
  ultimately show ?thesis
    using authorized_call [OF run4] w3(3,4) w4 p(2) by (auto simp: call_of_def)
qed

text \<open>
  C5: the reviewer approves what runs. In every history of the page and the platform, whatever
  the platform does between the fetch and the click, pressing the approval button calls no tool
  or exactly one, with the action and the parameters of the option the page shows.
\<close>

theorem console_approves_what_it_shows:
  assumes "inj (rt_uuid rt)" and "au_ok rt (authority_of w0)" and "(page_step rt)\<^sup>*\<^sup>* (initial_console, w0) (c, w)"
    and "reviewed c = Some (i, objective, v)"
    and "press_override rt av key ip clk up late env i (c, w) = (c', w')"
  shows "calls w' = calls w \<or> (\<exists>call. calls w' = calls w @ [call]
     \<and> jget v ''actionType'' = Some (JStr (tc_action call)) \<and> tc_parameters call = jget v ''parameters'')"
proof -
  have inv: "au_ok rt (authority_of w) \<and> truthful c w" using page_invariant [OF assms(3,1,2)] initial_truthful by blast
  then have b: "bound (authority_of w) i v"
    using assms(4) by (auto simp: reviewed_def truthful_def true_entry_def split: option.splits prod.splits)
  obtain x w1 where ad: "admit av (clk 0) up Post_Override (page_request key True ip ''POST'' JNull) w = (x, w1)" by fastforce
  then have w1: "calls w1 = calls w" "au_ok rt (authority_of w1)" "bound (authority_of w1) i v"
    using admit_cases [OF ad] platform.reach_ok [OF admit_reach [OF ad] assms(1)] bound_reach [OF admit_reach [OF ad] assms(1)] inv b
    by (auto simp: api_frame_def)
  show ?thesis
  proof (cases x)
    case (Inl r)
    then show ?thesis using assms(5) ad w1(1) by (auto simp: press_override_def serve_def)
  next
    case (Inr usr)
    obtain r w2 where ov: "overrideDecision rt clk up late env i (us_tenant usr) (us_id usr) w1 = (r, w2)" by fastforce
    have "w' = w2" using assms(5) ad ov Inr by (auto simp: press_override_def serve_def)
    then show ?thesis using override_call [OF assms(1) w1(2,3) ov] w1(1) by auto
  qed
qed

end
