(* ===== verification/Review_Witnesses.thy ===== *)
theory Review_Witnesses
  imports Review Override_Witnesses System_Witnesses
begin

section \<open>The reviewed action on a concrete page\<close>

text \<open>
  One escalated decision of the console's tenant: the page fetches it, the reviewer opens it and
  presses the approval button.
\<close>

definition review_rt :: runtime where
  "review_rt = demo_rt\<lparr>rt_uuid := (\<lambda>n. CHR ''d'' # replicate n (CHR ''u''))\<rparr>"

definition review_row :: decision_row where
  "review_row = (demo_escalated 1)\<lparr>d_tenantId := ''default_tenant''\<rparr>"

definition review_world :: world where
  "review_world = (demo_world demo_read)\<lparr>decisions := [review_row], uuids_drawn := 1\<rparr>"

lemma review_ids: "inj (rt_uuid review_rt)"
  by (rule injI) (simp add: review_rt_def)

lemma review_start_ok: "au_ok review_rt (authority_of review_world)"
proof -
  have "sound_row opts review_row" for opts
    by (simp add: sound_row_def counted_def review_row_def approvers_def demo_escalated_def)
  then show ?thesis
    by (simp add: au_ok_def authority_of_def review_world_def review_rt_def fresh_ids_def made_for_def written.empty_log)
      (simp add: review_row_def)
qed

lemma review_poll:
  "\<exists>c w. poll demo_av (Some ''key'') ''i'' 0 True (initial_console, review_world) = (c, w)
     \<and> co_escalations c = [(review_row, Some (demo_proposal demo_read), Some demo_task)]"
  by (simp add: poll_def admit_def rateLimiter_def window_incr_def requireAuth_def authenticateAPIKey_def page_request_def page_headers_def
      header_def str_or_def page_key_def expected_key_def env_var_def demo_av_def resolveUserRole_def find_role_def production_def
      requireRole_def fetchEscalations_def getEscalatedDecisions_def review_world_def review_row_def proposal_of_def task_of_def
      find_proposal_def find_task_def initial_console_def demo_world_def demo_proposal_def demo_task_def empty_world_def redis_live_def
      count_where_def Let_def)

theorem console_approves_what_it_shows_witness:
  "\<exists>c w c' w'. reviewed c = Some (''d'', ''o'', demo_read)
     \<and> press_override review_rt demo_av (Some ''key'') ''i'' (\<lambda>n. 0) True False demo_env ''d'' (c, w) = (c', w')
     \<and> (calls w' = calls w \<or> (\<exists>call. calls w' = calls w @ [call] \<and> tc_action call = ''READ_DATABASE''
          \<and> tc_parameters call = jget demo_read ''parameters''))"
proof -
  obtain c w where p: "poll demo_av (Some ''key'') ''i'' 0 True (initial_console, review_world) = (c, w)"
      "co_escalations c = [(review_row, Some (demo_proposal demo_read), Some demo_task)]"
    using review_poll by blast
  let ?e = "(review_row, Some (demo_proposal demo_read), Some demo_task)"
  have "page_step review_rt (initial_console, review_world) (c, w)" using p(1) by (rule page_step.page_polls)
  moreover have "page_step review_rt (c, w) (select_decision ?e c, w)" using p(2) by (intro page_step.decision_opened) simp
  ultimately have run: "(page_step review_rt)\<^sup>*\<^sup>* (initial_console, review_world) (select_decision ?e c, w)"
    by (meson converse_rtranclp_into_rtranclp r_into_rtranclp)
  have shown: "reviewed (select_decision ?e c) = Some (''d'', ''o'', demo_read)"
    by (simp add: reviewed_def select_decision_def review_row_def demo_task_def)
  obtain c' w' where o': "press_override review_rt demo_av (Some ''key'') ''i'' (\<lambda>n. 0) True False demo_env ''d'' (select_decision ?e c, w) = (c', w')"
    by fastforce
  have "jget demo_read ''actionType'' = Some (JStr ''READ_DATABASE'')" by (simp add: demo_read_def)
  then show ?thesis
    using console_approves_what_it_shows [OF review_ids review_start_ok run shown o'] shown o' by force
qed

end
