(* ===== verification/Job_Queue.thy ===== *)
theory Job_Queue
  imports Workflow_Laws
begin

section \<open>The retries of the job queue (workflow/coordinator.service.ts)\<close>

text \<open>
  A job is queued with fifty attempts and an exponential backoff. The queue is a library; what it
  documents is modelled: an attempt that throws is made again after \<open>delay * 2 ^ (k - 1)\<close>
  milliseconds, k being the attempts made, until the attempts are used up. Between two attempts
  other requests and jobs run, which is the parameter \<open>others\<close>; \<open>clk k\<close> is when attempt k starts
  and ends.
\<close>

definition max_attempts :: nat where
  "max_attempts = 50"

definition backoff_delay :: "nat \<Rightarrow> int" where
  "backoff_delay k = 2000 * 2 ^ (k - 1)"

datatype job_fate = Job_Done loop_result | Job_Delayed int | Job_Failed exn

definition attempt_job :: "runtime \<Rightarrow> (nat \<Rightarrow> attempt_env) \<Rightarrow> int \<times> int \<Rightarrow> nat \<Rightarrow> job \<Rightarrow> world \<Rightarrow> job_fate \<times> world" where
  "attempt_job rt envs t attemptsMade j w =
     (case run_job rt envs (fst t) (snd t) j w of
        (Inr r, w1) \<Rightarrow> (Job_Done r, w1)
      | (Inl e, w1) \<Rightarrow>
          (if attemptsMade + 1 < max_attempts then Job_Delayed (snd t + backoff_delay (attemptsMade + 1)) else Job_Failed e, w1))"

lemma delayed_bound: "attempt_job rt envs t made j w = (Job_Delayed due, w1) \<Longrightarrow> Suc made < max_attempts"
  by (auto simp: attempt_job_def split: prod.splits sum.splits if_splits)

function work_job :: "runtime \<Rightarrow> (nat \<Rightarrow> nat \<Rightarrow> attempt_env) \<Rightarrow> (nat \<Rightarrow> world \<Rightarrow> world) \<Rightarrow> (nat \<Rightarrow> int \<times> int) \<Rightarrow> nat \<Rightarrow> job \<Rightarrow> world
    \<Rightarrow> job_fate \<times> nat \<times> world" where
  "work_job rt envs others clk made j w =
     (case attempt_job rt (envs made) (clk made) made j (others made w) of
        (Job_Delayed due, w1) \<Rightarrow> work_job rt envs others clk (Suc made) j w1
      | (Job_Done r, w1) \<Rightarrow> (Job_Done r, Suc made, w1)
      | (Job_Failed e, w1) \<Rightarrow> (Job_Failed e, Suc made, w1))"
  by pat_completeness auto

termination
  by (relation "measure (\<lambda>(rt, envs, others, clk, made, j, w). max_attempts - made)") (auto dest!: sym [THEN delayed_bound])

declare work_job.simps [simp del]

subsection \<open>What becomes of a job\<close>

lemma begin_job_task: "begin_job now tenant w = (b, w1) \<Longrightarrow> find_task w1 i = find_task w i"
  by (auto simp: begin_job_def window_incr_def redis_decr_def find_task_def Let_def split: prod.splits if_splits)

lemma end_job_task: "find_task (end_job now tenant w) i = find_task w i"
  by (auto simp: end_job_def redis_decr_def find_task_def Let_def split: prod.splits)

text \<open>A run of a stored task ends; the only error of a job is its refusal, which leaves the task.\<close>

lemma run_job_cases:
  assumes "run_job rt envs s f j w = (x, w1)" and "find_task w (j_taskId j) \<noteq> None"
  shows "(x = Inl (JsError ''RATE_LIMIT_EXCEEDED'') \<and> find_task w1 (j_taskId j) \<noteq> None \<and> calls w1 = calls w)
    \<or> (\<exists>r. x = Inr r \<and> task_in (j_taskId j) w1 (settled_status r))"
proof -
  obtain b w0 where b: "begin_job s (j_tenantId j) w = (b, w0)" by fastforce
  have t0: "find_task w0 (j_taskId j) \<noteq> None" using assms(2) begin_job_task [OF b] by simp
  show ?thesis
  proof (cases b)
    case True
    obtain r w2 where run: "executeTaskLoop rt envs (j_taskId j) (j_objective j) (j_context j) (j_tenantId j) w0 = (Inr r, w2)"
      "task_in (j_taskId j) w2 (settled_status r)"
      using task_loop_result [OF t0, of rt envs "j_objective j" "j_context j" "j_tenantId j"] by blast
    then show ?thesis using assms(1) b True by (auto simp: run_job_def task_in_def end_job_task)
  next
    case False
    have "calls w0 = calls w"
      using b by (auto simp: begin_job_def window_incr_def redis_decr_def Let_def split: prod.splits if_splits)
    then show ?thesis using assms(1) b False t0 by (auto simp: run_job_def)
  qed
qed

text \<open>
  Every job comes to an end: after at most fifty attempts its task has been run to a settled
  state, once, or each of the fifty was refused for the quota of the tenant and the job is given
  up. This holds whatever other requests do between the attempts, as long as the task stays.
\<close>

theorem job_settles:
  assumes "find_task w (j_taskId j) \<noteq> None"
    and "\<And>n w. find_task w (j_taskId j) \<noteq> None \<Longrightarrow> find_task (others n w) (j_taskId j) \<noteq> None"
    and "work_job rt envs others clk made j w = (fate, n, w')" and "made < max_attempts"
  shows "n \<le> max_attempts \<and> ((\<exists>r. fate = Job_Done r \<and> task_in (j_taskId j) w' (settled_status r))
     \<or> (fate = Job_Failed (JsError ''RATE_LIMIT_EXCEEDED'') \<and> n = max_attempts))"
  using assms(1,3,4)
proof (induction "max_attempts - made" arbitrary: made w)
  case (Suc k)
  obtain x w1 where run: "run_job rt (envs made) (fst (clk made)) (snd (clk made)) j (others made w) = (x, w1)" by fastforce
  note step = work_job.simps [of rt envs others clk made j w] attempt_job_def run
  from run_job_cases [OF run assms(2) [OF Suc.prems(1)]] show ?case
  proof (elim disjE exE conjE)
    fix r assume "x = Inr r" "task_in (j_taskId j) w1 (settled_status r)"
    then show ?thesis using Suc.prems(2,3) by (auto simp: step)
  next
    assume ref: "x = Inl (JsError ''RATE_LIMIT_EXCEEDED'')" "find_task w1 (j_taskId j) \<noteq> None"
    show ?thesis
    proof (cases "Suc made < max_attempts")
      case True
      then have "work_job rt envs others clk (Suc made) j w1 = (fate, n, w')" using Suc.prems(2) ref(1) by (simp add: step)
      moreover have "k = max_attempts - Suc made" using Suc.hyps(2) by simp
      ultimately show ?thesis using Suc.hyps(1) ref(2) True by blast
    next
      case False
      then show ?thesis using Suc.prems(2,3) ref(1) by (auto simp: step)
    qed
  qed
qed simp

text \<open>The delays add up: k refusals keep a job waiting for 2000 * (2 ^ k - 1) milliseconds.\<close>

lemma backoff_total: "(\<Sum>k<n. backoff_delay (Suc k)) = 2000 * (2 ^ n - 1)"
  by (induction n) (simp_all add: backoff_delay_def algebra_simps)

text \<open>From the twenty-fifth refusal on a job waits for more than a year.\<close>

lemma long_backoff: "25 \<le> k \<Longrightarrow> 365 * 86400000 < backoff_delay k"
proof -
  assume "25 \<le> k"
  then have "(2 :: int) ^ 24 \<le> 2 ^ (k - 1)" by (intro power_increasing) auto
  then show ?thesis by (simp add: backoff_delay_def)
qed

end
