(* ===== verification/Server.thy ===== *)
theory Server
  imports Review
begin

section \<open>The HTTP server (server.ts, api/routes.ts)\<close>

text \<open>
  A request from the middleware of server.ts to the handler of its route. Express and its body
  parser are libraries: the path comes as its segments, the body as what the parser made of it,
  or nothing when it failed. What one request takes from outside is an \<open>exchange\<close>, what the process has
  is a \<open>deployment\<close>. A page is what the handler sends: a reply, or the rows whose JSON form is the
  database client's.
\<close>

record deployment =
  dp_rt :: runtime
  dp_av :: api_env
  dp_hm :: hmac
  dp_ci :: cipher
  dp_vendor :: vendor

record exchange =
  ex_body :: "json option"
  ex_raw :: "string option"
  ex_query :: "string \<Rightarrow> json option"
  ex_clk :: "nat \<Rightarrow> int"
  ex_redis :: bool
  ex_database :: bool
  ex_queue :: bool
  ex_late :: bool
  ex_tools :: tool_env
  ex_others :: "world \<Rightarrow> world"
  ex_iv1 :: string
  ex_iv2 :: string
  ex_counts :: "nat \<times> nat \<times> nat"

datatype page =
    Answer reply | Task_Page create_answer | Proposal_Page proposal_row | Decision_Page decision_row | Escalations_Page "escalation list"
  | Audit_Page "audit_row list" | Metrics_Page metrics | Dataset_Page string

subsection \<open>The routes\<close>

datatype target =
    To_Login | To_Verify | To_Receive
  | To_Tasks | To_Proposal string | To_Decisions | To_Decision string | To_Override string
  | To_Audit | To_Metrics | To_Dataset | To_Rollback | To_Settings | To_Save | To_Test

definition get_route :: "string list \<Rightarrow> target option" where
  "get_route p =
     (if p = [''decisions''] then Some To_Decisions
      else if p = [''audit'', ''logs''] then Some To_Audit
      else if p = [''metrics''] then Some To_Metrics
      else if p = [''training'', ''dataset''] then Some To_Dataset
      else if p = [''settings'', ''llm''] then Some To_Settings
      else if p = [''webhooks'', ''meta''] then Some To_Verify
      else (case p of
              [a, i] \<Rightarrow> if a = ''proposals'' then Some (To_Proposal i) else if a = ''decisions'' then Some (To_Decision i) else None
            | _ \<Rightarrow> None))"

definition post_route :: "string list \<Rightarrow> target option" where
  "post_route p =
     (if p = [''auth'', ''login''] then Some To_Login
      else if p = [''tasks''] then Some To_Tasks
      else if p = [''policies'', ''rollback''] then Some To_Rollback
      else if p = [''settings'', ''llm'', ''save''] then Some To_Save
      else if p = [''settings'', ''llm'', ''test''] then Some To_Test
      else if p = [''webhooks'', ''meta''] then Some To_Receive
      else (case p of
              [a, i, b] \<Rightarrow> if a = ''decisions'' \<and> b = ''override'' then Some (To_Override i) else None
            | _ \<Rightarrow> None))"

definition route :: "string \<Rightarrow> string list \<Rightarrow> target option" where
  "route m p = (if m = ''GET'' then get_route p else if m = ''POST'' then post_route p else None)"

fun endpoint_of :: "target \<Rightarrow> endpoint option" where
  "endpoint_of To_Tasks = Some Post_Tasks"
| "endpoint_of (To_Proposal i) = Some Get_Proposal"
| "endpoint_of To_Decisions = Some Get_Decisions"
| "endpoint_of (To_Decision i) = Some Get_Decision"
| "endpoint_of (To_Override i) = Some Post_Override"
| "endpoint_of To_Audit = Some Get_Audit"
| "endpoint_of To_Metrics = Some Get_Metrics"
| "endpoint_of To_Dataset = Some Get_Dataset"
| "endpoint_of To_Rollback = Some Post_Policy_Rollback"
| "endpoint_of To_Settings = Some Settings_Routes"
| "endpoint_of To_Save = Some Settings_Routes"
| "endpoint_of To_Test = Some Settings_Routes"
| "endpoint_of _ = None"

text \<open>The prefixes that ask for authentication before any route is looked at.\<close>

definition guarded :: "string list \<Rightarrow> bool" where
  "guarded p = (case p of [] \<Rightarrow> False
     | a # _ \<Rightarrow> a \<in> set [''tasks'', ''proposals'', ''decisions'', ''audit'', ''metrics'', ''training'', ''policies'', ''settings''])"

subsection \<open>The handlers behind the routes\<close>

definition either :: "('a \<Rightarrow> page) \<Rightarrow> reply + 'a \<Rightarrow> page" where
  "either f x = (case x of Inl r \<Rightarrow> Answer r | Inr v \<Rightarrow> f v)"

definition run_protected :: "deployment \<Rightarrow> exchange \<Rightarrow> target \<Rightarrow> user \<Rightarrow> request \<Rightarrow> world \<times> queue \<Rightarrow> page \<times> world \<times> queue" where
  "run_protected dp ex t u rq s =
     (case s of (w, q) \<Rightarrow>
        (case t of
           To_Tasks \<Rightarrow> (case createTask (dp_rt dp) (ex_clk ex 1) (ex_others ex) (ex_queue ex) rq u (w, q) of (a, s1) \<Rightarrow> (Task_Page a, s1))
         | To_Proposal i \<Rightarrow> (either Proposal_Page (getProposal i u w), w, q)
         | To_Decisions \<Rightarrow> (Escalations_Page (getEscalatedDecisions u w), w, q)
         | To_Decision i \<Rightarrow> (either Decision_Page (getDecision i u w), w, q)
         | To_Override i \<Rightarrow>
             (case overrideDecision (dp_rt dp) (\<lambda>n. ex_clk ex (n + 1)) (ex_redis ex) (ex_late ex) (ex_tools ex) i (us_tenant u) (us_id u) w of
                (r, w1) \<Rightarrow> (Answer r, w1, q))
         | To_Audit \<Rightarrow> (Audit_Page (getAuditLogs u w), w, q)
         | To_Metrics \<Rightarrow> (Metrics_Page (getMetrics (ex_counts ex) u w), w, q)
         | To_Dataset \<Rightarrow> (either Dataset_Page (getTrainingDataset u w), w, q)
         | To_Rollback \<Rightarrow> (case rollbackPolicy (dp_rt dp) (ex_clk ex 1) (rq_body rq) u w of (r, w1) \<Rightarrow> (Answer r, w1, q))
         | To_Settings \<Rightarrow> (Answer (get_settings u w), w, q)
         | To_Save \<Rightarrow> (case save_settings (dp_ci dp) (ex_iv1 ex) (ex_iv2 ex) u (rq_body rq) w of (r, w1) \<Rightarrow> (Answer r, w1, q))
         | To_Test \<Rightarrow> (Answer (test_connection (dp_ci dp) (dp_vendor dp) u (rq_body rq) w), w, q)
         | _ \<Rightarrow> (Answer unhandled, w, q)))"

definition run_public :: "deployment \<Rightarrow> exchange \<Rightarrow> target \<Rightarrow> request \<Rightarrow> world \<times> queue \<Rightarrow> page \<times> world \<times> queue" where
  "run_public dp ex t rq s =
     (case s of (w, q) \<Rightarrow>
        (case t of
           To_Login \<Rightarrow>
             (case loginHandler (dp_av dp) rq w of
                (Inl e, w1) \<Rightarrow> (Answer unhandled, w1, q)
              | (Inr r, w1) \<Rightarrow> (Answer r, w1, q))
         | To_Verify \<Rightarrow> (Answer (verifyMetaWebhook (dp_av dp) (ex_query ex)), w, q)
         | To_Receive \<Rightarrow>
             (case receiveMetaWebhook (dp_rt dp) (dp_av dp) (dp_hm dp) (\<lambda>n. ex_clk ex (n + 1)) (ex_queue ex) rq (ex_raw ex) (w, q) of
                (r, b, s1) \<Rightarrow> (Answer r, s1))
         | _ \<Rightarrow> (Answer unhandled, w, q)))"

definition not_found :: reply where
  "not_found = send_status 404 ''Not Found''"

text \<open>No route: under a guarded prefix the request is authenticated before it is not found.\<close>

definition unmatched :: "api_env \<Rightarrow> string list \<Rightarrow> request \<Rightarrow> world \<Rightarrow> reply \<times> world" where
  "unmatched av p rq w =
     (if guarded p
      then (case requireAuth av rq w of
              (Inl r, w1) \<Rightarrow> (r, w1)
            | (Inr u, w1) \<Rightarrow>
                (if hd p = ''settings''
                 then (case requireRole (allowed_roles Settings_Routes) (Some u) of Inl r \<Rightarrow> (r, w1) | Inr _ \<Rightarrow> (not_found, w1))
                 else (not_found, w1)))
      else (not_found, w))"

definition api_request :: "deployment \<Rightarrow> exchange \<Rightarrow> string list \<Rightarrow> request \<Rightarrow> world \<times> queue \<Rightarrow> page \<times> world \<times> queue" where
  "api_request dp ex p rq s =
     (case s of (w, q) \<Rightarrow>
        (case route (rq_method rq) p of
           Some t \<Rightarrow>
             (case endpoint_of t of
                Some ep \<Rightarrow>
                  (case admit (dp_av dp) (ex_clk ex 0) (ex_redis ex) ep rq w of
                     (Inl r, w1) \<Rightarrow> (Answer r, w1, q)
                   | (Inr u, w1) \<Rightarrow> run_protected dp ex t u rq (w1, q))
              | None \<Rightarrow>
                  (case rateLimiter 60 100 (ex_clk ex 0) (ex_redis ex) rq None w of
                     (Some r, w1) \<Rightarrow> (Answer r, w1, q)
                   | (None, w1) \<Rightarrow> run_public dp ex t rq (w1, q)))
         | None \<Rightarrow>
             (case rateLimiter 60 100 (ex_clk ex 0) (ex_redis ex) rq None w of
                (Some r, w1) \<Rightarrow> (Answer r, w1, q)
              | (None, w1) \<Rightarrow> (case unmatched (dp_av dp) p rq w1 of (r, w2) \<Rightarrow> (Answer r, w2, q)))))"

definition server_request :: "deployment \<Rightarrow> exchange \<Rightarrow> string list \<Rightarrow> request \<Rightarrow> world \<times> queue \<Rightarrow> page \<times> world \<times> queue" where
  "server_request dp ex path rq s =
     (case ex_body ex of
        None \<Rightarrow> (Answer unhandled, s)
      | Some body \<Rightarrow>
          (case path of
             a # p \<Rightarrow>
               if a = ''api'' then api_request dp ex p (rq\<lparr>rq_body := body\<rparr>) s
               else if path = [''health''] \<and> rq_method rq = ''GET'' then (Answer (health (ex_database ex) (ex_redis ex)), s)
               else (Answer not_found, s)
           | [] \<Rightarrow> (Answer not_found, s)))"

subsection \<open>What a request may do\<close>

definition signed :: "api_env \<Rightarrow> hmac \<Rightarrow> string option \<Rightarrow> request \<Rightarrow> bool" where
  "signed av hm raw rq \<longleftrightarrow> (\<exists>secret. av_var av ''META_APP_SECRET'' = Some secret \<and> secret \<noteq> []
     \<and> rq_headers rq ''x-hub-signature-256'' = Some (''sha256='' @ hm secret (hook_payload raw (rq_body rq))))"

lemma api_frame_refl [simp]: "api_frame w w"
  by (simp add: api_frame_def)

lemma api_frame_trans: "api_frame a b \<Longrightarrow> api_frame b c \<Longrightarrow> api_frame a c"
  by (simp add: api_frame_def)

lemma login_frame: "loginHandler av rq w = (x, w') \<Longrightarrow> api_frame w w'"
  by (auto simp: loginHandler_def resolveUserRole_def api_frame_def Let_def split: option.splits if_splits prod.splits json.splits sum.splits)

lemma unmatched_frame: "unmatched av p rq w = (r, w') \<Longrightarrow> api_frame w w'"
  using auth_frame by (auto simp: unmatched_def split: if_splits prod.splits sum.splits)

lemma public_frame:
  assumes "run_public dp ex t rq (w, q) = (pg, w', q')"
  shows "(api_frame w w' \<and> q' = q) \<or> (t = To_Receive \<and> signed (dp_av dp) (dp_hm dp) (ex_raw ex) rq)"
proof (cases t)
  case To_Receive
  obtain r b s1 where h: "receiveMetaWebhook (dp_rt dp) (dp_av dp) (dp_hm dp) (\<lambda>n. ex_clk ex (n + 1)) (ex_queue ex) rq (ex_raw ex) (w, q) = (r, b, s1)"
    by (rule prod_cases3)
  have "s1 = (w', q')" using assms To_Receive h by (simp add: run_public_def)
  then show ?thesis using signed_webhook [OF h] To_Receive by (cases "s1 = (w, q)") (simp, unfold signed_def, blast)
qed (use assms login_frame in \<open>auto simp: run_public_def split: prod.splits sum.splits\<close>)

lemma genuine_body [simp]: "genuine av (rq\<lparr>rq_body := b\<rparr>) u = genuine av rq u"
  by (simp add: genuine_def)

lemma api_request_cases:
  assumes "api_request dp ex p rq (w, q) = (pg, w', q')"
  shows "(api_frame w w' \<and> q' = q)
     \<or> (\<exists>t ep u. route (rq_method rq) p = Some t \<and> endpoint_of t = Some ep \<and> genuine (dp_av dp) rq u \<and> us_role u \<in> set (allowed_roles ep))
     \<or> (route (rq_method rq) p = Some To_Receive \<and> signed (dp_av dp) (dp_hm dp) (ex_raw ex) rq)"
proof -
  obtain l w1 where l: "rateLimiter 60 100 (ex_clk ex 0) (ex_redis ex) rq None w = (l, w1)" by fastforce
  note lf = limiter_frame [OF l]
  show ?thesis
  proof (cases "route (rq_method rq) p")
    case None
    obtain r w2 where u: "unmatched (dp_av dp) p rq w1 = (r, w2)" by fastforce
    have "api_frame w w2" using lf unmatched_frame [OF u] by (rule api_frame_trans)
    then show ?thesis using assms None l u lf by (cases l) (auto simp: api_request_def)
  next
    case (Some t)
    show ?thesis
    proof (cases "endpoint_of t")
      case None
      show ?thesis
      proof (cases l)
        case None
        then have "run_public dp ex t rq (w1, q) = (pg, w', q')"
          using assms Some \<open>endpoint_of t = None\<close> l by (simp add: api_request_def)
        from public_frame [OF this] show ?thesis using Some lf api_frame_trans by blast
      next
        case (Some r)
        then show ?thesis using assms \<open>route (rq_method rq) p = Some t\<close> None l lf by (simp add: api_request_def)
      qed
    next
      case ep: (Some ep)
      obtain x w2 where ad: "admit (dp_av dp) (ex_clk ex 0) (ex_redis ex) ep rq w = (x, w2)" by fastforce
      show ?thesis using assms Some ep ad admit_cases [OF ad] by (cases x) (auto simp: api_request_def)
    qed
  qed
qed


subsection \<open>Requests are operations of the platform\<close>

lemma protected_reach:
  assumes run: "run_protected dp ex t u rq (w, q) = (pg, w', q')" and u: "plain_user (us_id u)"
    and others: "\<And>v. ex_others ex v = v \<or> sys_step (dp_rt dp) v (ex_others ex v)"
  shows "(sys_step (dp_rt dp))\<^sup>*\<^sup>* w w'"
proof (cases t)
  case To_Tasks
  obtain a w1 q1 where c: "createTask (dp_rt dp) (ex_clk ex 1) (ex_others ex) (ex_queue ex) rq u (w, q) = (a, w1, q1)"
    by (rule prod_cases3)
  then have "w' = w1" using run To_Tasks by (simp add: run_protected_def)
  then show ?thesis using sys_step.task_requested [OF others c] by blast
next
  case (To_Override i)
  obtain r w1 where o': "overrideDecision (dp_rt dp) (\<lambda>n. ex_clk ex (n + 1)) (ex_redis ex) (ex_late ex) (ex_tools ex) i (us_tenant u) (us_id u) w = (r, w1)"
    by fastforce
  then have "w' = w1" using run To_Override by (simp add: run_protected_def)
  then show ?thesis using sys_step.override_requested [OF u o'] by blast
next
  case To_Rollback
  obtain r w1 where "rollbackPolicy (dp_rt dp) (ex_clk ex 1) (rq_body rq) u w = (r, w1)" by fastforce
  moreover have "w' = w1" using run To_Rollback calculation by (simp add: run_protected_def)
  ultimately show ?thesis by (blast intro: sys_step.policy_rolled_back)
next
  case To_Save
  obtain r w1 where "save_settings (dp_ci dp) (ex_iv1 ex) (ex_iv2 ex) u (rq_body rq) w = (r, w1)" by fastforce
  moreover have "w' = w1" using run To_Save calculation by (simp add: run_protected_def)
  ultimately show ?thesis by (blast intro: sys_step.settings_saved)
qed (use run in \<open>simp_all add: run_protected_def\<close>)

lemma public_reach:
  assumes run: "run_public dp ex t rq (w, q) = (pg, w', q')"
  shows "(sys_step (dp_rt dp))\<^sup>*\<^sup>* w w'"
proof (cases t)
  case To_Login
  obtain x w1 where l: "loginHandler (dp_av dp) rq w = (x, w1)" by fastforce
  then have "w' = w1" using run To_Login by (cases x) (simp_all add: run_public_def)
  then show ?thesis using sys_step.user_logged_in [OF l] by blast
next
  case To_Receive
  obtain r b w1 q1 where h: "receiveMetaWebhook (dp_rt dp) (dp_av dp) (dp_hm dp) (\<lambda>n. ex_clk ex (n + 1)) (ex_queue ex) rq (ex_raw ex) (w, q)
      = (r, b, w1, q1)"
    by (rule prod_cases4)
  then have "w' = w1" using run To_Receive by (simp add: run_public_def)
  then show ?thesis using sys_step.webhook_received [OF h] by blast
qed (use run in \<open>simp_all add: run_public_def\<close>)

lemma unmatched_reach: "unmatched av p rq w = (r, w') \<Longrightarrow> (sys_step rt)\<^sup>*\<^sup>* w w'"
proof -
  assume u: "unmatched av p rq w = (r, w')"
  obtain x w1 where a: "requireAuth av rq w = (x, w1)" by fastforce
  have "w' = w \<or> w' = w1" using u a by (auto simp: unmatched_def split: if_splits sum.splits)
  then show "(sys_step rt)\<^sup>*\<^sup>* w w'" using sys_step.user_checked [OF a] by blast
qed

lemma api_request_reach:
  assumes run: "api_request dp ex p rq (w, q) = (pg, w', q')"
    and plain: "\<And>u. genuine (dp_av dp) rq u \<Longrightarrow> plain_user (us_id u)"
    and others: "\<And>v. ex_others ex v = v \<or> sys_step (dp_rt dp) v (ex_others ex v)"
  shows "(sys_step (dp_rt dp))\<^sup>*\<^sup>* w w'"
proof -
  obtain l w1 where l: "rateLimiter 60 100 (ex_clk ex 0) (ex_redis ex) rq None w = (l, w1)" by fastforce
  have one: "sys_step (dp_rt dp) w w1" by (rule sys_step.request_counted [OF l])
  have after: "(sys_step (dp_rt dp))\<^sup>*\<^sup>* w v" if "(sys_step (dp_rt dp))\<^sup>*\<^sup>* w1 v" for v
    using one that by (rule converse_rtranclp_into_rtranclp)
  show ?thesis
  proof (cases "route (rq_method rq) p")
    case None
    obtain r w2 where u: "unmatched (dp_av dp) p rq w1 = (r, w2)" by fastforce
    have "w' = w1 \<or> w' = w2" using run None l u by (cases l) (simp_all add: api_request_def)
    then show ?thesis using after unmatched_reach [OF u] by blast
  next
    case (Some t)
    show ?thesis
    proof (cases "endpoint_of t")
      case None
      show ?thesis
      proof (cases l)
        case l0: None
        have "run_public dp ex t rq (w1, q) = (pg, w', q')" using run Some None l l0 by (simp add: api_request_def)
        then show ?thesis by (rule after [OF public_reach])
      next
        case l1: (Some r)
        have "w' = w1" using run Some None l l1 by (simp add: api_request_def)
        then show ?thesis using after by blast
      qed
    next
      case ep: (Some ep)
      obtain x w2 where ad: "admit (dp_av dp) (ex_clk ex 0) (ex_redis ex) ep rq w = (x, w2)" by fastforce
      note r2 = admit_reach [OF ad]
      show ?thesis
      proof (cases x)
        case (Inl r)
        then show ?thesis using run Some ep ad r2 by (simp add: api_request_def)
      next
        case (Inr u)
        have "run_protected dp ex t u rq (w2, q) = (pg, w', q')" using run Some ep ad Inr by (simp add: api_request_def)
        moreover have "plain_user (us_id u)" using admit_cases [OF ad] Inr plain by simp
        ultimately have "(sys_step (dp_rt dp))\<^sup>*\<^sup>* w2 w'" using others by (rule protected_reach)
        with r2 show ?thesis by (rule rtranclp_trans)
      qed
    qed
  qed
qed

text \<open>
  Every request to the server is a sequence of operations of the platform, so that the theorems
  about its histories hold of a server that answers requests: nothing the API offers lies
  outside of them, as long as no user id contains a comma.
\<close>

theorem server_request_reach:
  assumes "server_request dp ex path rq (w, q) = (pg, w', q')"
    and "\<And>u. genuine (dp_av dp) rq u \<Longrightarrow> plain_user (us_id u)"
    and "\<And>v. ex_others ex v = v \<or> sys_step (dp_rt dp) v (ex_others ex v)"
  shows "(sys_step (dp_rt dp))\<^sup>*\<^sup>* w w'"
proof (cases "\<exists>b p. ex_body ex = Some b \<and> path = ''api'' # p")
  case False
  then have "w' = w" using assms(1) by (auto simp: server_request_def split: option.splits list.splits if_splits)
  then show ?thesis by simp
next
  case True
  then obtain b p where bp: "ex_body ex = Some b" "path = ''api'' # p" by blast
  then have "api_request dp ex p (rq\<lparr>rq_body := b\<rparr>) (w, q) = (pg, w', q')" using assms(1) by (simp add: server_request_def)
  then show ?thesis by (rule api_request_reach) (use assms(2,3) in simp_all)
qed

end
