(* ===== verification/Server_Witnesses.thy ===== *)
theory Server_Witnesses
  imports Server System_Witnesses
begin

section \<open>The server at a concrete request\<close>

definition demo_deployment :: deployment where
  "demo_deployment = \<lparr>dp_rt = demo_rt, dp_av = demo_av, dp_hm = (\<lambda>s p. p), dp_ci = demo_ci, dp_vendor = le_vendor demo_le\<rparr>"

definition demo_exchange :: exchange where
  "demo_exchange = \<lparr>ex_body = Some (JObj []), ex_raw = None, ex_query = (\<lambda>k. None), ex_clk = (\<lambda>n. 0), ex_redis = True, ex_database = True,
     ex_queue = True, ex_late = False, ex_tools = demo_env, ex_others = (\<lambda>w. w), ex_iv1 = [], ex_iv2 = [], ex_counts = (0, 0, 0)\<rparr>"

definition demo_fetch :: "page \<times> world \<times> queue" where
  "demo_fetch = server_request demo_deployment demo_exchange [''api'', ''audit'', ''logs''] demo_request (empty_world, [])"


end
