(* ===== verification/Spec2Isabelle.thy ===== *)
theory Spec2Isabelle
  imports Witnesses Override_Witnesses System_Witnesses Critic Console Platform_Witnesses Lifecycle Review_Witnesses Job_Queue Server_Witnesses
begin

text \<open>
  A model of the Covernor platform, the TypeScript server under src/src and the state of its
  approval console under src/approval-console, with the theorems that make it correct.

  The program. A task is an objective in natural language. The advisor
  (core/minister/minister.service.ts) asks a language model for a strategy and stores it as a
  proposal; the critic (core/critic/critic.service.ts) scans the recommended option; the governor
  (core/governor/governor.service.ts, policies/engine.ts) evaluates policies, review duties and
  velocity limits and stores a decision, with a signed token when it approves; the operator
  (core/operator/operator.service.ts) consumes the token and calls a tool. The coordinator
  (core/workflow/coordinator.service.ts) runs these four in a loop of at most three attempts. A
  decision that was escalated waits for human votes (overrideDecision in api/controllers.ts).
  Every step writes to a hash-chained audit log (db/audit.logger.ts). Workers expire, reconcile
  and export rows in the background; an Express server offers the whole as an API.

  The state. The record \<open>world\<close> of the theory Schema holds the tables of prisma/schema.prisma as
  lists of rows in insertion order, the Redis counters, the sandbox files, the calls the tools
  made and the number of ids drawn. An operation is a function from its inputs and a world to an
  answer and a world; a thrown error is the left side of a sum, with the classes of
  core/errors/pipeline.errors.ts and what the runtime throws as constructors of \<open>exn\<close>. The clock is a
  function from the number of the access to a time in milliseconds. A value of type \<open>any\<close> is a
  \<open>json\<close>; numbers are decimals of unbounded precision with the two infinities and NaN.

  Theories and code.
  \<^item> Prelude: tables, guarded updates, objects as association lists. JsValue, Json_Text,
    Json_Parse, Dates: the language's coercions, comparisons, number and string printing,
    \<open>JSON.stringify\<close>, \<open>JSON.parse\<close> and dates; what is printed is read back. Schema: rows, policies,
    errors, the world; risks are a linear order.
  \<^item> Kms (core/crypto/kms.service.ts): canonical JSON, payload hashes, tokens. Audit_Log
    (db/audit.logger.ts): entries and their chain. Contracts (core/policy, core/schema,
    operator.types.ts): capabilities, tool contracts, payload schemas.
  \<^item> Policy_Engine (policies/engine.ts), Redis_Window (the counting script), Governor
    (governor.service.ts), with its laws in Governor_Laws; Default_Policies is config/policies.json.
  \<^item> Sql_Guard, Tools, File_System (core/operator/tools), Operator (operator.service.ts), with
    its laws in Operator_Laws.
  \<^item> Override (overrideDecision): the handler, and its database phases interleaved with those of
    other requests as the step relation \<open>ov_step\<close>.
  \<^item> Regex: the matcher of the language's regular expressions and the language it accepts.
    Critic (critic.service.ts), Pii (utils/pii.redactor.ts) use it.
  \<^item> Api_Auth (api/auth.middleware.ts, rate-limiter.middleware.ts, routes.ts), Secrets
    (encryption.service.ts, settings.controller.ts, the configuration of llm.provider.ts), Llm
    (llm.provider.ts and the adapters under minister/providers), Workflow (coordinator.service.ts,
    minister.service.ts) with Workflow_Laws and the queue's retries in Job_Queue, Api (api/controllers.ts) with Api_Laws, Webhook
    (api/webhooks), Console (approval-console/src/App.tsx).
  \<^item> Workers (workers/human-escalation, execution-reconciliation, reconciliation), Snapshot
    (workers/audit-snapshot) and Lifecycle: the timers and flags of the workers and the start-up
    and shutdown of server.ts, as a machine whose events are the callbacks of the process.
  \<^item> Authority and System: the whole platform. The machine of Authority keeps of a world the
    proposals' options, decisions, tokens, calls and the log, and has the few commits that may
    touch them; System shows every operation above to be a sequence of its steps. Review puts the
    console beside a platform that moves on while a person reads. Server is the HTTP server, from
    the middleware of server.ts over api/routes.ts to the handlers, and shows every request to be
    such a sequence of operations.
  \<^item> Demo and the theories ending in Witnesses: the properties at concrete inputs.

  What the lemmas show. Over every sequence of operations of the platform: a tool is called once
  per decision at most, with the approved option, and never for an action under human review
  without enough distinct approvers; the log is append-only and chained; and the approval button
  of the console runs the action the console shows. Per component: the
  governor's fold against its specification, the exact effect of evaluations, executions,
  overrides, sweeps, rollbacks, policy changes and webhooks, refusals and their lack of effect,
  isolation of tenants, termination of the replan loop, equivalence of critic and query guard
  with descriptions of what they accept, round trips of settings, strategies, file writes and
  snapshots. Some theorems state behaviour the program should not have: a transfer refunded
  twice, a console that cannot save, rows exported twice, a worker that polls twice.

  Interfaces are locales. \<open>guarded_update\<close> (Prelude): an update whose filter its own write falsifies
  admits one winner; interpreted for token consumption, the execution lock, votes, the override
  lock and task expiry. \<open>append_only\<close> (Audit_Log): what preserves and extends the chain.
  \<open>tool_adapter\<close> (File_System): what the operator asks of a tool; interpreted for every tool.
  \<open>governed\<close> (System): histories of steps that refine the authority machine; interpreted for the
  platform and for the operator alone.

  Bounds and fuel. \<open>JSON_parse\<close> runs on twice the length of the text plus one; more fuel gives the
  same (\<open>parse_value_fuel\<close>). The matcher of Regex iterates at most as often as the text is long,
  because an iteration must consume. The replan loop is recursive on the attempts left of
  three. The critic collects text to depth ten, as the code does. All other recursions are on
  lists or have a measure.

  Assumed of code that is not in the repository, as parameters: the SHA-256 digest and the
  signature (theorems on tampering assume the digest injective on the texts concerned), the AES
  cipher (it opens what it sealed), the JWT library, the ids the database draws (distinct), the
  clients of the language models, the HTTP client, the database driver and URL parser of the
  tools, symbolic links, the texts of the schema library, the date parser beyond the format
  \<open>toISOString\<close> prints. A Prisma call is atomic; a transaction is one step.

  Not modelled: logging; database and Redis connections and their configuration, so that a
  database failure and the 500 answered to it do not occur, while Redis may be down; security
  headers, CORS and the body parser; the layout of the console; the demonstrations and test scripts, which only call the operations above. Text is
  of code units below 256, the characters of HOL. Requests that reach the
  operator run one after another, except where a theorem speaks of interleaved steps.
\<close>

end
